(* ===== verification/Prelude.thy ===== *)
theory Prelude
  imports Main "HOL-Library.Word" "HOL-Library.Multiset"
begin

text \<open>
  Shared vocabulary of the development: the machine integer types of the Rust sources, the
  integer methods they call (saturating arithmetic, narrowing casts, big- and little-endian byte
  conversion), the decimal and hexadecimal formatting of \<^verbatim>\<open>format!\<close>, and the generic lemmas on
  words, byte strings and lists that the component theories use.

  Plain \<open>+\<close> and \<open>*\<close> on \<^verbatim>\<open>u64\<close> wrap here, as they do in the release profile the Makefile's
  \<^verbatim>\<open>run\<close> target builds; the workspace sets no \<^verbatim>\<open>overflow-checks\<close>.
\<close>

section \<open>Integer types\<close>

type_synonym u8 = "8 word"
type_synonym u16 = "16 word"
type_synonym u32 = "32 word"
type_synonym u64 = "64 word"
type_synonym u128 = "128 word"
type_synonym u256 = "256 word"
type_synonym address = "160 word"
type_synonym b256 = "256 word"
type_synonym bytes = "u8 list"

named_theorems unat_simps \<open>values of the integer methods, read through \<open>unat\<close>\<close>

text \<open>\<^verbatim>\<open>a.saturating_add(b)\<close>, \<^verbatim>\<open>saturating_sub\<close>, \<^verbatim>\<open>saturating_mul\<close>.\<close>

definition saturating_add :: "'a::len word \<Rightarrow> 'a word \<Rightarrow> 'a word" where
  "saturating_add a b = (if unat a + unat b < 2 ^ LENGTH('a) then a + b else - 1)"

definition saturating_sub :: "'a::len word \<Rightarrow> 'a word \<Rightarrow> 'a word" where
  "saturating_sub a b = (if b \<le> a then a - b else 0)"

definition saturating_mul :: "'a::len word \<Rightarrow> 'a word \<Rightarrow> 'a word" where
  "saturating_mul a b = (if unat a * unat b < 2 ^ LENGTH('a) then a * b else - 1)"

text \<open>\<^verbatim>\<open>x as u64\<close> on a wider or narrower unsigned value: truncation to the target width.\<close>

abbreviation as_u64 :: "'a::len word \<Rightarrow> u64" where
  "as_u64 x \<equiv> ucast x"

abbreviation u256_from :: "'a::len word \<Rightarrow> u256" where
  "u256_from x \<equiv> ucast x"

lemma word_less_plus_one: "x + 1 \<noteq> 0 \<Longrightarrow> x < x + 1" for x :: "'a::len word"
  using unatSuc [of x] by (simp add: word_less_nat_alt add.commute)

lemma min_add_min: "min (min x m + z) m = min (x + z) m" for x m z :: nat
  by (simp add: min_def)

lemma min_add_min2: "min (z + min x m) m = min (z + x) m" for x m z :: nat
  by (simp add: min_def)

lemma unat_max_word: "unat (- 1 :: 'a::len word) = 2 ^ LENGTH('a) - 1"
  by (simp add: unsigned_minus_1_eq_mask mask_eq_exp_minus_1)

lemma unat_le_max: "unat a \<le> 2 ^ LENGTH('a) - 1" for a :: "'a::len word"
proof -
  have "unat a < 2 ^ LENGTH('a)" by (rule unsigned_less)
  then show ?thesis by linarith
qed

lemma unat_ucast_wider:
  "LENGTH('b) \<le> LENGTH('a) \<Longrightarrow> unat (ucast x :: 'a::len word) = unat x" for x :: "'b::len word"
proof -
  assume "LENGTH('b) \<le> LENGTH('a)"
  then have "(2::nat) ^ LENGTH('b) \<le> 2 ^ LENGTH('a)" by (rule power_increasing) simp
  moreover have "unat x < 2 ^ LENGTH('b)" by (rule unsigned_less)
  ultimately have "unat x < 2 ^ LENGTH('a)" by linarith
  then show ?thesis by (simp add: unsigned_ucast_eq take_bit_nat_eq_self)
qed

lemma unat_saturating_add [unat_simps]:
  "unat (saturating_add a b) = min (unat a + unat b) (2 ^ LENGTH('a) - 1)"
  for a b :: "'a::len word"
  by (auto simp: saturating_add_def unat_word_ariths unat_max_word min_def)

lemma unat_saturating_sub [unat_simps]: "unat (saturating_sub a b) = unat a - unat b"
  by (auto simp: saturating_sub_def unat_sub word_le_nat_alt)

lemma unat_saturating_mul [unat_simps]:
  "unat (saturating_mul a b) = min (unat a * unat b) (2 ^ LENGTH('a) - 1)"
  for a b :: "'a::len word"
proof (cases "unat a * unat b < 2 ^ LENGTH('a)")
  case True
  then show ?thesis by (simp add: saturating_mul_def unat_word_ariths)
next
  case False
  then have "\<not> unat a * unat b \<le> 2 ^ LENGTH('a) - 1"
    using zero_less_power [of "2::nat" "LENGTH('a)"] by linarith
  with False show ?thesis by (simp add: saturating_mul_def unat_max_word min_def)
qed

lemma saturating_add_zero [simp]: "saturating_add 0 a = a" "saturating_add a 0 = a"
  by (simp_all add: saturating_add_def)

lemma saturating_sub_zero [simp]: "saturating_sub a 0 = a" "saturating_sub 0 a = 0"
  by (simp_all add: saturating_sub_def)

lemma saturating_add_commute: "saturating_add a b = saturating_add b a"
  by (simp add: saturating_add_def add.commute)

lemma saturating_add_assoc:
  "saturating_add (saturating_add a b) c = saturating_add a (saturating_add b c)"
  by (simp only: word_unat_eq_iff unat_saturating_add min_add_min min_add_min2 add.assoc)

lemma saturating_add_left_commute:
  "saturating_add a (saturating_add b c) = saturating_add b (saturating_add a c)"
  by (metis saturating_add_assoc saturating_add_commute)

lemma saturating_add_exact:
  "unat a + unat b < 2 ^ LENGTH('a) \<Longrightarrow> saturating_add a b = a + b"
  for a b :: "'a::len word"
  by (simp add: saturating_add_def)

lemma le_saturating_add: "a \<le> saturating_add a b"
  using unat_le_max [of a] by (simp add: word_le_nat_alt unat_simps)

text \<open>A loop of saturating additions is one addition, capped once.\<close>

lemma unat_foldl_saturating_add:
  "unat (foldl (\<lambda>acc x. saturating_add acc (f x)) a xs) =
     min (unat a + (\<Sum>x \<leftarrow> xs. unat (f x))) (2 ^ LENGTH('a) - 1)" for a :: "'a::len word"
proof (induction xs arbitrary: a)
  case Nil
  show ?case using unat_le_max [of a] by simp
next
  case (Cons x xs)
  show ?case
    by (simp only: foldl.simps Cons unat_saturating_add list.map sum_list.Cons min_add_min add.assoc)
qed

section \<open>Byte strings\<close>

text \<open>
  \<^verbatim>\<open>to_be_bytes\<close> and \<^verbatim>\<open>from_be_bytes\<close>: \<open>be_bytes n x\<close> is the big-endian array of length
  \<open>n\<close> of an integer \<open>8 * n\<close> bits wide. \<^verbatim>\<open>as_slice\<close> of an \<^verbatim>\<open>Address\<close> or \<^verbatim>\<open>B256\<close> is the same array.
\<close>

fun be_bytes :: "nat \<Rightarrow> 'a::len word \<Rightarrow> bytes" where
  "be_bytes 0 x = []"
| "be_bytes (Suc n) x = ucast (drop_bit (8 * n) x) # be_bytes n x"

fun be_nat :: "bytes \<Rightarrow> nat" where
  "be_nat [] = 0"
| "be_nat (b # bs) = unat b * 256 ^ length bs + be_nat bs"

definition from_be_bytes :: "bytes \<Rightarrow> 'a::len word" where
  "from_be_bytes bs = of_nat (be_nat bs)"

definition to_le_bytes_u32 :: "u32 \<Rightarrow> bytes" where
  "to_le_bytes_u32 x = rev (be_bytes 4 x)"

abbreviation addr_slice :: "address \<Rightarrow> bytes" where
  "addr_slice a \<equiv> be_bytes 20 a"

lemma be_bytes_numeral:
  "be_bytes (numeral k) x = ucast (drop_bit (8 * pred_numeral k) x) # be_bytes (pred_numeral k) x"
  by (simp add: numeral_eq_Suc)

lemma length_be_bytes [simp]: "length (be_bytes n x) = n"
  by (induction n) auto

lemma be_nat_bound: "be_nat bs < 256 ^ length bs"
proof (induction bs)
  case (Cons b bs)
  have "unat b \<le> 255" using unat_le_max [of b] by simp
  then have "unat b * 256 ^ length bs \<le> 255 * 256 ^ length bs" by (rule mult_le_mono1)
  with Cons have "unat b * 256 ^ length bs + be_nat bs < 256 * 256 ^ length bs" by linarith
  then show ?case by simp
qed simp

lemma unat_byte_of: "unat (ucast (drop_bit (8 * n) x) :: u8) = unat x div 256 ^ n mod 256"
  by (simp add: unsigned_ucast_eq unat_drop_bit_eq take_bit_eq_mod)
    (simp add: drop_bit_eq_div power_mult)

lemma be_nat_be_bytes: "be_nat (be_bytes n x) = unat x mod 256 ^ n"
proof (induction n)
  case (Suc n)
  have "unat x mod 256 ^ Suc n = 256 ^ n * (unat x div 256 ^ n mod 256) + unat x mod 256 ^ n"
    using mod_mult2_eq [of "unat x" "256 ^ n" 256] by (simp add: mult.commute)
  with Suc show ?case by (simp add: unat_byte_of mult.commute [of _ "256 ^ n"])
qed simp

lemma from_be_bytes_be_bytes:
  "LENGTH('a) \<le> 8 * n \<Longrightarrow> from_be_bytes (be_bytes n x) = x" for x :: "'a::len word"
proof -
  assume "LENGTH('a) \<le> 8 * n"
  then have "(2::nat) ^ LENGTH('a) \<le> 256 ^ n"
    using power_increasing [of "LENGTH('a)" "8 * n" "2::nat"] by (simp add: power_mult)
  then have "unat x < 256 ^ n" by (meson order_less_le_trans unsigned_less)
  then show ?thesis by (simp add: from_be_bytes_def be_nat_be_bytes)
qed

lemma be_bytes_from_be_bytes:
  "8 * length bs \<le> LENGTH('a) \<Longrightarrow> be_bytes (length bs) (from_be_bytes bs :: 'a::len word) = bs"
proof -
  assume len: "8 * length bs \<le> LENGTH('a)"
  have "be_nat bs < 2 ^ (8 * length bs)" using be_nat_bound [of bs] by (simp add: power_mult)
  also have "\<dots> \<le> 2 ^ LENGTH('a)" using len by (rule power_increasing) simp
  finally have u: "unat (from_be_bytes bs :: 'a word) = be_nat bs"
    by (simp add: from_be_bytes_def unat_of_nat)
  have inj: "length xs = length ys \<Longrightarrow> be_nat xs = be_nat ys \<Longrightarrow> xs = ys" for xs ys
  proof (induction xs ys rule: list_induct2)
    case (Cons x xs y ys)
    let ?k = "256 ^ length ys :: nat"
    have bounds: "be_nat xs < ?k" "be_nat ys < ?k"
      using be_nat_bound [of xs] be_nat_bound [of ys] Cons.hyps by simp_all
    have eq: "unat x * ?k + be_nat xs = unat y * ?k + be_nat ys"
      using Cons.prems Cons.hyps by simp
    have "unat x = (unat x * ?k + be_nat xs) div ?k" "unat y = (unat y * ?k + be_nat ys) div ?k"
      using bounds by simp_all
    with eq have "unat x = unat y" by simp
    moreover from this eq have "be_nat xs = be_nat ys" by simp
    ultimately show ?case using Cons.IH by (simp add: word_unat_eq_iff)
  qed simp
  show ?thesis
    by (rule inj) (simp_all add: be_nat_be_bytes u mod_less [OF be_nat_bound])
qed

lemma be_bytes_inject:
  "LENGTH('a) \<le> 8 * n \<Longrightarrow> be_bytes n x = be_bytes n y \<longleftrightarrow> x = y" for x y :: "'a::len word"
  by (metis from_be_bytes_be_bytes)

lemma addr_slice_inject [simp]: "addr_slice a = addr_slice b \<longleftrightarrow> a = b"
  by (rule be_bytes_inject) simp

lemma be_bytes_32_inject [simp]: "be_bytes 32 x = be_bytes 32 y \<longleftrightarrow> x = y" for x y :: u256
  by (rule be_bytes_inject) simp

lemma be_bytes_8_inject [simp]: "be_bytes 8 x = be_bytes 8 y \<longleftrightarrow> x = y" for x y :: u64
  by (rule be_bytes_inject) simp

lemma from_be_bytes_u256 [simp]: "from_be_bytes (be_bytes 32 x) = x" for x :: u256
  by (rule from_be_bytes_be_bytes) simp

lemma from_be_bytes_u64 [simp]: "from_be_bytes (be_bytes 8 x) = x" for x :: u64
  by (rule from_be_bytes_be_bytes) simp

lemma from_be_bytes_addr [simp]: "from_be_bytes (addr_slice a) = a"
  by (rule from_be_bytes_be_bytes) simp

lemma length_to_le_bytes_u32 [simp]: "length (to_le_bytes_u32 x) = 4"
  by (simp add: to_le_bytes_u32_def)

lemma to_le_bytes_u32_inject [simp]: "to_le_bytes_u32 x = to_le_bytes_u32 y \<longleftrightarrow> x = y"
  by (simp add: to_le_bytes_u32_def) (rule be_bytes_inject, simp)

end
