(* ===== verification/Rust_Format.thy ===== *)
theory Rust_Format
  imports Prelude
begin

text \<open>
  The text side of the Rust standard library as the sources use it: \<^verbatim>\<open>format!\<close> of unsigned
  integers in decimal and hexadecimal, \<^verbatim>\<open>from_str_radix(_, 16)\<close>, \<^verbatim>\<open>strip_prefix("0x")\<close> and the
  byte view of a string. A Rust string is its UTF-8 bytes; \<open>string\<close> is used for exactly those
  bytes, so \<open>length\<close> is \<^verbatim>\<open>str::len\<close>.

  Operations that can panic return an \<open>outcome\<close>.
\<close>

datatype ('e, 'a) outcome = Done 'a | Fail 'e | Panic

section \<open>Printing integers\<close>

definition hex_digit :: "nat \<Rightarrow> char" where
  "hex_digit n = char_of (if n < 10 then 48 + n else 87 + n)"

function show_base :: "nat \<Rightarrow> nat \<Rightarrow> string" where
  "show_base b n =
     (if n < b \<or> b < 2 then [hex_digit n] else show_base b (n div b) @ [hex_digit (n mod b)])"
  by pat_completeness auto
termination
  by (relation "measure snd") auto

declare show_base.simps [simp del]

text \<open>\<^verbatim>\<open>{v}\<close>, \<^verbatim>\<open>{v:x}\<close> and \<^verbatim>\<open>{b:02x}\<close>.\<close>

definition show_dec :: "'a::len word \<Rightarrow> string" where
  "show_dec v = show_base 10 (unat v)"

definition show_hex :: "'a::len word \<Rightarrow> string" where
  "show_hex v = show_base 16 (unat v)"

definition show_hex_byte :: "u8 \<Rightarrow> string" where
  "show_hex_byte b = [hex_digit (unat b div 16), hex_digit (unat b mod 16)]"

section \<open>Parsing integers\<close>

text \<open>\<^verbatim>\<open>std::num::IntErrorKind\<close>, and the messages \<^verbatim>\<open>ParseIntError\<close> displays.\<close>

datatype parse_int_error = EmptyInput | InvalidDigit | PosOverflow

fun show_parse_int_error :: "parse_int_error \<Rightarrow> string" where
  "show_parse_int_error EmptyInput = ''cannot parse integer from empty string''"
| "show_parse_int_error InvalidDigit = ''invalid digit found in string''"
| "show_parse_int_error PosOverflow = ''number too large to fit in target type''"

definition hex_val :: "char \<Rightarrow> nat option" where
  "hex_val c = (let n = of_char c in
     if 48 \<le> n \<and> n \<le> 57 then Some (n - 48)
     else if 97 \<le> n \<and> n \<le> 102 then Some (n - 87)
     else if 65 \<le> n \<and> n \<le> 70 then Some (n - 55) else None)"

fun radix16_fold :: "nat \<Rightarrow> nat \<Rightarrow> string \<Rightarrow> parse_int_error + nat" where
  "radix16_fold bound acc [] = Inr acc"
| "radix16_fold bound acc (c # cs) =
     (case hex_val c of
        None \<Rightarrow> Inl InvalidDigit
      | Some d \<Rightarrow>
          if bound \<le> acc * 16 + d then Inl PosOverflow else radix16_fold bound (acc * 16 + d) cs)"

text \<open>
  \<^verbatim>\<open>uN::from_str_radix(s, 16)\<close> for an unsigned type: an empty string is an error, so is a lone sign;
  a leading plus is accepted, a minus is an invalid digit.
\<close>

definition from_str_radix16 :: "string \<Rightarrow> parse_int_error + 'a::len word" where
  "from_str_radix16 s =
     (if s = [] then Inl EmptyInput
      else if s = ''+'' \<or> s = ''-'' then Inl InvalidDigit
      else case radix16_fold (2 ^ LENGTH('a)) 0 (if hd s = CHR ''+'' then tl s else s) of
             Inl e \<Rightarrow> Inl e
           | Inr n \<Rightarrow> Inr (of_nat n))"

text \<open>\<^verbatim>\<open>s.strip_prefix("0x").unwrap_or(s)\<close>.\<close>

definition strip_0x :: "string \<Rightarrow> string" where
  "strip_0x s = (if take 2 s = ''0x'' then drop 2 s else s)"

text \<open>
  A byte offset may cut a \<^verbatim>\<open>str\<close> only at a character boundary: the ends, or a byte that does not
  continue a multi-byte character. Slicing elsewhere panics.
\<close>

definition char_boundary :: "string \<Rightarrow> nat \<Rightarrow> bool" where
  "char_boundary s i \<longleftrightarrow>
     i = 0 \<or> i = length s \<or>
     (i < length s \<and> \<not> (128 \<le> (of_char (s ! i) :: nat) \<and> (of_char (s ! i) :: nat) < 192))"

section \<open>Lemmas\<close>

lemma strip_0x_prefix [simp]: "strip_0x (CHR ''0'' # CHR ''x'' # s) = s"
  by (simp add: strip_0x_def)

lemma of_char_hex_digit:
  "n < 16 \<Longrightarrow> (of_char (hex_digit n) :: nat) = (if n < 10 then 48 + n else 87 + n)"
  by (simp add: hex_digit_def)

lemma hex_val_hex_digit [simp]: "n < 16 \<Longrightarrow> hex_val (hex_digit n) = Some n"
  by (simp add: hex_val_def of_char_hex_digit Let_def)

lemma hex_digit_not_sign:
  "n < 16 \<Longrightarrow> hex_digit n \<noteq> CHR ''+''" "n < 16 \<Longrightarrow> hex_digit n \<noteq> CHR ''-''"
  using of_char_hex_digit [of n] by (auto split: if_splits)

lemma hex_digit_ascii: "n < 16 \<Longrightarrow> (of_char (hex_digit n) :: nat) < 128"
  by (simp add: of_char_hex_digit)

lemma unat_byte_less: "unat (b :: u8) < 256"
  using unsigned_less [where w = b and 'a = nat] by simp

text \<open>A byte printed with two digits reads back as itself.\<close>

lemma from_str_radix16_show_hex_byte: "from_str_radix16 (show_hex_byte b) = Inr b"
proof -
  have "unat b div 16 < 16" using unat_byte_less [of b] by simp
  moreover have "unat b div 16 * 16 + unat b mod 16 = unat b" by simp
  ultimately show ?thesis
    using unat_byte_less [of b]
    by (simp add: from_str_radix16_def show_hex_byte_def hex_digit_not_sign)
qed

lemma length_show_hex_byte [simp]: "length (show_hex_byte b) = 2"
  by (simp add: show_hex_byte_def)

lemma show_base_nonempty: "show_base b n \<noteq> []"
  by (subst show_base.simps) simp

lemma show_base_digits:
  "2 \<le> b \<Longrightarrow> c \<in> set (show_base b n) \<Longrightarrow> \<exists>d < b. c = hex_digit d"
proof (induction b n rule: show_base.induct)
  case (1 b n)
  show ?case
  proof (cases "n < b")
    case True
    with "1.prems" show ?thesis by (auto simp: show_base.simps [of b n])
  next
    case False
    then have "c \<in> set (show_base b (n div b)) \<or> c = hex_digit (n mod b)"
      using "1.prems" by (auto simp: show_base.simps [of b n] split: if_splits)
    moreover have "n mod b < b" using "1.prems"(1) by simp
    moreover have "\<not> (n < b \<or> b < 2)" using False "1.prems"(1) by simp
    ultimately show ?thesis using "1.IH" "1.prems"(1) by blast
  qed
qed

text \<open>A number printed in hexadecimal reads back as itself.\<close>

lemma radix16_fold_append:
  "radix16_fold bound acc (xs @ ys) =
     (case radix16_fold bound acc xs of Inl e \<Rightarrow> Inl e | Inr acc' \<Rightarrow> radix16_fold bound acc' ys)"
  by (induction bound acc xs rule: radix16_fold.induct) (auto split: option.splits)

lemma radix16_fold_show_base: "n < bound \<Longrightarrow> radix16_fold bound 0 (show_base 16 n) = Inr n"
proof (induction n rule: less_induct)
  case (less n)
  show ?case
  proof (cases "n < 16")
    case True
    with less.prems show ?thesis by (simp add: show_base.simps [of 16 n])
  next
    case False
    then have "show_base 16 n = show_base 16 (n div 16) @ [hex_digit (n mod 16)]"
      by (subst show_base.simps) simp
    moreover have "radix16_fold bound 0 (show_base 16 (n div 16)) = Inr (n div 16)"
      using False less.prems by (intro less.IH) simp_all
    moreover have "radix16_fold bound (n div 16) [hex_digit (n mod 16)] = Inr n"
      using less.prems by simp
    ultimately show ?thesis by (simp only: radix16_fold_append sum.case)
  qed
qed

lemma from_str_radix16_show_hex: "from_str_radix16 (show_hex v) = Inr v" for v :: "'a::len word"
proof -
  obtain c cs where s: "show_base 16 (unat v) = c # cs"
    using show_base_nonempty [of 16 "unat v"] by (cases "show_base 16 (unat v)") simp_all
  then obtain d where d: "d < 16" "c = hex_digit d"
    using show_base_digits [of 16 c "unat v"] by auto
  note sign = hex_digit_not_sign [OF d(1), folded d(2)]
  have "unat v < 2 ^ LENGTH('a)" by (rule unsigned_less)
  then have "radix16_fold (2 ^ LENGTH('a)) 0 (c # cs) = Inr (unat v)"
    using radix16_fold_show_base [of "unat v" "2 ^ LENGTH('a)"] by (simp only: s)
  then show ?thesis
    unfolding from_str_radix16_def show_hex_def s using sign by (simp del: radix16_fold.simps)
qed

end
