(* ===== verification/Transactions.thy ===== *)
theory Transactions
  imports Rust_Format
begin

text \<open>
  The file \<^verbatim>\<open>tx.rs\<close> of the crate \<^verbatim>\<open>nbnet-types\<close>: decoding with sender recovery, validation
  against the chain state, intrinsic gas and the effective tip.

  The envelope type, its decoder and its signature recovery are alloy's. An envelope is the record
  of the values its accessors return; \<open>tx_codec\<close> holds the decoder and the recovery function as
  parameters of every operation that calls them.
\<close>

section \<open>Data\<close>

record tx_envelope =
  env_tx_type :: u8
  env_chain_id :: "u64 option"
  env_nonce :: u64
  env_gas_limit :: u64
  env_max_fee_per_gas :: u128
  env_max_priority_fee_per_gas :: "u128 option"
  env_to :: "address option"
  env_value :: u256
  env_input :: bytes
  env_tx_hash :: b256

record tx_codec =
  decode_2718 :: "bytes \<Rightarrow> string + tx_envelope"
  recover_signer :: "tx_envelope \<Rightarrow> string + address"

record verified_tx =
  vt_raw :: bytes
  vt_envelope :: tx_envelope
  vt_sender :: address
  vt_tx_hash :: b256

datatype tx_error =
    RlpDecode string
  | SignatureRecovery string
  | ChainIdMismatch u64 "u64 option"
  | NonceTooLow u64 u64
  | InsufficientBalance u256 u256
  | IntrinsicGasTooLow u64 u64
  | GasLimitExceedsBlock u64 u64

text \<open>\<^verbatim>\<open>{got:?}\<close> on an \<^verbatim>\<open>Option<u64>\<close>.\<close>

fun show_debug_option :: "u64 option \<Rightarrow> string" where
  "show_debug_option None = ''None''"
| "show_debug_option (Some v) = ''Some('' @ show_dec v @ '')''"

fun show_tx_error :: "tx_error \<Rightarrow> string" where
  "show_tx_error (RlpDecode e) = ''RLP decode: '' @ e"
| "show_tx_error (SignatureRecovery e) = ''signature recovery: '' @ e"
| "show_tx_error (ChainIdMismatch expected got) =
     ''chain_id mismatch: expected '' @ show_dec expected @ '', got '' @ show_debug_option got"
| "show_tx_error (NonceTooLow expected got) =
     ''nonce too low: expected >= '' @ show_dec expected @ '', got '' @ show_dec got"
| "show_tx_error (InsufficientBalance required available) =
     ''insufficient balance: need '' @ show_dec required @ '', have '' @ show_dec available"
| "show_tx_error (IntrinsicGasTooLow required got) =
     ''intrinsic gas too low: need '' @ show_dec required @ '', got '' @ show_dec got"
| "show_tx_error (GasLimitExceedsBlock tx_gas block_limit) =
     ''gas limit '' @ show_dec tx_gas @ '' exceeds block limit '' @ show_dec block_limit"

section \<open>Operations\<close>

definition decode_and_recover :: "tx_codec \<Rightarrow> bytes \<Rightarrow> tx_error + verified_tx" where
  "decode_and_recover C raw =
     (case decode_2718 C raw of
        Inl e \<Rightarrow> Inl (RlpDecode e)
      | Inr envelope \<Rightarrow>
          (case recover_signer C envelope of
             Inl e \<Rightarrow> Inl (SignatureRecovery e)
           | Inr sender \<Rightarrow>
               Inr \<lparr>vt_raw = raw, vt_envelope = envelope, vt_sender = sender,
                    vt_tx_hash = env_tx_hash envelope\<rparr>))"

definition intrinsic_gas :: "tx_envelope \<Rightarrow> u64" where
  "intrinsic_gas tx =
     (let base_cost = (if env_to tx \<noteq> None then 21000 else 53000);
          data_cost = foldl (\<lambda>acc byte. saturating_add acc (if byte = 0 then 4 else 16)) 0
                        (env_input tx)
      in saturating_add base_cost data_cost)"

definition validate_tx ::
    "verified_tx \<Rightarrow> u64 \<Rightarrow> u64 \<Rightarrow> u256 \<Rightarrow> u64 \<Rightarrow> u64 \<Rightarrow> tx_error + unit" where
  "validate_tx tx the_chain_id account_nonce account_balance gas_limit base_fee =
     (let env = vt_envelope tx;
          tx_nonce = env_nonce env;
          tx_gas = env_gas_limit env;
          intrinsic = intrinsic_gas env;
          max_fee = max (env_max_fee_per_gas env) (ucast base_fee);
          upfront = u256_from tx_gas * u256_from max_fee + env_value env
      in if (case env_chain_id env of Some i \<Rightarrow> i \<noteq> the_chain_id | None \<Rightarrow> False)
         then Inl (ChainIdMismatch the_chain_id (env_chain_id env))
         else if tx_nonce < account_nonce then Inl (NonceTooLow account_nonce tx_nonce)
         else if tx_gas > gas_limit then Inl (GasLimitExceedsBlock tx_gas gas_limit)
         else if tx_gas < intrinsic then Inl (IntrinsicGasTooLow intrinsic tx_gas)
         else if upfront > account_balance
         then Inl (InsufficientBalance upfront account_balance)
         else Inr ())"

definition effective_gas_tip :: "tx_envelope \<Rightarrow> u64 \<Rightarrow> u64" where
  "effective_gas_tip tx base_fee =
     (let max_fee = as_u64 (env_max_fee_per_gas tx);
          max_priority = as_u64 (case env_max_priority_fee_per_gas tx of None \<Rightarrow> 0 | Some p \<Rightarrow> p);
          tip = saturating_sub max_fee base_fee
      in min tip max_priority)"

section \<open>Correctness\<close>

text \<open>The price a transaction must be able to pay up front, as an unbounded number.\<close>

definition upfront_cost :: "tx_envelope \<Rightarrow> u64 \<Rightarrow> nat" where
  "upfront_cost env base_fee =
     unat (env_gas_limit env) * max (unat (env_max_fee_per_gas env)) (unat base_fee)
       + unat (env_value env)"

definition data_gas :: "bytes \<Rightarrow> nat" where
  "data_gas input = (\<Sum>b \<leftarrow> input. if b = 0 then 4 else 16)"

definition intrinsic_cost :: "tx_envelope \<Rightarrow> nat" where
  "intrinsic_cost env =
     min ((if env_to env = None then 53000 else 21000) + data_gas (env_input env)) (2 ^ 64 - 1)"

lemma unat_max: "unat (max a b) = max (unat a) (unat b)"
  by (simp add: max_def word_le_nat_alt)

lemma unat_min: "unat (min a b) = min (unat a) (unat b)"
  by (simp add: min_def word_le_nat_alt)

lemma unat_upfront:
  "unat (u256_from (env_gas_limit env) * u256_from (max (env_max_fee_per_gas env) (ucast base_fee))
           + env_value env) = upfront_cost env base_fee mod 2 ^ 256"
  by (simp add: unat_word_ariths upfront_cost_def unat_ucast_wider unat_max mod_add_left_eq
      del: power_numeral)

lemma unat_intrinsic_gas: "unat (intrinsic_gas tx) = intrinsic_cost tx"
proof -
  have "(\<Sum>b \<leftarrow> env_input tx. unat (if b = 0 then 4 else 16 :: u64)) = data_gas (env_input tx)"
    by (simp add: data_gas_def if_distrib cong: if_cong)
  then show ?thesis
    by (simp add: intrinsic_gas_def intrinsic_cost_def unat_saturating_add
        unat_foldl_saturating_add min_add_min2 del: power_numeral)
qed

text \<open>
  C18: \<^verbatim>\<open>validate_tx\<close> accepts exactly when the chain id is absent or equal, the nonce is not below the
  account's, the gas limit lies between the intrinsic cost (53000 or 21000 plus 4 per zero and 16
  per non-zero byte, capped at the largest \<^verbatim>\<open>u64\<close>) and the block's limit, and the balance covers
  the upfront cost reduced modulo $2^{256}$.
\<close>

theorem validate_tx_accepts_iff:
  "validate_tx tx cid account_nonce bal limit base_fee = Inr () \<longleftrightarrow>
     (env_chain_id (vt_envelope tx) = None \<or> env_chain_id (vt_envelope tx) = Some cid) \<and>
     unat account_nonce \<le> unat (env_nonce (vt_envelope tx)) \<and>
     unat (env_gas_limit (vt_envelope tx)) \<le> unat limit \<and>
     intrinsic_cost (vt_envelope tx) \<le> unat (env_gas_limit (vt_envelope tx)) \<and>
     upfront_cost (vt_envelope tx) base_fee mod 2 ^ 256 \<le> unat bal"
  unfolding validate_tx_def Let_def
  by (auto simp: word_less_nat_alt not_less unat_upfront unat_intrinsic_gas simp del: power_numeral
      split: option.splits)

text \<open>
  An accepted transaction whose exact upfront cost fits in 256 bits is one the sender can pay:
  gas limit times the larger of its fee cap and the base fee, plus the value, is at most the
  balance.
\<close>

theorem validate_tx_affordable:
  assumes "upfront_cost (vt_envelope tx) base_fee < 2 ^ 256"
    and "validate_tx tx cid account_nonce bal limit base_fee = Inr ()"
  shows "upfront_cost (vt_envelope tx) base_fee \<le> unat bal"
proof -
  have "\<not> bal < u256_from (env_gas_limit (vt_envelope tx)) *
      u256_from (max (env_max_fee_per_gas (vt_envelope tx)) (ucast base_fee)) +
      env_value (vt_envelope tx)"
    using assms(2) unfolding validate_tx_def Let_def by (auto split: if_splits)
  then show ?thesis
    using assms(1) by (simp add: word_less_nat_alt not_less unat_upfront del: power_numeral)
qed

definition sample_envelope :: tx_envelope where
  "sample_envelope =
     \<lparr>env_tx_type = 2, env_chain_id = Some 1337, env_nonce = 0, env_gas_limit = 21000,
      env_max_fee_per_gas = 2000000000, env_max_priority_fee_per_gas = Some 1000000000,
      env_to = Some 187, env_value = 1000, env_input = [], env_tx_hash = 1\<rparr>"

definition sample_tx :: verified_tx where
  "sample_tx = \<lparr>vt_raw = [1, 2], vt_envelope = sample_envelope, vt_sender = 170, vt_tx_hash = 1\<rparr>"

lemma sample_upfront_cost: "upfront_cost (vt_envelope sample_tx) 1000000000 = 42000000001000"
  by (simp add: upfront_cost_def sample_tx_def sample_envelope_def)

lemma sample_validates:
  "validate_tx sample_tx 1337 0 42000000001000 30000000 1000000000 = Inr ()"
  by (simp add: validate_tx_def sample_tx_def sample_envelope_def intrinsic_gas_def)

theorem validate_tx_affordable_witness:
  "upfront_cost (vt_envelope sample_tx) 1000000000 \<le> unat (42000000001000 :: u256)"
  by (rule validate_tx_affordable [where cid = 1337 and account_nonce = 0 and limit = 30000000])
    (simp_all add: sample_upfront_cost sample_validates)

text \<open>
  The bound on the upfront cost is needed. The sum wraps, so a transaction whose value is close
  to $2^{256}$ passes the balance check of an account with an empty balance.
\<close>

theorem validate_tx_wraps:
  "let tx = sample_tx\<lparr>vt_envelope := sample_envelope\<lparr>env_value := - (21000 * 2000000000)\<rparr>\<rparr>
   in validate_tx tx 1337 0 0 30000000 1000000000 = Inr () \<and>
      0 < upfront_cost (vt_envelope tx) 1000000000"
  by (simp add: validate_tx_def sample_tx_def sample_envelope_def intrinsic_gas_def Let_def
      upfront_cost_def)

text \<open>
  The effective tip is what EIP-1559 defines, the smaller of the priority fee and the part of
  the fee cap above the base fee, for every envelope whose two fee fields fit in 64 bits.
\<close>

theorem effective_gas_tip_exact:
  assumes "unat (env_max_fee_per_gas tx) < 2 ^ 64"
    and "env_max_priority_fee_per_gas tx = Some p" and "unat p < 2 ^ 64"
  shows "unat (effective_gas_tip tx base_fee) =
           min (unat (env_max_fee_per_gas tx) - unat base_fee) (unat p)"
  using assms
  by (simp add: effective_gas_tip_def Let_def unat_min unat_saturating_sub unsigned_ucast_eq
      take_bit_nat_eq_self del: power_numeral)

theorem effective_gas_tip_exact_witness:
  "unat (effective_gas_tip sample_envelope 1500000000) = min (2000000000 - 1500000000) 1000000000"
  using effective_gas_tip_exact [of sample_envelope 1000000000 1500000000]
  by (simp add: sample_envelope_def)

text \<open>
  Outside that range the tip is wrong. A fee cap of exactly $2^{64}$ is truncated to zero, so a
  transaction that offers a tip of one gwei over any base fee is ranked with tip zero; and an
  envelope without a priority fee (a legacy transaction) has tip zero whatever it pays.
\<close>

theorem effective_gas_tip_truncates:
  "effective_gas_tip
     (sample_envelope\<lparr>env_max_fee_per_gas := 18446744073709551616\<rparr>) base_fee = 0 \<and>
   effective_gas_tip (env\<lparr>env_max_priority_fee_per_gas := None\<rparr>) base_fee = 0"
proof -
  have "unat (saturating_sub (as_u64 (18446744073709551616 :: u128)) base_fee) = 0"
    by (simp add: unat_saturating_sub unsigned_ucast_eq)
  then have "saturating_sub (as_u64 (18446744073709551616 :: u128)) base_fee = 0"
    by (simp only: unat_eq_0)
  then show ?thesis unfolding effective_gas_tip_def Let_def sample_envelope_def
    by (simp del: ucast_bintr)
qed

end
