(* ===== verification/Rust_Collections.thy ===== *)
theory Rust_Collections
  imports Prelude
begin

text \<open>
  The two map types of the Rust standard library that the sources use.

  A \<^verbatim>\<open>BTreeMap\<close> is the list of its entries in ascending key order (\<open>btree\<close>, with \<open>bt_ok\<close> for the
  strict order of the keys), so that \<^verbatim>\<open>len\<close>, \<^verbatim>\<open>iter\<close>, \<^verbatim>\<open>keys\<close> and \<^verbatim>\<open>range\<close> are the list's own.
  A \<^verbatim>\<open>HashMap\<close> is a HOL map; the order in which it yields its keys is not determined, so an
  operation that iterates over one takes that order as an argument, \<open>iter_order m ks\<close> saying
  that \<open>ks\<close> enumerates the keys of \<open>m\<close>.

  The locale \<open>key_map\<close> states the lookup laws both satisfy and derives the effect of a loop of
  insertions or removals; \<open>ordered_map\<close> adds the ordered iteration of a \<^verbatim>\<open>BTreeMap\<close>.
\<close>

section \<open>The interface\<close>

locale key_map =
  fixes get :: "'m \<Rightarrow> 'k \<Rightarrow> 'v option"
    and insert :: "'k \<Rightarrow> 'v \<Rightarrow> 'm \<Rightarrow> 'm"
    and remove :: "'k \<Rightarrow> 'm \<Rightarrow> 'm"
    and ok :: "'m \<Rightarrow> bool"
  assumes get_insert: "ok m \<Longrightarrow> get (insert k v m) k' = (if k' = k then Some v else get m k')"
    and get_remove: "ok m \<Longrightarrow> get (remove k m) k' = (if k' = k then None else get m k')"
    and ok_insert: "ok m \<Longrightarrow> ok (insert k v m)"
    and ok_remove: "ok m \<Longrightarrow> ok (remove k m)"
begin

lemma ok_fold_remove: "ok m \<Longrightarrow> ok (fold remove ks m)"
  by (induction ks arbitrary: m) (simp_all add: ok_remove)

lemma get_fold_remove:
  "ok m \<Longrightarrow> get (fold remove ks m) k = (if k \<in> set ks then None else get m k)"
  by (induction ks arbitrary: m) (simp_all add: get_remove ok_remove)

lemma ok_fold_insert: "ok m \<Longrightarrow> ok (fold (\<lambda>(k, v). insert k v) kvs m)"
  by (induction kvs arbitrary: m) (simp_all add: ok_insert split_beta)

lemma get_fold_insert:
  "ok m \<Longrightarrow> distinct (map fst kvs) \<Longrightarrow> get (fold (\<lambda>(k, v). insert k v) kvs m) k =
     (case map_of kvs k of Some v \<Rightarrow> Some v | None \<Rightarrow> get m k)"
proof (induction kvs arbitrary: m)
  case (Cons p kvs)
  obtain a b where p: "p = (a, b)" by (cases p)
  have "map_of kvs a = None" using Cons.prems p by (simp add: map_of_eq_None_iff)
  with Cons p show ?case by (auto simp: get_insert ok_insert split: option.splits)
qed simp

end

locale ordered_map = key_map get insert remove ok
  for get :: "'m \<Rightarrow> 'k::linorder \<Rightarrow> 'v option"
    and insert :: "'k \<Rightarrow> 'v \<Rightarrow> 'm \<Rightarrow> 'm"
    and remove :: "'k \<Rightarrow> 'm \<Rightarrow> 'm"
    and ok :: "'m \<Rightarrow> bool" +
  fixes entries :: "'m \<Rightarrow> ('k \<times> 'v) list"
  assumes entries_sorted: "ok m \<Longrightarrow> sorted_wrt (<) (map fst (entries m))"
    and entries_get: "ok m \<Longrightarrow> map_of (entries m) k = get m k"
begin

lemma distinct_keys: "ok m \<Longrightarrow> distinct (map fst (entries m))"
  using entries_sorted strict_sorted_iff by blast

lemma entries_iff: "ok m \<Longrightarrow> (k, v) \<in> set (entries m) \<longleftrightarrow> get m k = Some v"
  using distinct_keys entries_get by (metis map_of_eq_Some_iff)

lemma first_least:
  "ok m \<Longrightarrow> entries m = (k, v) # es \<Longrightarrow> get m k' = Some v' \<Longrightarrow> k \<le> k'"
  using entries_sorted [of m] entries_iff [of m k' v'] by force

lemma last_greatest:
  assumes "ok m" "entries m \<noteq> []" "get m k' = Some v'"
  shows "k' \<le> fst (last (entries m))"
proof -
  let ?ps = "butlast (entries m)" and ?p = "last (entries m)"
  have split: "entries m = ?ps @ [?p]" using assms(2) by simp
  have "sorted_wrt (<) (map fst (?ps @ [?p]))" using entries_sorted [OF assms(1)] split by simp
  then have below: "\<forall>q \<in> set ?ps. fst q < fst ?p" by (simp add: sorted_wrt_append)
  have "(k', v') \<in> set (?ps @ [?p])" using assms split by (simp add: entries_iff)
  then consider "(k', v') \<in> set ?ps" | "(k', v') = ?p" by (auto simp: set_append)
  then show ?thesis
  proof cases
    case 1
    with below have "fst (k', v') < fst ?p" by blast
    then show ?thesis by simp
  next
    case 2
    then show ?thesis by (metis fst_conv order_refl)
  qed
qed

end

section \<open>BTreeMap\<close>

type_synonym ('k, 'v) btree = "('k \<times> 'v) list"

definition bt_ok :: "('k::linorder, 'v) btree \<Rightarrow> bool" where
  "bt_ok m \<longleftrightarrow> sorted_wrt (<) (map fst m)"

abbreviation bt_get :: "('k, 'v) btree \<Rightarrow> 'k \<Rightarrow> 'v option" where
  "bt_get \<equiv> map_of"

abbreviation bt_contains :: "('k, 'v) btree \<Rightarrow> 'k \<Rightarrow> bool" where
  "bt_contains m k \<equiv> map_of m k \<noteq> None"

fun bt_insert :: "'k::linorder \<Rightarrow> 'v \<Rightarrow> ('k, 'v) btree \<Rightarrow> ('k, 'v) btree" where
  "bt_insert k v [] = [(k, v)]"
| "bt_insert k v ((a, b) # m) =
     (if k < a then (k, v) # (a, b) # m else if k = a then (k, v) # m
      else (a, b) # bt_insert k v m)"

fun bt_remove :: "'k \<Rightarrow> ('k, 'v) btree \<Rightarrow> ('k, 'v) btree" where
  "bt_remove k [] = []"
| "bt_remove k ((a, b) # m) = (if k = a then m else (a, b) # bt_remove k m)"

text \<open>\<^verbatim>\<open>keys().last()\<close> and \<^verbatim>\<open>range(..k)\<close>.\<close>

definition bt_last_key :: "('k, 'v) btree \<Rightarrow> 'k option" where
  "bt_last_key m = (if m = [] then None else Some (fst (last m)))"

definition bt_range_below :: "'k::linorder \<Rightarrow> ('k, 'v) btree \<Rightarrow> ('k, 'v) btree" where
  "bt_range_below k m = takeWhile (\<lambda>(a, _). a < k) m"

lemma bt_ok_Nil [simp]: "bt_ok []"
  by (simp add: bt_ok_def)

lemma bt_ok_Cons: "bt_ok ((a, b) # m) \<longleftrightarrow> (\<forall>k \<in> fst ` set m. a < k) \<and> bt_ok m"
  by (auto simp: bt_ok_def)

lemma keys_bt_insert: "fst ` set (bt_insert k v m) = Set.insert k (fst ` set m)"
  by (induction k v m rule: bt_insert.induct) auto

lemma keys_bt_remove: "fst ` set (bt_remove k m) \<subseteq> fst ` set m"
  by (induction k m rule: bt_remove.induct) auto

lemma bt_ok_insert: "bt_ok m \<Longrightarrow> bt_ok (bt_insert k v m)"
  by (induction k v m rule: bt_insert.induct) (auto simp: bt_ok_Cons keys_bt_insert)

lemma bt_ok_remove: "bt_ok m \<Longrightarrow> bt_ok (bt_remove k m)"
  by (induction k m rule: bt_remove.induct)
    (auto simp: bt_ok_Cons, use keys_bt_remove in fastforce)

lemma bt_get_above: "bt_ok ((a, b) # m) \<Longrightarrow> k \<le> a \<Longrightarrow> bt_get m k = None"
  by (force simp: bt_ok_Cons map_of_eq_None_iff)

lemma bt_get_insert: "bt_get (bt_insert k v m) k' = (if k' = k then Some v else bt_get m k')"
  by (induction k v m rule: bt_insert.induct) auto

lemma bt_get_remove:
  "bt_ok m \<Longrightarrow> bt_get (bt_remove k m) k' = (if k' = k then None else bt_get m k')"
  by (induction k m rule: bt_remove.induct) (auto simp: bt_get_above bt_ok_Cons)

interpretation bt: ordered_map bt_get bt_insert bt_remove bt_ok "\<lambda>m. m"
  by unfold_locales
    (simp_all add: bt_get_insert bt_get_remove bt_ok_insert bt_ok_remove, simp add: bt_ok_def)

lemmas bt_simps = bt.get_insert bt.get_remove bt.ok_insert bt.ok_remove

text \<open>What an insertion or removal does to the collection of entries.\<close>

lemma mset_bt_insert_new:
  "bt_get m k = None \<Longrightarrow> mset (bt_insert k v m) = add_mset (k, v) (mset m)"
  by (induction k v m rule: bt_insert.induct) (auto split: if_splits)

lemma mset_bt_insert_old:
  "bt_ok m \<Longrightarrow> bt_get m k = Some w \<Longrightarrow>
     add_mset (k, w) (mset (bt_insert k v m)) = add_mset (k, v) (mset m)"
  by (induction k v m rule: bt_insert.induct)
    (auto simp: bt_ok_Cons map_of_eq_None_iff dest!: map_of_SomeD split: if_splits)

lemma mset_bt_remove:
  "bt_get m k = Some v \<Longrightarrow> mset m = add_mset (k, v) (mset (bt_remove k m))"
  by (induction k m rule: bt_remove.induct) (auto split: if_splits)

lemma bt_remove_absent: "bt_get m k = None \<Longrightarrow> bt_remove k m = m"
  by (induction k m rule: bt_remove.induct) (auto split: if_splits)

lemma length_bt_insert:
  "bt_ok m \<Longrightarrow> length (bt_insert k v m) = (if bt_contains m k then length m else Suc (length m))"
  by (induction k v m rule: bt_insert.induct)
    (auto simp: bt_ok_Cons map_of_eq_None_iff dest!: map_of_SomeD split: if_splits)

lemma length_bt_remove:
  "length (bt_remove k m) = (if bt_contains m k then length m - 1 else length m)"
proof (cases "map_of m k")
  case (Some v)
  then have "size (mset m) = size (add_mset (k, v) (mset (bt_remove k m)))"
    using mset_bt_remove by metis
  with Some show ?thesis by simp
qed (simp add: bt_remove_absent)

lemma bt_last_key_greatest:
  "bt_ok m \<Longrightarrow> bt_last_key m = Some l \<Longrightarrow> bt_get m k = Some v \<Longrightarrow> k \<le> l"
  using bt.last_greatest [of m k v] by (auto simp: bt_last_key_def split: if_splits)

lemma bt_last_key_None [simp]: "bt_last_key m = None \<longleftrightarrow> m = []"
  by (simp add: bt_last_key_def)

lemma bt_last_key_present: "bt_last_key m = Some l \<Longrightarrow> bt_contains m l"
  by (auto simp: bt_last_key_def map_of_eq_None_iff split: if_splits)

lemma bt_last_key_insert:
  "bt_ok m \<Longrightarrow> bt_last_key (bt_insert k v m) =
     (case bt_last_key m of None \<Rightarrow> Some k | Some l \<Rightarrow> Some (max k l))"
proof -
  assume ok: "bt_ok m"
  let ?m = "bt_insert k v m"
  have ne: "?m \<noteq> []" by (cases m) (auto split: if_splits)
  then obtain l where l: "bt_last_key ?m = Some l" by (simp add: bt_last_key_def)
  have "bt_contains ?m l" using bt_last_key_present [OF l] .
  then have in_m: "l = k \<or> bt_contains m l" by (auto simp: bt_get_insert)
  have ge: "k \<le> l" "\<And>k'. bt_contains m k' \<Longrightarrow> k' \<le> l"
    using bt_last_key_greatest [OF bt_ok_insert [OF ok] l] by (auto simp: bt_get_insert, metis)
  show ?thesis
  proof (cases "bt_last_key m")
    case None
    then have "m = []" by simp
    then show ?thesis by (simp add: bt_last_key_def)
  next
    case (Some l')
    have "l' \<le> l" using ge(2) bt_last_key_present [OF Some] by blast
    moreover have "l = k \<or> l \<le> l'" using in_m bt_last_key_greatest [OF ok Some] by auto
    ultimately show ?thesis using l Some ge(1) by (auto simp: max_def)
  qed
qed

text \<open>\<^verbatim>\<open>range(..k)\<close> yields exactly the entries below \<open>k\<close>.\<close>

lemma bt_split_below:
  "bt_ok m \<Longrightarrow> bt_range_below k m = filter (\<lambda>(a, _). a < k) m \<and>
     dropWhile (\<lambda>(a, _). a < k) m = filter (\<lambda>(a, _). \<not> a < k) m"
proof (induction m)
  case (Cons p m)
  obtain a b where p: "p = (a, b)" by (cases p)
  show ?case
  proof (cases "a < k")
    case True
    with Cons p show ?thesis by (simp add: bt_range_below_def bt_ok_Cons)
  next
    case False
    then have "\<forall>q \<in> set m. \<not> fst q < k" using Cons.prems p by (force simp: bt_ok_Cons)
    then have "filter (\<lambda>(a, _). a < k) m = []" "filter (\<lambda>(a, _). \<not> a < k) m = m"
      by (auto simp: filter_empty_conv filter_id_conv)
    with False p show ?thesis by (simp add: bt_range_below_def)
  qed
qed (simp add: bt_range_below_def)

lemma bt_ok_filter: "bt_ok m \<Longrightarrow> bt_ok (filter P m)"
  by (induction m) (auto simp: bt_ok_Cons)

lemma bt_get_filter_key:
  "bt_ok m \<Longrightarrow> bt_get (filter (\<lambda>(a, _). Q a) m) k = (if Q k then bt_get m k else None)"
  by (induction m) (auto simp: bt_ok_Cons)

section \<open>HashMap\<close>

definition hm_insert :: "'k \<Rightarrow> 'v \<Rightarrow> ('k \<rightharpoonup> 'v) \<Rightarrow> ('k \<rightharpoonup> 'v)" where
  "hm_insert k v m = m(k \<mapsto> v)"

definition hm_remove :: "'k \<Rightarrow> ('k \<rightharpoonup> 'v) \<Rightarrow> ('k \<rightharpoonup> 'v)" where
  "hm_remove k m = m(k := None)"

interpretation hm: key_map "\<lambda>m. m" hm_insert hm_remove "\<lambda>_. True"
  by unfold_locales (simp_all add: hm_insert_def hm_remove_def)

definition iter_order :: "('k \<rightharpoonup> 'v) \<Rightarrow> 'k list \<Rightarrow> bool" where
  "iter_order m ks \<longleftrightarrow> distinct ks \<and> set ks = dom m"

lemma iter_order_perm: "iter_order m ks \<Longrightarrow> iter_order m ks' \<Longrightarrow> mset ks = mset ks'"
  by (metis iter_order_def set_eq_iff_mset_eq_distinct)

end
