(* ===== verification/Tx_Pool.thy ===== *)
theory Tx_Pool
  imports Transactions Rust_Collections
begin

text \<open>
  The crate \<^verbatim>\<open>nbnet-txpool\<close>: the transaction pool indexed by sender and nonce.

  The state is that of \<^verbatim>\<open>PoolInner\<close>: per sender a pending and a queued \<^verbatim>\<open>BTreeMap\<close> keyed by nonce,
  an index from transaction hash to sender, and the optional nonce lookup. The lookup is a closure
  that reads the executor when it is called, so it is a function of that environment (\<open>'st\<close>), which
  \<open>submit_tx\<close> takes as an argument. Every method runs under the pool's mutex, so each is one state
  transformer; the order in which a \<^verbatim>\<open>HashMap\<close> is traversed is the argument \<open>ks\<close>.
\<close>

section \<open>State\<close>

record evm_tx_pool_config =
  max_pending_per_sender :: nat
  max_queued_per_sender :: nat
  replacement_bump_pct :: u64
  pool_base_fee :: u64

definition default_tx_pool_config :: evm_tx_pool_config where
  "default_tx_pool_config =
     \<lparr>max_pending_per_sender = 64, max_queued_per_sender = 64, replacement_bump_pct = 10,
      pool_base_fee = 1000000000\<rparr>"

record pool_entry =
  pe_verified :: verified_tx
  pe_effective_tip :: u64

record sender_queue =
  sq_pending :: "(u64, pool_entry) btree"
  sq_queued :: "(u64, pool_entry) btree"

record 'st pool_inner =
  senders :: "address \<rightharpoonup> sender_queue"
  by_hash :: "b256 \<rightharpoonup> address"
  nonce_fn :: "('st \<Rightarrow> address \<Rightarrow> u64) option"

record 'st evm_tx_pool =
  pool_config :: evm_tx_pool_config
  pool_inner_of :: "'st pool_inner"

datatype pool_error =
    PoolTx tx_error
  | AlreadyKnown
  | PoolNonceTooLow u64 u64
  | ReplacementUnderpriced u64 u64
  | SenderQueueFull

fun show_pool_error :: "pool_error \<Rightarrow> string" where
  "show_pool_error (PoolTx e) = show_tx_error e"
| "show_pool_error AlreadyKnown = ''transaction already known''"
| "show_pool_error (PoolNonceTooLow tx_nonce current_nonce) =
     ''nonce too low: tx nonce '' @ show_dec tx_nonce @ '' < current '' @ show_dec current_nonce"
| "show_pool_error (ReplacementUnderpriced min_tip got) =
     ''replacement underpriced: need tip >= '' @ show_dec min_tip @ '', got '' @ show_dec got"
| "show_pool_error SenderQueueFull = ''sender queue full''"

abbreviation entry_hash :: "pool_entry \<Rightarrow> b256" where
  "entry_hash e \<equiv> vt_tx_hash (pe_verified e)"

abbreviation entry_nonce :: "pool_entry \<Rightarrow> u64" where
  "entry_nonce e \<equiv> env_nonce (vt_envelope (pe_verified e))"

abbreviation entry_sender :: "pool_entry \<Rightarrow> address" where
  "entry_sender e \<equiv> vt_sender (pe_verified e)"

abbreviation entry_gas :: "pool_entry \<Rightarrow> u64" where
  "entry_gas e \<equiv> env_gas_limit (vt_envelope (pe_verified e))"

section \<open>Construction\<close>

definition empty_queue :: sender_queue where
  "empty_queue = \<lparr>sq_pending = [], sq_queued = []\<rparr>"

definition new_tx_pool :: "evm_tx_pool_config \<Rightarrow> 'st evm_tx_pool" where
  "new_tx_pool config =
     \<lparr>pool_config = config,
      pool_inner_of = \<lparr>senders = Map.empty, by_hash = Map.empty, nonce_fn = None\<rparr>\<rparr>"

definition set_nonce_fn :: "('st \<Rightarrow> address \<Rightarrow> u64) \<Rightarrow> 'st evm_tx_pool \<Rightarrow> 'st evm_tx_pool" where
  "set_nonce_fn f pool = pool\<lparr>pool_inner_of := (pool_inner_of pool)\<lparr>nonce_fn := Some f\<rparr>\<rparr>"

section \<open>Submission\<close>

text \<open>The loop of \<^verbatim>\<open>promote_queued_static\<close>; \<open>next + 1\<close> wraps as the source's does.\<close>

function promote_loop ::
    "u64 \<Rightarrow> (u64, pool_entry) btree \<Rightarrow> (u64, pool_entry) btree \<Rightarrow>
     (u64, pool_entry) btree \<times> (u64, pool_entry) btree" where
  "promote_loop nxt pending queued =
     (case bt_get queued nxt of
        None \<Rightarrow> (pending, queued)
      | Some entry \<Rightarrow>
          promote_loop (nxt + 1) (bt_insert nxt entry pending) (bt_remove nxt queued))"
  by pat_completeness auto
termination
  by (relation "measure (\<lambda>(nxt, pending, queued). length queued)")
    (auto simp: length_bt_remove dest!: map_of_SomeD length_pos_if_in_set)

declare promote_loop.simps [simp del]

definition promote_queued_static :: "sender_queue \<Rightarrow> u64 \<Rightarrow> sender_queue" where
  "promote_queued_static queue current_nonce =
     (let nxt = (case bt_last_key (sq_pending queue) of None \<Rightarrow> current_nonce | Some n \<Rightarrow> n + 1);
          (pending, queued) = promote_loop nxt (sq_pending queue) (sq_queued queue)
      in queue\<lparr>sq_pending := pending, sq_queued := queued\<rparr>)"

text \<open>
  The part of \<^verbatim>\<open>submit_tx\<close> between the lookup of the sender's queue and the insertion: choice of
  the target map, replacement by fee, capacity. It returns the hash it replaced and the new queue.
\<close>

definition queue_admit ::
    "evm_tx_pool_config \<Rightarrow> sender_queue \<Rightarrow> u64 \<Rightarrow> u64 \<Rightarrow> pool_entry \<Rightarrow>
     pool_error + (b256 option \<times> sender_queue)" where
  "queue_admit config queue current_nonce tx_nonce entry =
     (let is_pending = (tx_nonce = current_nonce \<or>
                        bt_contains (sq_pending queue) (saturating_sub tx_nonce 1));
          target = (if is_pending then sq_pending queue else sq_queued queue);
          limit = (if is_pending then max_pending_per_sender config
                   else max_queued_per_sender config);
          replaced =
            (case bt_get target tx_nonce of
               None \<Rightarrow> Inr None
             | Some existing \<Rightarrow>
                 (let min_tip = saturating_mul (pe_effective_tip existing)
                                  (100 + replacement_bump_pct config) div 100
                  in if pe_effective_tip entry < min_tip
                     then Inl (ReplacementUnderpriced min_tip (pe_effective_tip entry))
                     else Inr (Some (entry_hash existing))))
      in case replaced of
           Inl e \<Rightarrow> Inl e
         | Inr old_hash \<Rightarrow>
             if old_hash = None \<and> limit \<le> length target then Inl SenderQueueFull
             else Inr (old_hash,
                       if is_pending then queue\<lparr>sq_pending := bt_insert tx_nonce entry target\<rparr>
                       else queue\<lparr>sq_queued := bt_insert tx_nonce entry target\<rparr>))"

definition submit_tx ::
    "tx_codec \<Rightarrow> 'st \<Rightarrow> 'st evm_tx_pool \<Rightarrow> bytes \<Rightarrow> (pool_error + b256) \<times> 'st evm_tx_pool" where
  "submit_tx C st pool raw =
     (case decode_and_recover C raw of
        Inl e \<Rightarrow> (Inl (PoolTx e), pool)
      | Inr verified \<Rightarrow>
          (let tx_hash = vt_tx_hash verified;
               effective_tip = effective_gas_tip (vt_envelope verified)
                                 (pool_base_fee (pool_config pool));
               entry = \<lparr>pe_verified = verified, pe_effective_tip = effective_tip\<rparr>;
               inner = pool_inner_of pool;
               sender = vt_sender verified;
               tx_nonce = env_nonce (vt_envelope verified);
               current_nonce = (case nonce_fn inner of None \<Rightarrow> 0 | Some f \<Rightarrow> f st sender);
               queue = (case senders inner sender of None \<Rightarrow> empty_queue | Some q \<Rightarrow> q)
           in if by_hash inner tx_hash \<noteq> None then (Inl AlreadyKnown, pool)
              else if tx_nonce < current_nonce
              then (Inl (PoolNonceTooLow tx_nonce current_nonce), pool)
              else case queue_admit (pool_config pool) queue current_nonce tx_nonce entry of
                     Inl e \<Rightarrow>
                       (Inl e, pool\<lparr>pool_inner_of :=
                                 inner\<lparr>senders := hm_insert sender queue (senders inner)\<rparr>\<rparr>)
                   | Inr (old_hash, queue') \<Rightarrow>
                       (let index = (case old_hash of
                                       None \<Rightarrow> by_hash inner
                                     | Some h \<Rightarrow> hm_remove h (by_hash inner))
                        in (Inr tx_hash,
                            pool\<lparr>pool_inner_of :=
                              inner\<lparr>senders := hm_insert sender
                                      (promote_queued_static queue' current_nonce) (senders inner),
                                    by_hash := hm_insert tx_hash sender index\<rparr>\<rparr>))))"

section \<open>Payload selection\<close>

type_synonym candidate = "address \<times> u64 \<times> u64 \<times> bytes"

definition first_pending :: "address \<Rightarrow> sender_queue \<Rightarrow> candidate list" where
  "first_pending sender queue =
     (case sq_pending queue of
        [] \<Rightarrow> []
      | (nonce, entry) # _ \<Rightarrow>
          [(sender, nonce, pe_effective_tip entry, vt_raw (pe_verified entry))])"

definition candidates_of :: "address list \<Rightarrow> (address \<rightharpoonup> sender_queue) \<Rightarrow> candidate list" where
  "candidates_of ks S =
     concat (map (\<lambda>sender. case S sender of None \<Rightarrow> [] | Some q \<Rightarrow> first_pending sender q) ks)"

text \<open>\<^verbatim>\<open>candidates.sort_by_key(|b| Reverse(b.2))\<close>: a stable sort, largest tip first.\<close>

definition sort_candidates :: "candidate list \<Rightarrow> candidate list" where
  "sort_candidates = sort_key (\<lambda>(_, _, tip, _). - uint tip)"

definition candidate_gas :: "(address \<rightharpoonup> sender_queue) \<Rightarrow> address \<Rightarrow> u64 \<Rightarrow> u64" where
  "candidate_gas S sender nonce =
     (case S sender of
        None \<Rightarrow> 0
      | Some q \<Rightarrow> (case bt_get (sq_pending q) nonce of None \<Rightarrow> 0 | Some e \<Rightarrow> entry_gas e))"

text \<open>The length prefix is \<^verbatim>\<open>(raw.len() as u32).to_le_bytes()\<close>.\<close>

definition frame :: "bytes \<Rightarrow> bytes" where
  "frame raw = to_le_bytes_u32 (of_nat (length raw)) @ raw"

fun select_loop ::
    "(address \<rightharpoonup> sender_queue) \<Rightarrow> nat \<Rightarrow> u64 \<Rightarrow> candidate list \<Rightarrow> bytes \<Rightarrow> u64 \<Rightarrow>
     (address \<times> u64) list \<Rightarrow> bytes \<times> (address \<times> u64) list" where
  "select_loop S max_bytes max_gas [] payload total_gas included = (payload, included)"
| "select_loop S max_bytes max_gas ((sender, nonce, tip, raw) # cs) payload total_gas included =
     (let gas = candidate_gas S sender nonce in
      if max_bytes < length payload + 4 + length raw then (payload, included)
      else if 0 < max_gas \<and> max_gas < total_gas + gas
      then select_loop S max_bytes max_gas cs payload total_gas included
      else select_loop S max_bytes max_gas cs (payload @ frame raw) (total_gas + gas)
             (included @ [(sender, nonce)]))"

definition remove_pending :: "address \<times> u64 \<Rightarrow> 'st pool_inner \<Rightarrow> 'st pool_inner" where
  "remove_pending = (\<lambda>(sender, nonce) inner.
     (case senders inner sender of
        None \<Rightarrow> inner
      | Some q \<Rightarrow>
          (case bt_get (sq_pending q) nonce of
             None \<Rightarrow> inner
           | Some e \<Rightarrow>
               inner\<lparr>senders := hm_insert sender (q\<lparr>sq_pending := bt_remove nonce (sq_pending q)\<rparr>)
                                 (senders inner),
                     by_hash := hm_remove (entry_hash e) (by_hash inner)\<rparr>)))"

definition collect_payload ::
    "address list \<Rightarrow> 'st evm_tx_pool \<Rightarrow> nat \<Rightarrow> u64 \<Rightarrow> bytes \<times> 'st evm_tx_pool" where
  "collect_payload ks pool max_bytes max_gas =
     (let inner = pool_inner_of pool;
          candidates = sort_candidates (candidates_of ks (senders inner));
          (payload, included) = select_loop (senders inner) max_bytes max_gas candidates [] 0 []
      in (payload, pool\<lparr>pool_inner_of := fold remove_pending included inner\<rparr>))"

section \<open>Commit\<close>

text \<open>Removal of the stale entries of one map: the hashes removed, and what is left.\<close>

definition evict :: "u64 \<Rightarrow> (u64, pool_entry) btree \<Rightarrow> b256 list \<times> (u64, pool_entry) btree" where
  "evict current_nonce m =
     fold (\<lambda>n (hashes, m).
             case bt_get m n of
               None \<Rightarrow> (hashes, m)
             | Some entry \<Rightarrow> (hashes @ [entry_hash entry], bt_remove n m))
       (map fst (bt_range_below current_nonce m)) ([], m)"

definition commit_queue :: "u64 \<Rightarrow> sender_queue \<Rightarrow> b256 list \<times> sender_queue" where
  "commit_queue current_nonce queue =
     (let (stale_pending, pending) = evict current_nonce (sq_pending queue);
          (stale_queued, queued) = evict current_nonce (sq_queued queue)
      in (stale_pending @ stale_queued,
          promote_queued_static (queue\<lparr>sq_pending := pending, sq_queued := queued\<rparr>)
            current_nonce))"

definition queue_empty :: "sender_queue \<Rightarrow> bool" where
  "queue_empty queue \<longleftrightarrow> sq_pending queue = [] \<and> sq_queued queue = []"

text \<open>The loop over the senders; the accumulator is the map, \<^verbatim>\<open>hashes_to_remove\<close>, \<^verbatim>\<open>empty_senders\<close>.\<close>

fun commit_loop ::
    "(address \<Rightarrow> u64) \<Rightarrow> address list \<Rightarrow> (address \<rightharpoonup> sender_queue) \<Rightarrow> b256 list \<Rightarrow> address list \<Rightarrow>
     (address \<rightharpoonup> sender_queue) \<times> b256 list \<times> address list" where
  "commit_loop f [] S hashes empties = (S, hashes, empties)"
| "commit_loop f (sender # ks) S hashes empties =
     (case S sender of
        None \<Rightarrow> commit_loop f ks S hashes empties
      | Some queue \<Rightarrow>
          (let (stale, queue') = commit_queue (f sender) queue in
           commit_loop f ks (hm_insert sender queue' S) (hashes @ stale)
             (if queue_empty queue' then empties @ [sender] else empties)))"

definition on_commit_pool ::
    "address list \<Rightarrow> (address \<Rightarrow> u64) \<Rightarrow> 'st evm_tx_pool \<Rightarrow> 'st evm_tx_pool" where
  "on_commit_pool ks f pool =
     (let inner = pool_inner_of pool;
          (S, hashes, empties) = commit_loop f ks (senders inner) [] []
      in pool\<lparr>pool_inner_of :=
           inner\<lparr>senders := fold hm_remove empties S,
                 by_hash := fold hm_remove hashes (by_hash inner)\<rparr>\<rparr>)"

section \<open>Queries\<close>

definition pending_count :: "address list \<Rightarrow> 'st evm_tx_pool \<Rightarrow> nat" where
  "pending_count ks pool =
     (\<Sum>s \<leftarrow> ks. case senders (pool_inner_of pool) s of None \<Rightarrow> 0 | Some q \<Rightarrow> length (sq_pending q))"

definition queued_count :: "address list \<Rightarrow> 'st evm_tx_pool \<Rightarrow> nat" where
  "queued_count ks pool =
     (\<Sum>s \<leftarrow> ks. case senders (pool_inner_of pool) s of None \<Rightarrow> 0 | Some q \<Rightarrow> length (sq_queued q))"

definition pool_contains :: "'st evm_tx_pool \<Rightarrow> b256 \<Rightarrow> bool" where
  "pool_contains pool hash \<longleftrightarrow> by_hash (pool_inner_of pool) hash \<noteq> None"

text \<open>\<^verbatim>\<open>update_base_fee\<close> only logs.\<close>

definition update_base_fee :: "'st evm_tx_pool \<Rightarrow> u64 \<Rightarrow> 'st evm_tx_pool" where
  "update_base_fee pool new_base_fee = pool"

end
