(* ===== verification/Precompile.thy ===== *)
theory Precompile
  imports Rust_Collections
begin

text \<open>
  The crate \<^verbatim>\<open>nbnet-precompile\<close>: the staking ledger and the precompiles at 0x0800 (balances) and
  0x0801 (staking), with their dispatch.

  What the precompiles call in revm is a parameter: \<open>revm_ops\<close> holds gas accounting, the journal's
  account load and transfer, the shared call buffer and the standard precompiles, over arbitrary
  types of execution context \<open>'c\<close>, gas counter \<open>'g\<close> and standard precompile set \<open>'e\<close>. The staking
  ledger is shared behind a mutex that is taken once per access, so a call maps the ledger it finds
  to the ledger it leaves.
\<close>

section \<open>The staking ledger\<close>

record staking_state =
  delegations :: "(address \<times> address) \<rightharpoonup> u256"

definition staking_new :: staking_state where
  "staking_new = \<lparr>delegations = Map.empty\<rparr>"

text \<open>\<^verbatim>\<open>entry(k).or_default()\<close> yields the stored amount or zero; the slot exists afterwards.\<close>

definition stake_slot :: "staking_state \<Rightarrow> address \<times> address \<Rightarrow> u256" where
  "stake_slot s k = (case delegations s k of None \<Rightarrow> 0 | Some v \<Rightarrow> v)"

definition delegate :: "address \<Rightarrow> address \<Rightarrow> u256 \<Rightarrow> staking_state \<Rightarrow> staking_state" where
  "delegate delegator validator amount s =
     s\<lparr>delegations := hm_insert (delegator, validator)
         (saturating_add (stake_slot s (delegator, validator)) amount) (delegations s)\<rparr>"

definition unbond ::
    "address \<Rightarrow> address \<Rightarrow> u256 \<Rightarrow> staking_state \<Rightarrow> (string + unit) \<times> staking_state" where
  "unbond delegator validator amount s =
     (let entry = stake_slot s (delegator, validator);
          put = (\<lambda>v. s\<lparr>delegations := hm_insert (delegator, validator) v (delegations s)\<rparr>)
      in if entry < amount then (Inl ''insufficient delegation'', put entry)
         else (Inr (), put (saturating_sub entry amount)))"

definition get_stake :: "staking_state \<Rightarrow> address \<Rightarrow> address \<Rightarrow> u256" where
  "get_stake s delegator validator =
     (case delegations s (delegator, validator) of None \<Rightarrow> 0 | Some v \<Rightarrow> v)"

text \<open>\<open>ks\<close> is the order in which the map is iterated.\<close>

definition total_stake :: "(address \<times> address) list \<Rightarrow> staking_state \<Rightarrow> address \<Rightarrow> u256" where
  "total_stake ks s validator =
     foldl (\<lambda>acc k. saturating_add acc (stake_slot s k)) 0 (filter (\<lambda>(_, v). v = validator) ks)"

section \<open>Calls\<close>

definition BALANCES_ADDR :: address where "BALANCES_ADDR = 0x0800"
definition STAKING_ADDR :: address where "STAKING_ADDR = 0x0801"

definition PRECOMPILE_BASE_GAS :: u64 where "PRECOMPILE_BASE_GAS = 150"
definition PRECOMPILE_WRITE_GAS :: u64 where "PRECOMPILE_WRITE_GAS = 500"

definition SEL_BALANCE_OF :: bytes where "SEL_BALANCE_OF = [0x70, 0xa0, 0x82, 0x31]"
definition SEL_TRANSFER :: bytes where "SEL_TRANSFER = [0xa9, 0x05, 0x9c, 0xbb]"
definition SEL_DELEGATE :: bytes where "SEL_DELEGATE = [0x02, 0x6e, 0x40, 0x2b]"
definition SEL_UNBOND :: bytes where "SEL_UNBOND = [0xa5, 0xd0, 0x59, 0xca]"
definition SEL_GET_STAKE :: bytes where "SEL_GET_STAKE = [0x82, 0xdd, 0xa2, 0x2d]"
definition SEL_TOTAL_STAKE :: bytes where "SEL_TOTAL_STAKE = [0xb2, 0x73, 0xfc, 0x9a]"

datatype call_input = SharedBuffer nat nat | CallBytes bytes

record call_inputs =
  ci_input :: call_input
  ci_gas_limit :: u64
  ci_bytecode_address :: address
  ci_caller :: address

text \<open>revm's result codes that this code sets; \<open>OtherResult\<close> stands for the rest of the enum.\<close>

datatype instruction_result =
  Return | Revert | PrecompileError | PrecompileOOG | OtherResult nat

record 'g interpreter_result =
  ir_result :: instruction_result
  ir_gas :: 'g
  ir_output :: bytes

text \<open>\<^verbatim>\<open>Ok(None)\<close>, \<^verbatim>\<open>Ok(Some(_))\<close> and \<^verbatim>\<open>Err(_)\<close> of the journal's \<^verbatim>\<open>transfer\<close>.\<close>

datatype transfer_result = TransferOk | TransferRefused | TransferDbError

record ('c, 'g, 'e) revm_ops =
  gas_new :: "u64 \<Rightarrow> 'g"
  record_cost :: "'g \<Rightarrow> u64 \<Rightarrow> bool \<times> 'g"
  load_account :: "'c \<Rightarrow> address \<Rightarrow> u256 option \<times> 'c"
  transfer :: "'c \<Rightarrow> address \<Rightarrow> address \<Rightarrow> u256 \<Rightarrow> transfer_result \<times> 'c"
  shared_memory_buffer_slice :: "'c \<Rightarrow> nat \<Rightarrow> nat \<Rightarrow> bytes option"
  eth_run :: "'e \<Rightarrow> 'c \<Rightarrow> call_inputs \<Rightarrow> (string + 'g interpreter_result option) \<times> 'e \<times> 'c"
  eth_warm_addresses :: "'e \<Rightarrow> address list"
  eth_contains :: "'e \<Rightarrow> address \<Rightarrow> bool"

definition extract_input :: "('c, 'g, 'e) revm_ops \<Rightarrow> 'c \<Rightarrow> call_inputs \<Rightarrow> bytes" where
  "extract_input ops context inputs =
     (case ci_input inputs of
        SharedBuffer a b \<Rightarrow>
          (case shared_memory_buffer_slice ops context a b of None \<Rightarrow> [] | Some s \<Rightarrow> s)
      | CallBytes bytes \<Rightarrow> bytes)"

text \<open>The slice \<^verbatim>\<open>&input[a..b]\<close> read as an integer.\<close>

definition word_at :: "nat \<Rightarrow> nat \<Rightarrow> bytes \<Rightarrow> 'a::len word" where
  "word_at a b input = from_be_bytes (take (b - a) (drop a input))"

abbreviation word_bytes :: "u256 \<Rightarrow> bytes" where
  "word_bytes v \<equiv> be_bytes 32 v"

section \<open>The balances precompile\<close>

definition run_balances ::
    "('c, 'g, 'e) revm_ops \<Rightarrow> 'c \<Rightarrow> call_inputs \<Rightarrow> 'g interpreter_result \<times> 'c" where
  "run_balances ops context inputs =
     (let input = extract_input ops context inputs;
          result = \<lparr>ir_result = Return, ir_gas = gas_new ops (ci_gas_limit inputs), ir_output = []\<rparr>;
          selector = take 4 input
      in if length input < 4 then (result\<lparr>ir_result := PrecompileError\<rparr>, context)
         else if selector = SEL_BALANCE_OF then
           if length input < 36 then (result\<lparr>ir_result := PrecompileError\<rparr>, context)
           else (case record_cost ops (ir_gas result) PRECOMPILE_BASE_GAS of
              (False, g) \<Rightarrow> (result\<lparr>ir_result := PrecompileOOG, ir_gas := g\<rparr>, context)
            | (True, g) \<Rightarrow>
                (case load_account ops context (word_at 16 36 input) of (acc, context') \<Rightarrow>
                  let balance = (case acc of Some b \<Rightarrow> b | None \<Rightarrow> 0)
                  in (result\<lparr>ir_gas := g, ir_output := word_bytes balance\<rparr>, context')))
         else if selector = SEL_TRANSFER then
           if length input < 68 then (result\<lparr>ir_result := PrecompileError\<rparr>, context)
           else (case record_cost ops (ir_gas result) PRECOMPILE_WRITE_GAS of
              (False, g) \<Rightarrow> (result\<lparr>ir_result := PrecompileOOG, ir_gas := g\<rparr>, context)
            | (True, g) \<Rightarrow>
                (case transfer ops context (ci_caller inputs) (word_at 16 36 input)
                        (word_at 36 68 input) of
                   (TransferOk, context') \<Rightarrow>
                     (result\<lparr>ir_gas := g, ir_output := word_bytes 1\<rparr>, context')
                 | (TransferRefused, context') \<Rightarrow>
                     (result\<lparr>ir_result := Revert, ir_gas := g, ir_output := word_bytes 0\<rparr>, context')
                 | (TransferDbError, context') \<Rightarrow>
                     (result\<lparr>ir_result := Revert, ir_gas := g, ir_output := word_bytes 0\<rparr>, context')))
         else (result\<lparr>ir_result := PrecompileError\<rparr>, context))"

section \<open>The staking precompile\<close>

definition run_staking ::
    "('c, 'g, 'e) revm_ops \<Rightarrow> (address \<times> address) list \<Rightarrow> staking_state \<Rightarrow> 'c \<Rightarrow> call_inputs \<Rightarrow>
     'g interpreter_result \<times> staking_state \<times> 'c" where
  "run_staking ops ks staking context inputs =
     (let input = extract_input ops context inputs;
          result = \<lparr>ir_result = Return, ir_gas = gas_new ops (ci_gas_limit inputs), ir_output = []\<rparr>;
          selector = take 4 input
      in if length input < 4 then (result\<lparr>ir_result := PrecompileError\<rparr>, staking, context)
         else if selector = SEL_DELEGATE then
           if length input < 68 then (result\<lparr>ir_result := PrecompileError\<rparr>, staking, context)
           else (case record_cost ops (ir_gas result) PRECOMPILE_WRITE_GAS of
              (False, g) \<Rightarrow> (result\<lparr>ir_result := PrecompileOOG, ir_gas := g\<rparr>, staking, context)
            | (True, g) \<Rightarrow>
                (let validator = word_at 16 36 input; amount = word_at 36 68 input;
                     delegator = ci_caller inputs
                 in case transfer ops context delegator STAKING_ADDR amount of (t, context') \<Rightarrow>
                      if t = TransferOk
                      then (result\<lparr>ir_gas := g, ir_output := word_bytes 1\<rparr>,
                            delegate delegator validator amount staking, context')
                      else (result\<lparr>ir_result := Revert, ir_gas := g, ir_output := word_bytes 0\<rparr>,
                            staking, context')))
         else if selector = SEL_UNBOND then
           if length input < 68 then (result\<lparr>ir_result := PrecompileError\<rparr>, staking, context)
           else (case record_cost ops (ir_gas result) PRECOMPILE_WRITE_GAS of
              (False, g) \<Rightarrow> (result\<lparr>ir_result := PrecompileOOG, ir_gas := g\<rparr>, staking, context)
            | (True, g) \<Rightarrow>
                (let validator = word_at 16 36 input; amount = word_at 36 68 input;
                     delegator = ci_caller inputs
                 in case unbond delegator validator amount staking of
                      (Inl _, staking') \<Rightarrow>
                        (result\<lparr>ir_result := Revert, ir_gas := g, ir_output := word_bytes 0\<rparr>,
                         staking', context)
                    | (Inr _, staking') \<Rightarrow>
                        (case transfer ops context STAKING_ADDR delegator amount of (t, context') \<Rightarrow>
                           if t = TransferOk
                           then (result\<lparr>ir_gas := g, ir_output := word_bytes 1\<rparr>, staking', context')
                           else (result\<lparr>ir_result := Revert, ir_gas := g, ir_output := word_bytes 0\<rparr>,
                                 staking', context'))))
         else if selector = SEL_GET_STAKE then
           if length input < 68 then (result\<lparr>ir_result := PrecompileError\<rparr>, staking, context)
           else (case record_cost ops (ir_gas result) PRECOMPILE_BASE_GAS of
              (False, g) \<Rightarrow> (result\<lparr>ir_result := PrecompileOOG, ir_gas := g\<rparr>, staking, context)
            | (True, g) \<Rightarrow>
                (let stake = get_stake staking (word_at 16 36 input) (word_at 48 68 input)
                 in (result\<lparr>ir_gas := g, ir_output := word_bytes stake\<rparr>, staking, context)))
         else if selector = SEL_TOTAL_STAKE then
           if length input < 36 then (result\<lparr>ir_result := PrecompileError\<rparr>, staking, context)
           else (case record_cost ops (ir_gas result) PRECOMPILE_BASE_GAS of
              (False, g) \<Rightarrow> (result\<lparr>ir_result := PrecompileOOG, ir_gas := g\<rparr>, staking, context)
            | (True, g) \<Rightarrow>
                (let total = total_stake ks staking (word_at 16 36 input)
                 in (result\<lparr>ir_gas := g, ir_output := word_bytes total\<rparr>, staking, context)))
         else (result\<lparr>ir_result := PrecompileError\<rparr>, staking, context))"

section \<open>Dispatch\<close>

record 'e hotmint_precompiles =
  hp_eth :: 'e
  hp_staking :: staking_state

text \<open>The constructor and \<^verbatim>\<open>set_spec\<close>, over the two functions of \<^verbatim>\<open>EthPrecompiles\<close> that they call.\<close>

definition precompiles_new :: "('p \<Rightarrow> 'e) \<Rightarrow> 'p \<Rightarrow> staking_state \<Rightarrow> 'e hotmint_precompiles" where
  "precompiles_new eth_new spec staking = \<lparr>hp_eth = eth_new spec, hp_staking = staking\<rparr>"

definition precompiles_set_spec ::
    "('e \<Rightarrow> 'p \<Rightarrow> bool \<times> 'e) \<Rightarrow> 'p \<Rightarrow> 'e hotmint_precompiles \<Rightarrow> bool \<times> 'e hotmint_precompiles" where
  "precompiles_set_spec eth_set_spec spec self =
     (case eth_set_spec (hp_eth self) spec of (changed, eth') \<Rightarrow> (changed, self\<lparr>hp_eth := eth'\<rparr>))"

definition precompiles_run ::
    "('c, 'g, 'e) revm_ops \<Rightarrow> (address \<times> address) list \<Rightarrow> 'e hotmint_precompiles \<Rightarrow> 'c \<Rightarrow>
     call_inputs \<Rightarrow> (string + 'g interpreter_result option) \<times> 'e hotmint_precompiles \<times> 'c" where
  "precompiles_run ops ks self context inputs =
     (let target = ci_bytecode_address inputs
      in if target = BALANCES_ADDR then
           (case run_balances ops context inputs of (r, context') \<Rightarrow> (Inr (Some r), self, context'))
         else if target = STAKING_ADDR then
           (case run_staking ops ks (hp_staking self) context inputs of (r, staking', context') \<Rightarrow>
              (Inr (Some r), self\<lparr>hp_staking := staking'\<rparr>, context'))
         else
           (case eth_run ops (hp_eth self) context inputs of (r, eth', context') \<Rightarrow>
              (r, self\<lparr>hp_eth := eth'\<rparr>, context')))"

definition precompiles_warm_addresses ::
    "('c, 'g, 'e) revm_ops \<Rightarrow> 'e hotmint_precompiles \<Rightarrow> address list" where
  "precompiles_warm_addresses ops self =
     eth_warm_addresses ops (hp_eth self) @ [BALANCES_ADDR, STAKING_ADDR]"

definition precompiles_contains ::
    "('c, 'g, 'e) revm_ops \<Rightarrow> 'e hotmint_precompiles \<Rightarrow> address \<Rightarrow> bool" where
  "precompiles_contains ops self addr \<longleftrightarrow>
     addr = BALANCES_ADDR \<or> addr = STAKING_ADDR \<or> eth_contains ops (hp_eth self) addr"

end
