(* ===== verification/Chain_Types.thy ===== *)
theory Chain_Types
  imports Rust_Collections Rust_Format
begin

text \<open>
  The data of the crate \<^verbatim>\<open>nbnet-types\<close> outside \<^verbatim>\<open>tx.rs\<close>: the chain configuration
  (\<^verbatim>\<open>config.rs\<close>), the genesis document with the hexadecimal codec of its code field
  (\<^verbatim>\<open>genesis.rs\<close>), and logs and receipts with the codec of the bloom field (\<^verbatim>\<open>receipt.rs\<close>).
  The lemmas show that both codecs read back what they write, and which strings they refuse.
  Their JSON form is in \<open>Genesis_Json\<close>.
\<close>

section \<open>Configuration: config.rs\<close>

datatype compat_profile = Modern | Legacy

record evm_chain_config =
  chain_id :: u64
  block_gas_limit :: u64
  base_fee_per_gas :: u64
  compat_profile_of :: compat_profile
  min_base_fee :: u64
  base_fee_change_denominator :: u64
  elasticity_multiplier :: u64

definition default_min_base_fee :: u64 where
  "default_min_base_fee = 1000000000"

definition default_base_fee_change_denom :: u64 where
  "default_base_fee_change_denom = 8"

definition default_elasticity_multiplier :: u64 where
  "default_elasticity_multiplier = 2"

definition default_evm_chain_config :: evm_chain_config where
  "default_evm_chain_config =
     \<lparr>chain_id = 1337, block_gas_limit = 30000000, base_fee_per_gas = 1000000000,
      compat_profile_of = Modern, min_base_fee = default_min_base_fee,
      base_fee_change_denominator = default_base_fee_change_denom,
      elasticity_multiplier = default_elasticity_multiplier\<rparr>"

section \<open>Genesis: genesis.rs\<close>

record genesis_alloc =
  ga_balance :: u256
  ga_nonce :: u64
  ga_code :: bytes
  ga_storage :: "(u256, u256) btree"

record evm_genesis =
  gen_chain_id :: u64
  gen_alloc :: "(address, genesis_alloc) btree"
  gen_gas_limit :: u64
  gen_base_fee_per_gas :: u64
  gen_coinbase :: address
  gen_timestamp :: u64

definition default_gas_limit :: u64 where
  "default_gas_limit = 30000000"

definition default_base_fee :: u64 where
  "default_base_fee = 1000000000"

text \<open>The module \<^verbatim>\<open>hex_bytes::hex\<close>.\<close>

datatype hex_error = OddLength | InvalidHex parse_int_error

fun show_hex_error :: "hex_error \<Rightarrow> string" where
  "show_hex_error OddLength = ''odd length hex string''"
| "show_hex_error (InvalidHex e) = ''invalid hex: '' @ show_parse_int_error e"

definition hex_encode :: "bytes \<Rightarrow> string" where
  "hex_encode bs = concat (map show_hex_byte bs)"

text \<open>
  \<^verbatim>\<open>(0..s.len()).step_by(2).map(...).collect()\<close>: the pairs are read from the left, the first error
  or panic ends the loop. \<open>s\<close> is the whole string, \<open>i\<close> the offset reached.
\<close>

function hex_decode_from :: "string \<Rightarrow> nat \<Rightarrow> (hex_error, bytes) outcome" where
  "hex_decode_from s i =
     (if length s \<le> i then Done []
      else if \<not> (i + 2 \<le> length s \<and> char_boundary s i \<and> char_boundary s (i + 2)) then Panic
      else case from_str_radix16 (take 2 (drop i s)) of
             Inl e \<Rightarrow> Fail (InvalidHex e)
           | Inr b \<Rightarrow> (case hex_decode_from s (i + 2) of
                         Done bs \<Rightarrow> Done (b # bs)
                       | Fail e \<Rightarrow> Fail e
                       | Panic \<Rightarrow> Panic))"
  by pat_completeness auto
termination
  by (relation "measure (\<lambda>(s, i). length s - i)") auto

declare hex_decode_from.simps [simp del]

definition hex_decode :: "string \<Rightarrow> (hex_error, bytes) outcome" where
  "hex_decode s = (if \<not> even (length s) then Fail OddLength else hex_decode_from s 0)"

definition hex_bytes_serialize :: "bytes \<Rightarrow> string" where
  "hex_bytes_serialize bs = ''0x'' @ hex_encode bs"

definition hex_bytes_deserialize :: "string \<Rightarrow> (hex_error, bytes) outcome" where
  "hex_bytes_deserialize s = hex_decode (strip_0x s)"

section \<open>Logs and receipts: receipt.rs\<close>

record evm_log =
  log_address :: address
  log_topics :: "b256 list"
  log_data :: bytes

record evm_receipt =
  rc_tx_hash :: b256
  rc_tx_index :: u64
  rc_block_hash :: b256
  rc_block_number :: u64
  rc_from :: address
  rc_to :: "address option"
  rc_cumulative_gas_used :: u64
  rc_gas_used :: u64
  rc_contract_address :: "address option"
  rc_logs :: "evm_log list"
  rc_logs_bloom :: bytes
  rc_status :: u8
  rc_effective_gas_price :: u256

text \<open>The module \<^verbatim>\<open>bloom_serde\<close>; the array \<^verbatim>\<open>[u8; 256]\<close> is a byte list of length 256.\<close>

datatype bloom_error = BloomLength | BloomUtf8 | BloomDigit parse_int_error

definition bloom_serialize :: "bytes \<Rightarrow> string" where
  "bloom_serialize bloom = ''0x'' @ concat (map show_hex_byte bloom)"

text \<open>\<^verbatim>\<open>std::str::from_utf8\<close> on a chunk of two bytes.\<close>

definition utf8_pair :: "char \<Rightarrow> char \<Rightarrow> bool" where
  "utf8_pair c d \<longleftrightarrow>
     (let m = (of_char c :: nat); n = (of_char d :: nat) in
      (m < 128 \<and> n < 128) \<or> (194 \<le> m \<and> m < 224 \<and> 128 \<le> n \<and> n < 192))"

fun bloom_chunks :: "string \<Rightarrow> bloom_error + bytes" where
  "bloom_chunks (c # d # cs) =
     (if \<not> utf8_pair c d then Inl BloomUtf8
      else case from_str_radix16 [c, d] of
             Inl e \<Rightarrow> Inl (BloomDigit e)
           | Inr b \<Rightarrow> (case bloom_chunks cs of Inl e \<Rightarrow> Inl e | Inr bs \<Rightarrow> Inr (b # bs)))"
| "bloom_chunks _ = Inr []"

definition bloom_deserialize :: "string \<Rightarrow> bloom_error + bytes" where
  "bloom_deserialize s =
     (let s = strip_0x s in if length s \<noteq> 512 then Inl BloomLength else bloom_chunks s)"

section \<open>The codecs read back what they write\<close>

lemma length_hex_encode [simp]: "length (hex_encode bs) = 2 * length bs"
  by (induction bs) (auto simp: hex_encode_def)

lemma hex_encode_Cons: "hex_encode (b # bs) = show_hex_byte b @ hex_encode bs"
  by (simp add: hex_encode_def)

lemma hex_encode_append: "hex_encode (xs @ ys) = hex_encode xs @ hex_encode ys"
  by (simp add: hex_encode_def)

lemma hex_encode_ascii: "c \<in> set (hex_encode bs) \<Longrightarrow> (of_char c :: nat) < 128"
proof -
  have "unat b div 16 < 16" for b :: u8 using unat_byte_less [of b] by simp
  moreover assume "c \<in> set (hex_encode bs)"
  ultimately show ?thesis
    by (auto simp: hex_encode_def show_hex_byte_def intro!: hex_digit_ascii)
qed

lemma char_boundary_ascii:
  "i \<le> length s \<Longrightarrow> (\<And>c. c \<in> set s \<Longrightarrow> (of_char c :: nat) < 128) \<Longrightarrow> char_boundary s i"
proof (cases "i = length s")
  case False
  moreover assume "i \<le> length s" and ascii: "\<And>c. c \<in> set s \<Longrightarrow> (of_char c :: nat) < 128"
  ultimately have "i < length s" by simp
  moreover from this have "(of_char (s ! i) :: nat) < 128" by (intro ascii nth_mem)
  ultimately show ?thesis by (simp add: char_boundary_def)
qed (simp add: char_boundary_def)

lemma hex_decode_from_encode:
  "hex_decode_from (hex_encode (xs @ bs)) (2 * length xs) = Done bs"
proof (induction bs arbitrary: xs)
  case Nil
  show ?case by (subst hex_decode_from.simps) simp
next
  case (Cons b bs)
  let ?s = "hex_encode (xs @ b # bs)"
  have boundary: "i \<le> length ?s \<Longrightarrow> char_boundary ?s i" for i
    by (rule char_boundary_ascii) (auto dest: hex_encode_ascii)
  have "take 2 (drop (2 * length xs) ?s) = show_hex_byte b"
    by (simp add: hex_encode_append hex_encode_Cons)
  moreover have "hex_decode_from ?s (2 * length xs + 2) = Done bs"
    using Cons [of "xs @ [b]"] by simp
  ultimately show ?case
    by (subst hex_decode_from.simps) (simp add: boundary from_str_radix16_show_hex_byte)
qed

lemma hex_decode_encode: "hex_decode (hex_encode bs) = Done bs"
  using hex_decode_from_encode [of "[]" bs] by (simp add: hex_decode_def)

lemma utf8_pair_ascii: "(of_char c :: nat) < 128 \<Longrightarrow> (of_char d :: nat) < 128 \<Longrightarrow> utf8_pair c d"
  by (simp add: utf8_pair_def Let_def)

lemma bloom_chunks_encode: "bloom_chunks (concat (map show_hex_byte bs)) = Inr bs"
proof (induction bs)
  case (Cons b bs)
  obtain c d where cd: "show_hex_byte b = [c, d]" by (simp add: show_hex_byte_def)
  have "set [c, d] \<subseteq> set (hex_encode [b])" using cd by (simp add: hex_encode_def)
  then have "utf8_pair c d" using hex_encode_ascii by (intro utf8_pair_ascii) auto
  with Cons cd show ?case using from_str_radix16_show_hex_byte [of b] by simp
qed simp

lemma bloom_roundtrip:
  "bloom_deserialize (bloom_serialize bs) = (if length bs = 256 then Inr bs else Inl BloomLength)"
proof -
  have "length (concat (map show_hex_byte bs)) = 2 * length bs"
    using length_hex_encode [of bs] by (simp add: hex_encode_def)
  then show ?thesis by (simp add: bloom_deserialize_def bloom_serialize_def bloom_chunks_encode)
qed

text \<open>
  Both codecs read back what they write: the code field of a genesis account for every byte
  string, the bloom field for exactly the strings of 256 bytes, any other length being refused.
\<close>

theorem codecs_roundtrip:
  "hex_bytes_deserialize (hex_bytes_serialize bs) = Done bs \<and>
   bloom_deserialize (bloom_serialize bs) = (if length bs = 256 then Inr bs else Inl BloomLength)"
  by (simp add: hex_bytes_deserialize_def hex_bytes_serialize_def hex_decode_encode bloom_roundtrip)

text \<open>
  The decoder of the code field slices the string by bytes, so a character of several bytes makes
  it panic instead of returning an error; and it accepts a sign inside a pair of digits.
\<close>

theorem hex_decode_quirks:
  "hex_decode [CHR 0xE2, CHR 0x82, CHR 0xAC, CHR ''a''] = Panic \<and> hex_decode ''+f'' = Done [15]"
  by (simp add: hex_decode_def hex_decode_from.simps char_boundary_def from_str_radix16_def hex_val_def
      nth_Cons' Let_def)

end
