(* ===== verification/World_State.thy ===== *)
theory World_State
  imports Chain_Types Rust_Collections
begin

text \<open>
  The crate \<^verbatim>\<open>nbnet-state\<close>: the persistent account store \<^verbatim>\<open>VsdbStateDb\<close>, its two database traits, and
  \<^verbatim>\<open>EvmState\<close>, which puts revm's write cache and a state trie in front of it.

  Three libraries are parameters, gathered in \<open>state_ops\<close>. vsdb's \<^verbatim>\<open>MapxOrdRawKey\<close> is a record of its
  operations over an arbitrary store type; the trie \<^verbatim>\<open>MptCalc\<close> likewise; of revm, the bytecode type
  \<open>'b\<close> with its constructor and accessor, the default account and the hash of the empty code.
  The fields of revm's \<^verbatim>\<open>AccountInfo\<close>, \<^verbatim>\<open>DbAccount\<close> and \<^verbatim>\<open>CacheDB\<close> that the sources read and write are
  records here. Iteration over one of the cache's hash maps follows an order given as an argument.
\<close>

section \<open>Data\<close>

record ('v, 'm) kv_ops =
  kv_new :: 'm
  kv_insert :: "bytes \<Rightarrow> 'v \<Rightarrow> 'm \<Rightarrow> 'm"
  kv_get :: "'m \<Rightarrow> bytes \<Rightarrow> 'v option"

record 'b account_info =
  ai_balance :: u256
  ai_nonce :: u64
  ai_code_hash :: b256
  ai_code :: "'b option"

record stored_account =
  balance_be :: bytes
  sa_nonce :: u64
  sa_code_hash :: bytes

record ('b, 'a, 'k, 's, 't) state_ops =
  acc_kv :: "(stored_account, 'a) kv_ops"
  code_kv :: "(bytes, 'k) kv_ops"
  word_kv :: "(bytes, 's) kv_ops"
  mpt_new :: 't
  mpt_insert :: "bytes \<Rightarrow> bytes \<Rightarrow> 't \<Rightarrow> 't"
  mpt_root_hash :: "'t \<Rightarrow> bytes option \<times> 't"
  bytecode_new_raw :: "bytes \<Rightarrow> 'b"
  bytes_slice :: "'b \<Rightarrow> bytes"
  default_bytecode :: 'b
  default_info :: "'b account_info"
  KECCAK_EMPTY :: b256

definition stored_from_info :: "'b account_info \<Rightarrow> stored_account" where
  "stored_from_info info =
     \<lparr>balance_be = be_bytes 32 (ai_balance info), sa_nonce = ai_nonce info,
      sa_code_hash = be_bytes 32 (ai_code_hash info)\<rparr>"

definition stored_to_info ::
    "('b, 'a, 'k, 's, 't) state_ops \<Rightarrow> stored_account \<Rightarrow> 'b account_info" where
  "stored_to_info ops s =
     (default_info ops)\<lparr>ai_balance := from_be_bytes (balance_be s), ai_nonce := sa_nonce s,
        ai_code_hash := from_be_bytes (sa_code_hash s)\<rparr>"

section \<open>The persistent store\<close>

record ('a, 'k, 's) vsdb_state_db =
  vs_accounts :: 'a
  vs_contracts :: 'k
  vs_storage :: 's
  vs_block_hashes :: 's

definition vsdb_new :: "('b, 'a, 'k, 's, 't) state_ops \<Rightarrow> ('a, 'k, 's) vsdb_state_db" where
  "vsdb_new ops =
     \<lparr>vs_accounts = kv_new (acc_kv ops), vs_contracts = kv_new (code_kv ops),
      vs_storage = kv_new (word_kv ops), vs_block_hashes = kv_new (word_kv ops)\<rparr>"

definition storage_key :: "address \<Rightarrow> u256 \<Rightarrow> bytes" where
  "storage_key addr slot = addr_slice addr @ be_bytes 32 slot"

definition insert_account ::
    "('b, 'a, 'k, 's, 't) state_ops \<Rightarrow> address \<Rightarrow> 'b account_info \<Rightarrow>
     ('a, 'k, 's) vsdb_state_db \<Rightarrow> ('a, 'k, 's) vsdb_state_db" where
  "insert_account ops addr info db =
     (let db = db\<lparr>vs_accounts := kv_insert (acc_kv ops) (addr_slice addr) (stored_from_info info)
                    (vs_accounts db)\<rparr>
      in case ai_code info of
           None \<Rightarrow> db
         | Some code \<Rightarrow>
             (let bytes = bytes_slice ops code
              in if bytes \<noteq> []
                 then db\<lparr>vs_contracts := kv_insert (code_kv ops) (be_bytes 32 (ai_code_hash info))
                           bytes (vs_contracts db)\<rparr>
                 else db))"

definition insert_storage ::
    "('b, 'a, 'k, 's, 't) state_ops \<Rightarrow> address \<Rightarrow> u256 \<Rightarrow> u256 \<Rightarrow>
     ('a, 'k, 's) vsdb_state_db \<Rightarrow> ('a, 'k, 's) vsdb_state_db" where
  "insert_storage ops addr slot v db =
     db\<lparr>vs_storage := kv_insert (word_kv ops) (storage_key addr slot) (be_bytes 32 v) (vs_storage db)\<rparr>"

definition insert_block_hash ::
    "('b, 'a, 'k, 's, 't) state_ops \<Rightarrow> u64 \<Rightarrow> b256 \<Rightarrow>
     ('a, 'k, 's) vsdb_state_db \<Rightarrow> ('a, 'k, 's) vsdb_state_db" where
  "insert_block_hash ops number hash db =
     db\<lparr>vs_block_hashes := kv_insert (word_kv ops) (be_bytes 8 number) (be_bytes 32 hash)
          (vs_block_hashes db)\<rparr>"

definition stored_at ::
    "('b, 'a, 'k, 's, 't) state_ops \<Rightarrow> ('a, 'k, 's) vsdb_state_db \<Rightarrow> address \<Rightarrow> stored_account option" where
  "stored_at ops db addr = kv_get (acc_kv ops) (vs_accounts db) (addr_slice addr)"

definition vsdb_get_account ::
    "('b, 'a, 'k, 's, 't) state_ops \<Rightarrow> ('a, 'k, 's) vsdb_state_db \<Rightarrow> address \<Rightarrow> 'b account_info option" where
  "vsdb_get_account ops db addr = map_option (stored_to_info ops) (stored_at ops db addr)"

definition vsdb_get_balance ::
    "('b, 'a, 'k, 's, 't) state_ops \<Rightarrow> ('a, 'k, 's) vsdb_state_db \<Rightarrow> address \<Rightarrow> u256" where
  "vsdb_get_balance ops db addr =
     (case stored_at ops db addr of None \<Rightarrow> 0 | Some s \<Rightarrow> from_be_bytes (balance_be s))"

definition vsdb_get_nonce ::
    "('b, 'a, 'k, 's, 't) state_ops \<Rightarrow> ('a, 'k, 's) vsdb_state_db \<Rightarrow> address \<Rightarrow> u64" where
  "vsdb_get_nonce ops db addr =
     (case stored_at ops db addr of None \<Rightarrow> 0 | Some s \<Rightarrow> sa_nonce s)"

definition vsdb_get_code ::
    "('b, 'a, 'k, 's, 't) state_ops \<Rightarrow> ('a, 'k, 's) vsdb_state_db \<Rightarrow> address \<Rightarrow> bytes" where
  "vsdb_get_code ops db addr =
     (case stored_at ops db addr of
        None \<Rightarrow> []
      | Some stored \<Rightarrow>
          (let code_hash = from_be_bytes (sa_code_hash stored)
           in if code_hash \<noteq> KECCAK_EMPTY ops
              then (case kv_get (code_kv ops) (vs_contracts db) (be_bytes 32 code_hash) of
                      Some bytes \<Rightarrow> bytes | None \<Rightarrow> [])
              else []))"

definition vsdb_get_storage ::
    "('b, 'a, 'k, 's, 't) state_ops \<Rightarrow> ('a, 'k, 's) vsdb_state_db \<Rightarrow> address \<Rightarrow> u256 \<Rightarrow> u256" where
  "vsdb_get_storage ops db addr slot =
     (case kv_get (word_kv ops) (vs_storage db) (storage_key addr slot) of
        Some bytes \<Rightarrow> from_be_bytes bytes | None \<Rightarrow> 0)"

definition blank_account :: "('b, 'a, 'k, 's, 't) state_ops \<Rightarrow> stored_account" where
  "blank_account ops =
     \<lparr>balance_be = replicate 32 0, sa_nonce = 0, sa_code_hash = be_bytes 32 (KECCAK_EMPTY ops)\<rparr>"

definition vsdb_set_balance ::
    "('b, 'a, 'k, 's, 't) state_ops \<Rightarrow> address \<Rightarrow> u256 \<Rightarrow>
     ('a, 'k, 's) vsdb_state_db \<Rightarrow> ('a, 'k, 's) vsdb_state_db" where
  "vsdb_set_balance ops addr balance db =
     (let stored = (case stored_at ops db addr of Some s \<Rightarrow> s | None \<Rightarrow> blank_account ops);
          stored = stored\<lparr>balance_be := be_bytes 32 balance\<rparr>
      in db\<lparr>vs_accounts := kv_insert (acc_kv ops) (addr_slice addr) stored (vs_accounts db)\<rparr>)"

definition vsdb_set_nonce ::
    "('b, 'a, 'k, 's, 't) state_ops \<Rightarrow> address \<Rightarrow> u64 \<Rightarrow>
     ('a, 'k, 's) vsdb_state_db \<Rightarrow> ('a, 'k, 's) vsdb_state_db" where
  "vsdb_set_nonce ops addr nonce db =
     (let stored = (case stored_at ops db addr of Some s \<Rightarrow> s | None \<Rightarrow> blank_account ops);
          stored = stored\<lparr>sa_nonce := nonce\<rparr>
      in db\<lparr>vs_accounts := kv_insert (acc_kv ops) (addr_slice addr) stored (vs_accounts db)\<rparr>)"

text \<open>
  The traits \<^verbatim>\<open>Database\<close> and \<^verbatim>\<open>DatabaseRef\<close>, which revm's executor reads the store through.
  \<^verbatim>\<open>VsdbError\<close> is never constructed by them. Its payload is the message.
\<close>

datatype vsdb_error = VsdbError string

definition show_vsdb_error :: "vsdb_error \<Rightarrow> string" where
  "show_vsdb_error e = (case e of VsdbError m \<Rightarrow> ''vsdb: '' @ m)"

definition db_basic ::
    "('b, 'a, 'k, 's, 't) state_ops \<Rightarrow> ('a, 'k, 's) vsdb_state_db \<Rightarrow> address \<Rightarrow>
     vsdb_error + 'b account_info option" where
  "db_basic ops db addr =
     Inr (map_option (\<lambda>s.
       let info = stored_to_info ops s
       in if ai_code_hash info \<noteq> KECCAK_EMPTY ops
          then (case kv_get (code_kv ops) (vs_contracts db) (be_bytes 32 (ai_code_hash info)) of
                  Some bytes \<Rightarrow> info\<lparr>ai_code := Some (bytecode_new_raw ops bytes)\<rparr>
                | None \<Rightarrow> info)
          else info) (stored_at ops db addr))"

definition db_code_by_hash ::
    "('b, 'a, 'k, 's, 't) state_ops \<Rightarrow> ('a, 'k, 's) vsdb_state_db \<Rightarrow> b256 \<Rightarrow> vsdb_error + 'b" where
  "db_code_by_hash ops db code_hash =
     (case kv_get (code_kv ops) (vs_contracts db) (be_bytes 32 code_hash) of
        Some bytes \<Rightarrow> Inr (bytecode_new_raw ops bytes)
      | None \<Rightarrow> Inr (default_bytecode ops))"

definition db_storage ::
    "('b, 'a, 'k, 's, 't) state_ops \<Rightarrow> ('a, 'k, 's) vsdb_state_db \<Rightarrow> address \<Rightarrow> u256 \<Rightarrow> vsdb_error + u256" where
  "db_storage ops db addr index =
     (case kv_get (word_kv ops) (vs_storage db) (storage_key addr index) of
        Some bytes \<Rightarrow> Inr (from_be_bytes bytes) | None \<Rightarrow> Inr 0)"

definition db_block_hash ::
    "('b, 'a, 'k, 's, 't) state_ops \<Rightarrow> ('a, 'k, 's) vsdb_state_db \<Rightarrow> u64 \<Rightarrow> vsdb_error + b256" where
  "db_block_hash ops db number =
     (case kv_get (word_kv ops) (vs_block_hashes db) (be_bytes 8 number) of
        Some h \<Rightarrow> Inr (from_be_bytes h) | None \<Rightarrow> Inr 0)"

definition basic_ref ::
    "('b, 'a, 'k, 's, 't) state_ops \<Rightarrow> ('a, 'k, 's) vsdb_state_db \<Rightarrow> address \<Rightarrow>
     vsdb_error + 'b account_info option" where
  "basic_ref ops db addr =
     (case stored_at ops db addr of
        None \<Rightarrow> Inr None
      | Some s \<Rightarrow>
          (let info = stored_to_info ops s;
               code = (if ai_code_hash info = KECCAK_EMPTY ops then None
                       else kv_get (code_kv ops) (vs_contracts db) (be_bytes 32 (ai_code_hash info)))
           in Inr (Some (case code of
                           None \<Rightarrow> info
                         | Some bytes \<Rightarrow> info\<lparr>ai_code := Some (bytecode_new_raw ops bytes)\<rparr>))))"

definition code_by_hash_ref ::
    "('b, 'a, 'k, 's, 't) state_ops \<Rightarrow> ('a, 'k, 's) vsdb_state_db \<Rightarrow> b256 \<Rightarrow> vsdb_error + 'b" where
  "code_by_hash_ref ops db code_hash =
     Inr (case kv_get (code_kv ops) (vs_contracts db) (be_bytes 32 code_hash) of
            Some bytes \<Rightarrow> bytecode_new_raw ops bytes | None \<Rightarrow> default_bytecode ops)"

definition storage_ref ::
    "('b, 'a, 'k, 's, 't) state_ops \<Rightarrow> ('a, 'k, 's) vsdb_state_db \<Rightarrow> address \<Rightarrow> u256 \<Rightarrow> vsdb_error + u256" where
  "storage_ref ops db addr index =
     Inr (case kv_get (word_kv ops) (vs_storage db) (storage_key addr index) of
            Some bytes \<Rightarrow> from_be_bytes bytes | None \<Rightarrow> 0)"

definition block_hash_ref ::
    "('b, 'a, 'k, 's, 't) state_ops \<Rightarrow> ('a, 'k, 's) vsdb_state_db \<Rightarrow> u64 \<Rightarrow> vsdb_error + b256" where
  "block_hash_ref ops db number =
     Inr (case kv_get (word_kv ops) (vs_block_hashes db) (be_bytes 8 number) of
            Some h \<Rightarrow> from_be_bytes h | None \<Rightarrow> 0)"

section \<open>The cached state\<close>

record 'b db_account =
  da_info :: "'b account_info"
  da_storage :: "u256 \<rightharpoonup> u256"

record ('b, 'a, 'k, 's) cache_db =
  cache_accounts :: "address \<rightharpoonup> 'b db_account"
  cache_inner :: "('a, 'k, 's) vsdb_state_db"

record ('b, 'a, 'k, 's, 't) evm_state =
  es_db :: "('b, 'a, 'k, 's) cache_db"
  es_trie :: 't
  es_config :: evm_chain_config
  es_block_hashes :: "(u64, b256) btree"

definition encode_account_leaf :: "'b account_info \<Rightarrow> bytes" where
  "encode_account_leaf info =
     be_bytes 8 (ai_nonce info) @ be_bytes 32 (ai_balance info) @ be_bytes 32 (ai_code_hash info)"

text \<open>One iteration of the loop of \<^verbatim>\<open>from_genesis\<close> over the allocation.\<close>

definition genesis_account ::
    "('b, 'a, 'k, 's, 't) state_ops \<Rightarrow> address \<times> genesis_alloc \<Rightarrow>
     ('a, 'k, 's) vsdb_state_db \<times> 't \<Rightarrow> ('a, 'k, 's) vsdb_state_db \<times> 't" where
  "genesis_account ops = (\<lambda>(addr, alloc) (db, trie).
     (let info = (default_info ops)\<lparr>ai_balance := ga_balance alloc, ai_nonce := ga_nonce alloc\<rparr>;
          info = (if ga_code alloc \<noteq> []
                  then info\<lparr>ai_code := Some (bytecode_new_raw ops (ga_code alloc))\<rparr> else info);
          db = insert_account ops addr info db;
          db = fold (\<lambda>(slot, v). insert_storage ops addr slot v) (ga_storage alloc) db
      in (db, mpt_insert ops (addr_slice addr) (encode_account_leaf info) trie)))"

definition from_genesis ::
    "('b, 'a, 'k, 's, 't) state_ops \<Rightarrow> evm_genesis \<Rightarrow> ('b, 'a, 'k, 's, 't) evm_state" where
  "from_genesis ops genesis =
     (case fold (genesis_account ops) (gen_alloc genesis) (vsdb_new ops, mpt_new ops) of
        (db, trie) \<Rightarrow>
          \<lparr>es_db = \<lparr>cache_accounts = Map.empty, cache_inner = db\<rparr>, es_trie = trie,
           es_config = default_evm_chain_config\<lparr>
             chain_id := gen_chain_id genesis, block_gas_limit := gen_gas_limit genesis,
             base_fee_per_gas := gen_base_fee_per_gas genesis\<rparr>,
           es_block_hashes = []\<rparr>)"

definition state_root ::
    "('b, 'a, 'k, 's, 't) state_ops \<Rightarrow> ('b, 'a, 'k, 's, 't) evm_state \<Rightarrow>
     bytes \<times> ('b, 'a, 'k, 's, 't) evm_state" where
  "state_root ops st =
     (case mpt_root_hash ops (es_trie st) of (h, trie) \<Rightarrow>
        let root = (case h of None \<Rightarrow> [] | Some r \<Rightarrow> r);
            len = min (length root) 32
        in (take len root @ replicate (32 - len) 0, st\<lparr>es_trie := trie\<rparr>))"

definition es_get_balance ::
    "('b, 'a, 'k, 's, 't) state_ops \<Rightarrow> ('b, 'a, 'k, 's, 't) evm_state \<Rightarrow> address \<Rightarrow> u256" where
  "es_get_balance ops st addr =
     (case cache_accounts (es_db st) addr of
        Some acc \<Rightarrow> ai_balance (da_info acc)
      | None \<Rightarrow> vsdb_get_balance ops (cache_inner (es_db st)) addr)"

definition es_get_nonce ::
    "('b, 'a, 'k, 's, 't) state_ops \<Rightarrow> ('b, 'a, 'k, 's, 't) evm_state \<Rightarrow> address \<Rightarrow> u64" where
  "es_get_nonce ops st addr =
     (case cache_accounts (es_db st) addr of
        Some acc \<Rightarrow> ai_nonce (da_info acc)
      | None \<Rightarrow> vsdb_get_nonce ops (cache_inner (es_db st)) addr)"

definition es_get_code ::
    "('b, 'a, 'k, 's, 't) state_ops \<Rightarrow> ('b, 'a, 'k, 's, 't) evm_state \<Rightarrow> address \<Rightarrow> bytes" where
  "es_get_code ops st addr =
     (case Option.bind (cache_accounts (es_db st) addr) (\<lambda>acc. ai_code (da_info acc)) of
        Some code \<Rightarrow> bytes_slice ops code
      | None \<Rightarrow> vsdb_get_code ops (cache_inner (es_db st)) addr)"

definition es_get_storage ::
    "('b, 'a, 'k, 's, 't) state_ops \<Rightarrow> ('b, 'a, 'k, 's, 't) evm_state \<Rightarrow> address \<Rightarrow> u256 \<Rightarrow> u256" where
  "es_get_storage ops st addr slot =
     (case Option.bind (cache_accounts (es_db st) addr) (\<lambda>acc. da_storage acc slot) of
        Some v \<Rightarrow> v
      | None \<Rightarrow> vsdb_get_storage ops (cache_inner (es_db st)) addr slot)"

text \<open>\<^verbatim>\<open>cache.accounts.entry(addr).or_default()\<close>.\<close>

definition cache_entry ::
    "('b, 'a, 'k, 's, 't) state_ops \<Rightarrow> ('b, 'a, 'k, 's, 't) evm_state \<Rightarrow> address \<Rightarrow> 'b db_account" where
  "cache_entry ops st addr =
     (case cache_accounts (es_db st) addr of
        Some acc \<Rightarrow> acc | None \<Rightarrow> \<lparr>da_info = default_info ops, da_storage = Map.empty\<rparr>)"

definition es_set_nonce ::
    "('b, 'a, 'k, 's, 't) state_ops \<Rightarrow> address \<Rightarrow> u64 \<Rightarrow> ('b, 'a, 'k, 's, 't) evm_state \<Rightarrow>
     ('b, 'a, 'k, 's, 't) evm_state" where
  "es_set_nonce ops addr nonce st =
     (let entry = cache_entry ops st addr;
          entry = entry\<lparr>da_info := (da_info entry)\<lparr>ai_nonce := nonce\<rparr>\<rparr>
      in st\<lparr>es_db := \<lparr>cache_accounts = hm_insert addr entry (cache_accounts (es_db st)),
                     cache_inner = vsdb_set_nonce ops addr nonce (cache_inner (es_db st))\<rparr>,
            es_trie := mpt_insert ops (addr_slice addr) (encode_account_leaf (da_info entry)) (es_trie st)\<rparr>)"

definition es_set_balance ::
    "('b, 'a, 'k, 's, 't) state_ops \<Rightarrow> address \<Rightarrow> u256 \<Rightarrow> ('b, 'a, 'k, 's, 't) evm_state \<Rightarrow>
     ('b, 'a, 'k, 's, 't) evm_state" where
  "es_set_balance ops addr balance st =
     (let entry = cache_entry ops st addr;
          entry = entry\<lparr>da_info := (da_info entry)\<lparr>ai_balance := balance\<rparr>\<rparr>
      in st\<lparr>es_db := \<lparr>cache_accounts = hm_insert addr entry (cache_accounts (es_db st)),
                     cache_inner = vsdb_set_balance ops addr balance (cache_inner (es_db st))\<rparr>,
            es_trie := mpt_insert ops (addr_slice addr) (encode_account_leaf (da_info entry)) (es_trie st)\<rparr>)"

definition record_block_hash ::
    "('b, 'a, 'k, 's, 't) state_ops \<Rightarrow> u64 \<Rightarrow> b256 \<Rightarrow> ('b, 'a, 'k, 's, 't) evm_state \<Rightarrow>
     ('b, 'a, 'k, 's, 't) evm_state" where
  "record_block_hash ops number hash st =
     (let hashes = bt_insert number hash (es_block_hashes st);
          db = insert_block_hash ops number hash (cache_inner (es_db st))
      in st\<lparr>es_block_hashes := (if 256 < length hashes then bt_remove (fst (hd hashes)) hashes else hashes),
            es_db := (es_db st)\<lparr>cache_inner := db\<rparr>\<rparr>)"

text \<open>
  One account of the flush, and the loop over the cache; \<open>ord a\<close> is the order in which the cached
  storage of \<open>a\<close> is iterated, \<open>ks\<close> that of the cached accounts.
\<close>

definition flush_account ::
    "('b, 'a, 'k, 's, 't) state_ops \<Rightarrow> (address \<rightharpoonup> 'b db_account) \<Rightarrow> (address \<Rightarrow> u256 list) \<Rightarrow> address \<Rightarrow>
     ('a, 'k, 's) vsdb_state_db \<times> 't \<Rightarrow> ('a, 'k, 's) vsdb_state_db \<times> 't" where
  "flush_account ops cache ord addr = (\<lambda>(db, trie).
     case cache addr of
       None \<Rightarrow> (db, trie)
     | Some acc \<Rightarrow>
         (let db = insert_account ops addr (da_info acc) db;
              db = fold (\<lambda>slot db. case da_storage acc slot of
                                     None \<Rightarrow> db | Some v \<Rightarrow> insert_storage ops addr slot v db)
                     (ord addr) db
          in (db, mpt_insert ops (addr_slice addr) (encode_account_leaf (da_info acc)) trie)))"

definition flush_cache_to_vsdb ::
    "('b, 'a, 'k, 's, 't) state_ops \<Rightarrow> address list \<Rightarrow> (address \<Rightarrow> u256 list) \<Rightarrow>
     ('b, 'a, 'k, 's, 't) evm_state \<Rightarrow> ('b, 'a, 'k, 's, 't) evm_state" where
  "flush_cache_to_vsdb ops ks ord st =
     (case fold (flush_account ops (cache_accounts (es_db st)) ord) ks
             (cache_inner (es_db st), es_trie st) of
        (db, trie) \<Rightarrow> st\<lparr>es_db := (es_db st)\<lparr>cache_inner := db\<rparr>, es_trie := trie\<rparr>)"

end
