(* ===== verification/Executor.thy ===== *)
theory Executor
  imports Tx_Pool Precompile World_State
begin

text \<open>
  The crate \<^verbatim>\<open>nbnet-execution\<close>: the block executor behind the consensus engine's \<^verbatim>\<open>Application\<close> trait,
  with the transaction pool, the state, the receipts, the height and the staking ledger it owns.

  revm's transaction execution is a parameter (\<open>evm_fns\<close>): it takes the cached database and the
  staking ledger (which the precompiles of the running transaction reach through a shared pointer)
  and returns them as it leaves them. Mutexes are not part of this model, every method is one state
  transformer; the order in which two of them are taken is the subject of \<open>Lock_Order\<close>. The
  consensus engine's context and response types are records of the fields that are used.
\<close>

section \<open>Interfaces\<close>

datatype tx_kind = TxCall address | TxCreate

record tx_env =
  te_tx_type :: u8
  te_caller :: address
  te_gas_limit :: u64
  te_gas_price :: u128
  te_gas_priority_fee :: "u128 option"
  te_kind :: tx_kind
  te_value :: u256
  te_data :: bytes
  te_nonce :: u64
  te_chain_id :: "u64 option"

record block_env =
  be_chain_id :: u64
  be_number :: u256
  be_beneficiary :: address
  be_timestamp :: u256
  be_gas_limit :: u64
  be_basefee :: u64

record evm_raw_log =
  rl_address :: address
  rl_topics :: "b256 list"
  rl_data :: bytes

text \<open>revm's \<^verbatim>\<open>ExecutionResult\<close>: gas used, logs, output or (printed) reason.\<close>

datatype execution_result =
    ExecSuccess u64 "evm_raw_log list" bytes
  | ExecRevert u64 "evm_raw_log list" bytes
  | ExecHalt u64 string

fun exec_gas_used :: "execution_result \<Rightarrow> u64" where
  "exec_gas_used (ExecSuccess g _ _) = g"
| "exec_gas_used (ExecRevert g _ _) = g"
| "exec_gas_used (ExecHalt g _) = g"

type_synonym ('b, 'a, 'k, 's) evm_run =
  "('b, 'a, 'k, 's) cache_db \<Rightarrow> staking_state \<Rightarrow> block_env \<Rightarrow> tx_env \<Rightarrow>
   (string + execution_result) \<times> ('b, 'a, 'k, 's) cache_db \<times> staking_state"

text \<open>
  \<open>default_tx_env\<close> and \<open>default_block_env\<close> are revm's defaults; \<open>hex_string\<close> is the hex crate's
  encoder and \<open>create_address\<close> is alloy's \<^verbatim>\<open>Address::create\<close>.
\<close>

record ('b, 'a, 'k, 's) evm_fns =
  transact_commit :: "('b, 'a, 'k, 's) evm_run"
  transact_one :: "('b, 'a, 'k, 's) evm_run"
  create_address :: "address \<Rightarrow> u64 \<Rightarrow> address"
  hex_string :: "bytes \<Rightarrow> string"
  default_tx_env :: tx_env
  default_block_env :: block_env

record block_context =
  ctx_height :: u64
  ctx_proposer :: u64
  ctx_timestamp :: u64

datatype tx_validation_result = TvReject | TvAccept u64 u64

record query_response =
  qr_data :: bytes
  qr_height :: u64

section \<open>State\<close>

record ('b, 'a, 'k, 's, 't) evm_executor =
  ex_state :: "('b, 'a, 'k, 's, 't) evm_state"
  ex_txpool :: "('b, 'a, 'k, 's, 't) evm_state evm_tx_pool"
  ex_receipts :: "evm_receipt list list"
  ex_block_height :: u64
  ex_staking :: staking_state

definition executor_from_genesis ::
    "('b, 'a, 'k, 's, 't) state_ops \<Rightarrow> evm_genesis \<Rightarrow> ('b, 'a, 'k, 's, 't) evm_executor" where
  "executor_from_genesis ops genesis =
     (let state = from_genesis ops genesis
      in \<lparr>ex_state = state,
          ex_txpool = new_tx_pool (default_tx_pool_config\<lparr>pool_base_fee := base_fee_per_gas (es_config state)\<rparr>),
          ex_receipts = [], ex_block_height = 0, ex_staking = staking_new\<rparr>)"

definition ex_config :: "('b, 'a, 'k, 's, 't) evm_executor \<Rightarrow> evm_chain_config" where
  "ex_config ex = es_config (ex_state ex)"

definition get_receipts :: "('b, 'a, 'k, 's, 't) evm_executor \<Rightarrow> nat \<Rightarrow> evm_receipt list option" where
  "get_receipts ex block_index =
     (if block_index < length (ex_receipts ex) then Some (ex_receipts ex ! block_index) else None)"

definition submit_raw_tx ::
    "tx_codec \<Rightarrow> ('b, 'a, 'k, 's, 't) evm_executor \<Rightarrow> bytes \<Rightarrow>
     (pool_error + b256) \<times> ('b, 'a, 'k, 's, 't) evm_executor" where
  "submit_raw_tx C ex raw =
     (case submit_tx C (ex_state ex) (ex_txpool ex) raw of (r, pool) \<Rightarrow> (r, ex\<lparr>ex_txpool := pool\<rparr>))"

text \<open>The two nested loops of \<^verbatim>\<open>get_receipt_by_tx_hash\<close>: blocks from the newest, receipts in order.\<close>

fun find_receipt :: "b256 \<Rightarrow> evm_receipt list \<Rightarrow> evm_receipt option" where
  "find_receipt h [] = None"
| "find_receipt h (r # rs) = (if rc_tx_hash r = h then Some r else find_receipt h rs)"

fun find_in_blocks :: "b256 \<Rightarrow> evm_receipt list list \<Rightarrow> evm_receipt option" where
  "find_in_blocks h [] = None"
| "find_in_blocks h (b # bs) = (case find_receipt h b of Some r \<Rightarrow> Some r | None \<Rightarrow> find_in_blocks h bs)"

definition get_receipt_by_tx_hash ::
    "('b, 'a, 'k, 's, 't) evm_executor \<Rightarrow> b256 \<Rightarrow> evm_receipt option" where
  "get_receipt_by_tx_hash ex tx_hash = find_in_blocks tx_hash (rev (ex_receipts ex))"

definition setup_nonce_fn ::
    "('b, 'a, 'k, 's, 't) state_ops \<Rightarrow> ('b, 'a, 'k, 's, 't) evm_executor \<Rightarrow>
     ('b, 'a, 'k, 's, 't) evm_executor" where
  "setup_nonce_fn ops ex = ex\<lparr>ex_txpool := set_nonce_fn (es_get_nonce ops) (ex_txpool ex)\<rparr>"

section \<open>Dry runs\<close>

definition kind_of :: "address option \<Rightarrow> tx_kind" where
  "kind_of to = (case to of Some a \<Rightarrow> TxCall a | None \<Rightarrow> TxCreate)"

definition eth_call ::
    "('b, 'a, 'k, 's) evm_fns \<Rightarrow> ('b, 'a, 'k, 's, 't) evm_executor \<Rightarrow> address \<Rightarrow> address option \<Rightarrow> bytes \<Rightarrow>
     u256 \<Rightarrow> u64 option \<Rightarrow> (string + bytes) \<times> ('b, 'a, 'k, 's, 't) evm_executor" where
  "eth_call F ex from to data v gas =
     (let config = ex_config ex;
          gas_limit = (case gas of Some g \<Rightarrow> g | None \<Rightarrow> block_gas_limit config);
          tx = (default_tx_env F)\<lparr>te_caller := from, te_gas_limit := gas_limit,
                 te_gas_price := ucast (base_fee_per_gas config), te_kind := kind_of to,
                 te_value := v, te_data := data\<rparr>;
          blk = (default_block_env F)\<lparr>be_chain_id := chain_id config,
                  be_number := ucast (ex_block_height ex), be_gas_limit := block_gas_limit config,
                  be_basefee := base_fee_per_gas config\<rparr>
      in case transact_one F (es_db (ex_state ex)) (ex_staking ex) blk tx of (r, db, staking) \<Rightarrow>
           (case r of
              Inr (ExecSuccess _ _ output) \<Rightarrow> Inr output
            | Inr (ExecRevert _ _ output) \<Rightarrow> Inl (''execution reverted: 0x'' @ hex_string F output)
            | Inr (ExecHalt _ reason) \<Rightarrow> Inl (''execution halted: '' @ reason)
            | Inl e \<Rightarrow> Inl (''EVM error: '' @ e),
            ex\<lparr>ex_state := (ex_state ex)\<lparr>es_db := db\<rparr>, ex_staking := staking\<rparr>))"

section \<open>The application trait\<close>

definition app_validate_tx ::
    "('b, 'a, 'k, 's, 't) state_ops \<Rightarrow> tx_codec \<Rightarrow> ('b, 'a, 'k, 's, 't) evm_executor \<Rightarrow> bytes \<Rightarrow>
     tx_validation_result" where
  "app_validate_tx ops C ex raw =
     (case decode_and_recover C raw of
        Inl e \<Rightarrow> TvReject
      | Inr verified \<Rightarrow>
          (let state = ex_state ex; config = es_config state in
           case validate_tx verified (chain_id config) (es_get_nonce ops state (vt_sender verified))
                  (es_get_balance ops state (vt_sender verified)) (block_gas_limit config)
                  (base_fee_per_gas config) of
             Inl e \<Rightarrow> TvReject
           | Inr _ \<Rightarrow> TvAccept (effective_gas_tip (vt_envelope verified) (base_fee_per_gas config))
                        (env_gas_limit (vt_envelope verified))))"

definition create_payload ::
    "address list \<Rightarrow> ('b, 'a, 'k, 's, 't) evm_executor \<Rightarrow> bytes \<times> ('b, 'a, 'k, 's, 't) evm_executor" where
  "create_payload ks ex =
     (case collect_payload ks (ex_txpool ex) (4 * 1024 * 1024) (block_gas_limit (ex_config ex)) of
        (payload, pool) \<Rightarrow> (payload, ex\<lparr>ex_txpool := pool\<rparr>))"

definition app_on_commit ::
    "('b, 'a, 'k, 's, 't) state_ops \<Rightarrow> address list \<Rightarrow> block_context \<Rightarrow>
     ('b, 'a, 'k, 's, 't) evm_executor \<Rightarrow> ('b, 'a, 'k, 's, 't) evm_executor" where
  "app_on_commit ops ks ctx ex =
     ex\<lparr>ex_block_height := ctx_height ctx,
        ex_txpool := on_commit_pool ks (es_get_nonce ops (ex_state ex)) (ex_txpool ex)\<rparr>"

definition app_query ::
    "('b, 'a, 'k, 's, 't) state_ops \<Rightarrow> ('b, 'a, 'k, 's, 't) evm_executor \<Rightarrow> string \<Rightarrow> bytes \<Rightarrow> query_response" where
  "app_query ops ex path data =
     (let state = ex_state ex;
          result =
            (if path = ''eth_getBalance'' \<and> length data = 20
             then be_bytes 32 (es_get_balance ops state (from_be_bytes data))
             else if path = ''eth_getTransactionCount'' \<and> length data = 20
             then be_bytes 8 (es_get_nonce ops state (from_be_bytes data))
             else if path = ''eth_getCode'' \<and> length data = 20
             then es_get_code ops state (from_be_bytes data)
             else if path = ''eth_getStorageAt'' \<and> length data = 52
             then be_bytes 32 (es_get_storage ops state (from_be_bytes (take 20 data))
                                 (from_be_bytes (take 32 (drop 20 data))))
             else if path = ''eth_blockNumber'' then be_bytes 8 (ex_block_height ex)
             else [])
      in \<lparr>qr_data = result, qr_height = ex_block_height ex\<rparr>)"

section \<open>Block execution\<close>

text \<open>The effective gas price of a receipt, in 128-bit arithmetic.\<close>

definition effective_gas_price :: "u64 \<Rightarrow> tx_envelope \<Rightarrow> u256" where
  "effective_gas_price base_fee env =
     (let base = ucast base_fee :: u128;
          max_fee = env_max_fee_per_gas env;
          max_priority = (case env_max_priority_fee_per_gas env of None \<Rightarrow> 0 | Some p \<Rightarrow> p);
          tip = min (saturating_sub max_fee base) max_priority
      in u256_from (saturating_add base tip))"

definition tx_env_of :: "('b, 'a, 'k, 's) evm_fns \<Rightarrow> verified_tx \<Rightarrow> tx_env" where
  "tx_env_of F vtx =
     (let env = vt_envelope vtx
      in (default_tx_env F)\<lparr>te_tx_type := env_tx_type env, te_caller := vt_sender vtx,
           te_gas_limit := env_gas_limit env, te_gas_price := env_max_fee_per_gas env,
           te_gas_priority_fee := env_max_priority_fee_per_gas env, te_kind := kind_of (env_to env),
           te_value := env_value env, te_data := env_input env, te_nonce := env_nonce env,
           te_chain_id := env_chain_id env\<rparr>)"

definition coinbase_of :: "u64 \<Rightarrow> address" where
  "coinbase_of proposer = from_be_bytes (replicate 12 0 @ be_bytes 8 proposer)"

definition block_env_of ::
    "('b, 'a, 'k, 's) evm_fns \<Rightarrow> evm_chain_config \<Rightarrow> block_context \<Rightarrow> block_env" where
  "block_env_of F config ctx =
     (default_block_env F)\<lparr>be_chain_id := chain_id config, be_number := ucast (ctx_height ctx),
        be_beneficiary := coinbase_of (ctx_proposer ctx), be_timestamp := ucast (ctx_timestamp ctx),
        be_gas_limit := block_gas_limit config, be_basefee := base_fee_per_gas config\<rparr>"

definition to_evm_log :: "evm_raw_log \<Rightarrow> evm_log" where
  "to_evm_log l = \<lparr>log_address = rl_address l, log_topics = rl_topics l, log_data = rl_data l\<rparr>"

definition receipt_of ::
    "('b, 'a, 'k, 's) evm_fns \<Rightarrow> evm_chain_config \<Rightarrow> block_context \<Rightarrow> nat \<Rightarrow> verified_tx \<Rightarrow> u64 \<Rightarrow>
     execution_result \<Rightarrow> evm_receipt" where
  "receipt_of F config ctx tx_idx vtx cumulative result =
     (let (success, logs) =
            (case result of
               ExecSuccess _ logs _ \<Rightarrow> (True, logs)
             | ExecRevert _ logs _ \<Rightarrow> (False, logs)
             | ExecHalt _ _ \<Rightarrow> (False, []));
          env = vt_envelope vtx
      in \<lparr>rc_tx_hash = vt_tx_hash vtx, rc_tx_index = of_nat tx_idx, rc_block_hash = 0,
          rc_block_number = ctx_height ctx, rc_from = vt_sender vtx, rc_to = env_to env,
          rc_cumulative_gas_used = cumulative, rc_gas_used = exec_gas_used result,
          rc_contract_address =
            (if env_to env = None then Some (create_address F (vt_sender vtx) (env_nonce env)) else None),
          rc_logs = map to_evm_log logs, rc_logs_bloom = replicate 256 0,
          rc_status = (if success then 1 else 0),
          rc_effective_gas_price = effective_gas_price (base_fee_per_gas config) env\<rparr>)"

text \<open>
  The loop over the decoded transactions: a nonce mismatch skips the transaction, exceeding the block
  gas limit ends the loop, an EVM error records nothing. The accumulator is the state, the staking
  ledger, \<^verbatim>\<open>cumulative_gas_used\<close> and \<^verbatim>\<open>block_receipts\<close>.
\<close>

type_synonym ('b, 'a, 'k, 's, 't) exec_acc =
  "('b, 'a, 'k, 's, 't) evm_state \<times> staking_state \<times> u64 \<times> evm_receipt list"

fun exec_loop ::
    "('b, 'a, 'k, 's, 't) state_ops \<Rightarrow> ('b, 'a, 'k, 's) evm_fns \<Rightarrow> evm_chain_config \<Rightarrow> block_context \<Rightarrow>
     nat \<Rightarrow> verified_tx list \<Rightarrow> ('b, 'a, 'k, 's, 't) exec_acc \<Rightarrow> ('b, 'a, 'k, 's, 't) exec_acc" where
  "exec_loop ops F config ctx tx_idx [] acc = acc"
| "exec_loop ops F config ctx tx_idx (vtx # vtxs) (state, staking, cumulative, receipts) =
     (if env_nonce (vt_envelope vtx) \<noteq> es_get_nonce ops state (vt_sender vtx)
      then exec_loop ops F config ctx (Suc tx_idx) vtxs (state, staking, cumulative, receipts)
      else if saturating_add cumulative (env_gas_limit (vt_envelope vtx)) > block_gas_limit config
      then (state, staking, cumulative, receipts)
      else (case transact_commit F (es_db state) staking (block_env_of F config ctx) (tx_env_of F vtx) of
              (r, db, staking') \<Rightarrow>
                let state' = state\<lparr>es_db := db\<rparr> in
                (case r of
                   Inl e \<Rightarrow> exec_loop ops F config ctx (Suc tx_idx) vtxs (state', staking', cumulative, receipts)
                 | Inr result \<Rightarrow>
                     (let cumulative' = saturating_add cumulative (exec_gas_used result)
                      in exec_loop ops F config ctx (Suc tx_idx) vtxs
                           (state', staking', cumulative',
                            receipts @ [receipt_of F config ctx tx_idx vtx cumulative' result])))))"

fun decode_all :: "tx_codec \<Rightarrow> bytes list \<Rightarrow> verified_tx list" where
  "decode_all C [] = []"
| "decode_all C (raw # raws) =
     (case decode_and_recover C raw of Inr v \<Rightarrow> v # decode_all C raws | Inl _ \<Rightarrow> decode_all C raws)"

text \<open>
  \<^verbatim>\<open>execute_block\<close>; \<open>ks\<close> and \<open>ord\<close> are the orders in which the flush iterates over the cache that the
  block leaves. The result is the application hash.
\<close>

definition execute_block ::
    "('b, 'a, 'k, 's, 't) state_ops \<Rightarrow> ('b, 'a, 'k, 's) evm_fns \<Rightarrow> tx_codec \<Rightarrow> address list \<Rightarrow>
     (address \<Rightarrow> u256 list) \<Rightarrow> bytes list \<Rightarrow> block_context \<Rightarrow> ('b, 'a, 'k, 's, 't) evm_executor \<Rightarrow>
     bytes \<times> ('b, 'a, 'k, 's, 't) evm_executor" where
  "execute_block ops F C ks ord txs ctx ex =
     (let state = ex_state ex;
          config = es_config state;
          state = (if ctx_height ctx > 0
                   then record_block_hash ops (saturating_sub (ctx_height ctx) 1) 0 state else state);
          (state, staking, _, receipts) =
            exec_loop ops F config ctx 0 (decode_all C txs) (state, ex_staking ex, 0, []);
          (root, state) = state_root ops (flush_cache_to_vsdb ops ks ord state)
      in (root, ex\<lparr>ex_state := state, ex_staking := staking,
                   ex_receipts := ex_receipts ex @ [receipts]\<rparr>))"

section \<open>The mempool adapter\<close>

definition adapter_add_tx ::
    "tx_codec \<Rightarrow> 'st \<Rightarrow> 'st evm_tx_pool \<Rightarrow> bytes \<Rightarrow> u64 \<Rightarrow> u64 \<Rightarrow> bool \<times> 'st evm_tx_pool" where
  "adapter_add_tx C st pool raw priority gas_wanted =
     (case submit_tx C st pool raw of (r, pool') \<Rightarrow> (case r of Inr _ \<Rightarrow> True | Inl _ \<Rightarrow> False, pool'))"

definition adapter_size :: "address list \<Rightarrow> address list \<Rightarrow> 'st evm_tx_pool \<Rightarrow> nat" where
  "adapter_size ks ks' pool = pending_count ks pool + queued_count ks' pool"

definition adapter_recheck :: "(bytes \<Rightarrow> (u64 \<times> u64) option) \<Rightarrow> 'st evm_tx_pool \<Rightarrow> 'st evm_tx_pool" where
  "adapter_recheck validator pool = pool"

end
