(* ===== verification/Json.thy ===== *)
theory Json
  imports Rust_Format
begin

text \<open>
  JSON values as \<^verbatim>\<open>serde_json::Value\<close> presents them: the enum with its public constructors, and the
  accessors that the RPC server uses, which the crate documents as plain case distinctions. The
  representation of numbers is left open (\<open>'n\<close>); the member list of an object stands for its map.

  The last section holds the \<^verbatim>\<open>Result\<close> plumbing that the parsers share: the question mark operator and
  \<^verbatim>\<open>opt.map(f).transpose()\<close>.
\<close>

section \<open>Values\<close>

datatype 'n json =
    JNull
  | JBool bool
  | JNumber 'n
  | JString string
  | JArray "'n json list"
  | JObject "(string \<times> 'n json) list"

fun as_str :: "'n json \<Rightarrow> string option" where
  "as_str (JString s) = Some s"
| "as_str _ = None"

fun as_array :: "'n json \<Rightarrow> 'n json list option" where
  "as_array (JArray vs) = Some vs"
| "as_array _ = None"

text \<open>\<^verbatim>\<open>v["key"]\<close>: a missing key, and a value that is no object, give null.\<close>

fun json_index :: "'n json \<Rightarrow> string \<Rightarrow> 'n json" where
  "json_index (JObject ms) k = (case map_of ms k of Some v \<Rightarrow> v | None \<Rightarrow> JNull)"
| "json_index _ k = JNull"

text \<open>\<^verbatim>\<open>slice.first()\<close>.\<close>

fun list_first :: "'a list \<Rightarrow> 'a option" where
  "list_first [] = None"
| "list_first (x # xs) = Some x"

text \<open>An optional string as a member of an object: null when it is absent.\<close>

definition opt_string :: "string option \<Rightarrow> 'n json" where
  "opt_string v = (case v of None \<Rightarrow> JNull | Some s \<Rightarrow> JString s)"

section \<open>Results\<close>

definition try_bind :: "'e + 'a \<Rightarrow> ('a \<Rightarrow> 'e + 'b) \<Rightarrow> 'e + 'b" where
  "try_bind r f = (case r of Inl e \<Rightarrow> Inl e | Inr v \<Rightarrow> f v)"

definition ok_or :: "'a option \<Rightarrow> 'e \<Rightarrow> 'e + 'a" where
  "ok_or v e = (case v of None \<Rightarrow> Inl e | Some x \<Rightarrow> Inr x)"

definition map_err :: "('e \<Rightarrow> 'f) \<Rightarrow> 'e + 'a \<Rightarrow> 'f + 'a" where
  "map_err f r = (case r of Inl e \<Rightarrow> Inl (f e) | Inr v \<Rightarrow> Inr v)"

definition result_ok :: "'e + 'a \<Rightarrow> 'a option" where
  "result_ok r = (case r of Inl _ \<Rightarrow> None | Inr v \<Rightarrow> Some v)"

definition map_transpose :: "('a \<Rightarrow> 'e + 'b) \<Rightarrow> 'a option \<Rightarrow> 'e + 'b option" where
  "map_transpose f v = (case v of None \<Rightarrow> Inr None | Some x \<Rightarrow> map_sum id Some (f x))"

lemma try_bind_simps [simp]: "try_bind (Inl e) f = Inl e" "try_bind (Inr v) f = f v"
  by (simp_all add: try_bind_def)

lemma ok_or_simps [simp]: "ok_or None e = Inl e" "ok_or (Some x) e = Inr x"
  by (simp_all add: ok_or_def)

lemma map_err_simps [simp]: "map_err f (Inl e) = Inl (f e)" "map_err f (Inr v) = Inr v"
  by (simp_all add: map_err_def)

lemma result_ok_simps [simp]: "result_ok (Inl e) = None" "result_ok (Inr v) = Some v"
  by (simp_all add: result_ok_def)

lemma map_transpose_simps [simp]:
  "map_transpose f None = Inr None" "map_transpose f (Some x) = map_sum id Some (f x)"
  by (simp_all add: map_transpose_def)

lemma try_bind_eq_Inr: "try_bind r f = Inr y \<longleftrightarrow> (\<exists>v. r = Inr v \<and> f v = Inr y)"
  by (cases r) auto

lemma try_bind_eq_Inl:
  "try_bind r f = Inl e \<longleftrightarrow> r = Inl e \<or> (\<exists>v. r = Inr v \<and> f v = Inl e)"
  by (cases r) auto

end
