(* ===== verification/Rpc.thy ===== *)
theory Rpc
  imports Executor Json
begin

text \<open>
  The crate \<^verbatim>\<open>nbnet-rpc\<close>: the JSON-RPC dispatcher with its parsers and printers. A request is
  handled by one call of \<open>dispatch\<close>, which returns the response and the server state after it.

  The server shares the executor; the network sink, when there is one, is represented by the list of
  transactions handed to \<^verbatim>\<open>broadcast_tx\<close>. The hex crate and the text conversions of ruint's 256-bit
  integers are parameters (\<open>rpc_fns\<close>, and \<open>hex_string\<close> of the executor's parameters); errors of
  theirs appear as the text they display. How a request is read from the body of an HTTP request is in
  \<open>Rpc_Json\<close>; HTTP itself is not modelled.
\<close>

section \<open>State, requests and responses\<close>

record ('b, 'a, 'k, 's, 't) evm_rpc_state =
  rpc_executor :: "('b, 'a, 'k, 's, 't) evm_executor"
  rpc_chain_id :: u64
  rpc_network_sink :: "bytes list option"

record 'n json_rpc_request =
  req_jsonrpc :: "string option"
  req_method :: string
  req_params :: "'n json"
  req_id :: "'n json"

record json_rpc_error =
  err_code :: int
  err_message :: string

record 'n json_rpc_response =
  resp_jsonrpc :: string
  resp_result :: "'n json option"
  resp_error :: "json_rpc_error option"
  resp_id :: "'n json"

definition response_ok :: "'n json \<Rightarrow> 'n json \<Rightarrow> 'n json_rpc_response" where
  "response_ok rid v = \<lparr>resp_jsonrpc = ''2.0'', resp_result = Some v, resp_error = None, resp_id = rid\<rparr>"

definition response_err :: "'n json \<Rightarrow> int \<Rightarrow> string \<Rightarrow> 'n json_rpc_response" where
  "response_err rid code msg =
     \<lparr>resp_jsonrpc = ''2.0'', resp_result = None,
      resp_error = Some \<lparr>err_code = code, err_message = msg\<rparr>, resp_id = rid\<rparr>"

text \<open>The response as the derived serialisation writes it: an absent result or error is left out.\<close>

definition response_json :: "(int \<Rightarrow> 'n) \<Rightarrow> 'n json_rpc_response \<Rightarrow> 'n json" where
  "response_json number r = JObject
     ([(''jsonrpc'', JString (resp_jsonrpc r))] @
      (case resp_result r of None \<Rightarrow> [] | Some v \<Rightarrow> [(''result'', v)]) @
      (case resp_error r of None \<Rightarrow> []
         | Some e \<Rightarrow> [(''error'', JObject [(''code'', JNumber (number (err_code e))),
                                       (''message'', JString (err_message e))])]) @
      [(''id'', resp_id r)])"

text \<open>
  \<open>hex_decode_str\<close> is \<^verbatim>\<open>hex::decode\<close>, \<open>u256_from_str_radix16\<close> and \<open>u256_lower_hex\<close> are ruint's
  \<^verbatim>\<open>from_str_radix(_, 16)\<close> and \<^verbatim>\<open>{:x}\<close>, \<open>json_zero\<close> is the JSON number \<^verbatim>\<open>0.0\<close>.
\<close>

record 'n rpc_fns =
  hex_decode_str :: "string \<Rightarrow> string + bytes"
  u256_from_str_radix16 :: "string \<Rightarrow> string + u256"
  u256_lower_hex :: "u256 \<Rightarrow> string"
  json_zero :: 'n

section \<open>Queries to the executor\<close>

definition query_balance ::
    "('b, 'a, 'k, 's, 't) state_ops \<Rightarrow> ('b, 'a, 'k, 's, 't) evm_executor \<Rightarrow> address \<Rightarrow> u256" where
  "query_balance ops ex addr =
     (let d = qr_data (app_query ops ex ''eth_getBalance'' (addr_slice addr))
      in if length d = 32 then from_be_bytes d else 0)"

definition query_nonce ::
    "('b, 'a, 'k, 's, 't) state_ops \<Rightarrow> ('b, 'a, 'k, 's, 't) evm_executor \<Rightarrow> address \<Rightarrow> u64" where
  "query_nonce ops ex addr =
     (let d = qr_data (app_query ops ex ''eth_getTransactionCount'' (addr_slice addr))
      in if length d = 8 then from_be_bytes d else 0)"

definition query_block_number ::
    "('b, 'a, 'k, 's, 't) state_ops \<Rightarrow> ('b, 'a, 'k, 's, 't) evm_executor \<Rightarrow> u64" where
  "query_block_number ops ex =
     (let d = qr_data (app_query ops ex ''eth_blockNumber'' [])
      in if length d = 8 then from_be_bytes d else 0)"

definition query_code ::
    "('b, 'a, 'k, 's, 't) state_ops \<Rightarrow> ('b, 'a, 'k, 's, 't) evm_executor \<Rightarrow> address \<Rightarrow> bytes" where
  "query_code ops ex addr = qr_data (app_query ops ex ''eth_getCode'' (addr_slice addr))"

definition query_storage ::
    "('b, 'a, 'k, 's, 't) state_ops \<Rightarrow> ('b, 'a, 'k, 's, 't) evm_executor \<Rightarrow> address \<Rightarrow> u256 \<Rightarrow> u256" where
  "query_storage ops ex addr slot =
     (let d = qr_data (app_query ops ex ''eth_getStorageAt'' (addr_slice addr @ be_bytes 32 slot))
      in if length d = 32 then from_be_bytes d else 0)"

section \<open>Printers\<close>

definition to_hex_u64 :: "u64 \<Rightarrow> 'n json" where
  "to_hex_u64 v = JString (''0x'' @ show_hex v)"

definition to_hex_u256 :: "'n rpc_fns \<Rightarrow> u256 \<Rightarrow> 'n json" where
  "to_hex_u256 R v = JString (''0x'' @ u256_lower_hex R v)"

text \<open>\<^verbatim>\<open>format!("0x{}", hex::encode(bytes))\<close>.\<close>

definition hex_0x :: "('b, 'a, 'k, 's) evm_fns \<Rightarrow> bytes \<Rightarrow> string" where
  "hex_0x F bs = ''0x'' @ hex_string F bs"

definition receipt_log_json ::
    "('b, 'a, 'k, 's) evm_fns \<Rightarrow> evm_receipt \<Rightarrow> nat \<times> evm_log \<Rightarrow> 'n json" where
  "receipt_log_json F r = (\<lambda>(i, log). JObject
     [(''address'', JString (hex_0x F (addr_slice (log_address log)))),
      (''topics'', JArray (map (\<lambda>t. JString (hex_0x F (be_bytes 32 t))) (log_topics log))),
      (''data'', JString (hex_0x F (log_data log))),
      (''blockNumber'', to_hex_u64 (rc_block_number r)),
      (''transactionHash'', JString (hex_0x F (be_bytes 32 (rc_tx_hash r)))),
      (''transactionIndex'', to_hex_u64 (rc_tx_index r)),
      (''logIndex'', to_hex_u64 (of_nat i)),
      (''removed'', JBool False)])"

definition receipt_to_json ::
    "('b, 'a, 'k, 's) evm_fns \<Rightarrow> 'n rpc_fns \<Rightarrow> evm_receipt \<Rightarrow> 'n json" where
  "receipt_to_json F R r = JObject
     [(''transactionHash'', JString (hex_0x F (be_bytes 32 (rc_tx_hash r)))),
      (''transactionIndex'', to_hex_u64 (rc_tx_index r)),
      (''blockHash'', JString (hex_0x F (be_bytes 32 (rc_block_hash r)))),
      (''blockNumber'', to_hex_u64 (rc_block_number r)),
      (''from'', JString (hex_0x F (addr_slice (rc_from r)))),
      (''to'', opt_string (map_option (\<lambda>a. hex_0x F (addr_slice a)) (rc_to r))),
      (''cumulativeGasUsed'', to_hex_u64 (rc_cumulative_gas_used r)),
      (''gasUsed'', to_hex_u64 (rc_gas_used r)),
      (''contractAddress'', opt_string (map_option (\<lambda>a. hex_0x F (addr_slice a)) (rc_contract_address r))),
      (''logs'', JArray (map (receipt_log_json F r) (enumerate 0 (rc_logs r)))),
      (''logsBloom'', JString (hex_0x F (rc_logs_bloom r))),
      (''status'', to_hex_u64 (ucast (rc_status r))),
      (''effectiveGasPrice'', to_hex_u256 R (rc_effective_gas_price r)),
      (''type'', JString ''0x2'')]"

section \<open>Parsers\<close>

definition parse_address_str :: "'n rpc_fns \<Rightarrow> string \<Rightarrow> string + address" where
  "parse_address_str R s =
     try_bind (map_err (\<lambda>e. ''invalid hex: '' @ e) (hex_decode_str R (strip_0x s)))
       (\<lambda>bytes. if length bytes \<noteq> 20
                then Inl (''address must be 20 bytes, got '' @ show_base 10 (length bytes))
                else Inr (from_be_bytes bytes))"

definition parse_address :: "'n rpc_fns \<Rightarrow> 'n json \<Rightarrow> string + address" where
  "parse_address R v = try_bind (ok_or (as_str v) ''expected string'') (parse_address_str R)"

definition parse_b256_str :: "'n rpc_fns \<Rightarrow> string \<Rightarrow> string + b256" where
  "parse_b256_str R s =
     try_bind (map_err (\<lambda>e. ''invalid hex: '' @ e) (hex_decode_str R (strip_0x s)))
       (\<lambda>bytes. if length bytes \<noteq> 32
                then Inl (''hash must be 32 bytes, got '' @ show_base 10 (length bytes))
                else Inr (from_be_bytes bytes))"

definition parse_addr_block :: "'n rpc_fns \<Rightarrow> 'n json \<Rightarrow> string + address \<times> string" where
  "parse_addr_block R params =
     try_bind (ok_or (as_array params) ''expected array params'') (\<lambda>arr.
       if arr = [] then Inl ''missing address parameter''
       else try_bind (parse_address R (arr ! 0)) (\<lambda>addr.
         let block = (case Option.bind (if 1 < length arr then Some (arr ! 1) else None) as_str of
                        Some s \<Rightarrow> s | None \<Rightarrow> ''latest'')
         in Inr (addr, block)))"

definition parse_u256 :: "'n rpc_fns \<Rightarrow> 'n json \<Rightarrow> string + u256" where
  "parse_u256 R v =
     try_bind (ok_or (as_str v) ''expected hex string'')
       (\<lambda>s. map_err (\<lambda>e. ''invalid U256: '' @ e) (u256_from_str_radix16 R (strip_0x s)))"

definition parse_hash_param :: "'n rpc_fns \<Rightarrow> 'n json \<Rightarrow> string + b256" where
  "parse_hash_param R params =
     try_bind (ok_or (Option.bind (Option.bind (as_array params) list_first) as_str) ''expected [hash]'')
       (parse_b256_str R)"

type_synonym call_params = "address \<times> address option \<times> bytes \<times> u256 \<times> u64 option"

definition parse_call_params :: "'n rpc_fns \<Rightarrow> 'n json \<Rightarrow> string + call_params" where
  "parse_call_params R params =
     try_bind (ok_or (as_array params) ''expected array params'') (\<lambda>arr.
     try_bind (ok_or (list_first arr) ''missing call object'') (\<lambda>obj.
     try_bind (map_transpose (parse_address_str R) (as_str (json_index obj ''from''))) (\<lambda>from_opt.
     let from = (case from_opt of Some a \<Rightarrow> a | None \<Rightarrow> 0) in
     try_bind (map_transpose (parse_address_str R) (as_str (json_index obj ''to''))) (\<lambda>to.
     try_bind (map_transpose
                 (\<lambda>s. map_err (\<lambda>e. ''invalid data hex: '' @ e) (hex_decode_str R (strip_0x s)))
                 (case as_str (json_index obj ''data'') of
                    Some s \<Rightarrow> Some s | None \<Rightarrow> as_str (json_index obj ''input''))) (\<lambda>data_opt.
     let data = (case data_opt of Some d \<Rightarrow> d | None \<Rightarrow> []) in
     try_bind (map_transpose
                 (\<lambda>s. map_err (\<lambda>e. ''invalid value: '' @ e) (u256_from_str_radix16 R (strip_0x s)))
                 (as_str (json_index obj ''value''))) (\<lambda>value_opt.
     let v = (case value_opt of Some v \<Rightarrow> v | None \<Rightarrow> 0);
         gas = Option.bind (as_str (json_index obj ''gas''))
                 (\<lambda>s. result_ok (from_str_radix16 (strip_0x s)))
     in Inr (from, to, data, v, gas)))))))"

section \<open>Logs\<close>

text \<open>The filter of \<^verbatim>\<open>eth_getLogs\<close>: an address and a topic, each absent when it is missing or malformed.\<close>

definition log_filter :: "'n rpc_fns \<Rightarrow> 'n json \<Rightarrow> address option \<times> b256 option" where
  "log_filter R params =
     (case Option.bind (as_array params) list_first of
        Some f \<Rightarrow>
          (Option.bind (as_str (json_index f ''address'')) (\<lambda>s. result_ok (parse_address_str R s)),
           Option.bind (Option.bind (Option.bind (as_array (json_index f ''topics'')) list_first) as_str)
             (\<lambda>s. result_ok (parse_b256_str R s)))
      | None \<Rightarrow> (None, None))"

definition log_json ::
    "('b, 'a, 'k, 's) evm_fns \<Rightarrow> evm_receipt \<Rightarrow> nat \<Rightarrow> evm_log \<Rightarrow> 'n json" where
  "log_json F r log_idx log = JObject
     [(''address'', JString (hex_0x F (addr_slice (log_address log)))),
      (''topics'', JArray (map (\<lambda>t. JString (hex_0x F (be_bytes 32 t))) (log_topics log))),
      (''data'', JString (hex_0x F (log_data log))),
      (''blockNumber'', to_hex_u64 (rc_block_number r)),
      (''transactionHash'', JString (hex_0x F (be_bytes 32 (rc_tx_hash r)))),
      (''transactionIndex'', to_hex_u64 (rc_tx_index r)),
      (''blockHash'', JString (hex_0x F (be_bytes 32 (rc_block_hash r)))),
      (''logIndex'', to_hex_u64 (of_nat log_idx)),
      (''removed'', JBool False)]"

text \<open>The three nested loops, each with the list \<^verbatim>\<open>logs\<close> that it extends.\<close>

fun log_loop ::
    "('b, 'a, 'k, 's) evm_fns \<Rightarrow> address option \<times> b256 option \<Rightarrow> evm_receipt \<Rightarrow> nat \<Rightarrow> evm_log list \<Rightarrow>
     'n json list \<Rightarrow> 'n json list" where
  "log_loop F (af, tf) r log_idx [] logs = logs"
| "log_loop F (af, tf) r log_idx (log # rest) logs =
     (if af \<noteq> None \<and> log_address log \<noteq> the af then log_loop F (af, tf) r (Suc log_idx) rest logs
      else if tf \<noteq> None \<and> the tf \<notin> set (log_topics log) then log_loop F (af, tf) r (Suc log_idx) rest logs
      else log_loop F (af, tf) r (Suc log_idx) rest (logs @ [log_json F r log_idx log]))"

fun receipt_loop ::
    "('b, 'a, 'k, 's) evm_fns \<Rightarrow> address option \<times> b256 option \<Rightarrow> evm_receipt list \<Rightarrow>
     'n json list \<Rightarrow> 'n json list" where
  "receipt_loop F fl [] logs = logs"
| "receipt_loop F fl (r # rs) logs = receipt_loop F fl rs (log_loop F fl r 0 (rc_logs r) logs)"

fun height_loop ::
    "('b, 'a, 'k, 's) evm_fns \<Rightarrow> address option \<times> b256 option \<Rightarrow> ('b, 'a, 'k, 's, 't) evm_executor \<Rightarrow>
     nat list \<Rightarrow> 'n json list \<Rightarrow> 'n json list" where
  "height_loop F fl ex [] logs = logs"
| "height_loop F fl ex (h # hs) logs =
     height_loop F fl ex hs
       (case get_receipts ex h of Some receipts \<Rightarrow> receipt_loop F fl receipts logs | None \<Rightarrow> logs)"

definition get_logs ::
    "('b, 'a, 'k, 's) evm_fns \<Rightarrow> 'n rpc_fns \<Rightarrow> ('b, 'a, 'k, 's, 't) evm_executor \<Rightarrow> 'n json \<Rightarrow> 'n json list" where
  "get_logs F R ex params =
     height_loop F (log_filter R params) ex [0..<Suc (unat (ex_block_height ex))] []"

section \<open>Methods\<close>

text \<open>Invalid parameters are answered with code $-32602$.\<close>

definition invalid_params :: "'n json_rpc_request \<Rightarrow> string \<Rightarrow> 'n json_rpc_response" where
  "invalid_params req e = response_err (req_id req) (- 32602) e"

definition rpc_get_balance ::
    "('b, 'a, 'k, 's, 't) state_ops \<Rightarrow> 'n rpc_fns \<Rightarrow> ('b, 'a, 'k, 's, 't) evm_executor \<Rightarrow>
     'n json_rpc_request \<Rightarrow> 'n json_rpc_response" where
  "rpc_get_balance ops R ex req =
     (case parse_addr_block R (req_params req) of
        Inl e \<Rightarrow> invalid_params req e
      | Inr (addr, _) \<Rightarrow> response_ok (req_id req) (to_hex_u256 R (query_balance ops ex addr)))"

definition rpc_get_transaction_count ::
    "('b, 'a, 'k, 's, 't) state_ops \<Rightarrow> 'n rpc_fns \<Rightarrow> ('b, 'a, 'k, 's, 't) evm_executor \<Rightarrow>
     'n json_rpc_request \<Rightarrow> 'n json_rpc_response" where
  "rpc_get_transaction_count ops R ex req =
     (case parse_addr_block R (req_params req) of
        Inl e \<Rightarrow> invalid_params req e
      | Inr (addr, _) \<Rightarrow> response_ok (req_id req) (to_hex_u64 (query_nonce ops ex addr)))"

definition rpc_get_code ::
    "('b, 'a, 'k, 's, 't) state_ops \<Rightarrow> ('b, 'a, 'k, 's) evm_fns \<Rightarrow> 'n rpc_fns \<Rightarrow>
     ('b, 'a, 'k, 's, 't) evm_executor \<Rightarrow> 'n json_rpc_request \<Rightarrow> 'n json_rpc_response" where
  "rpc_get_code ops F R ex req =
     (case parse_addr_block R (req_params req) of
        Inl e \<Rightarrow> invalid_params req e
      | Inr (addr, _) \<Rightarrow> response_ok (req_id req) (JString (hex_0x F (query_code ops ex addr))))"

definition rpc_get_storage_at ::
    "('b, 'a, 'k, 's, 't) state_ops \<Rightarrow> 'n rpc_fns \<Rightarrow> ('b, 'a, 'k, 's, 't) evm_executor \<Rightarrow>
     'n json_rpc_request \<Rightarrow> 'n json_rpc_response" where
  "rpc_get_storage_at ops R ex req =
     (case as_array (req_params req) of
        None \<Rightarrow> invalid_params req ''expected [addr, slot, block]''
      | Some arr \<Rightarrow>
          if length arr < 2 then invalid_params req ''expected [addr, slot, block]''
          else (case parse_address R (arr ! 0) of
                  Inl e \<Rightarrow> invalid_params req e
                | Inr addr \<Rightarrow>
                    (case parse_u256 R (arr ! 1) of
                       Inl e \<Rightarrow> invalid_params req e
                     | Inr slot \<Rightarrow>
                         response_ok (req_id req) (to_hex_u256 R (query_storage ops ex addr slot)))))"

definition rpc_estimate_gas ::
    "('b, 'a, 'k, 's) evm_fns \<Rightarrow> 'n rpc_fns \<Rightarrow> ('b, 'a, 'k, 's, 't) evm_rpc_state \<Rightarrow>
     'n json_rpc_request \<Rightarrow> 'n json_rpc_response \<times> ('b, 'a, 'k, 's, 't) evm_rpc_state" where
  "rpc_estimate_gas F R st req =
     (case parse_call_params R (req_params req) of
        Inl e \<Rightarrow> (invalid_params req e, st)
      | Inr (from, to, data, v, _) \<Rightarrow>
          (case eth_call F (rpc_executor st) from to data v None of (r, ex') \<Rightarrow>
             (case r of
                Inr _ \<Rightarrow> response_ok (req_id req) (to_hex_u64 (if to \<noteq> None then 21000 else 100000))
              | Inl e \<Rightarrow> response_err (req_id req) (- 32000) e,
              st\<lparr>rpc_executor := ex'\<rparr>)))"

text \<open>The bytes of \<^verbatim>\<open>eth_sendRawTransaction\<close>.\<close>

definition raw_tx_param :: "'n rpc_fns \<Rightarrow> 'n json \<Rightarrow> string + bytes" where
  "raw_tx_param R params =
     (case Option.bind (as_array params) list_first of
        Some v \<Rightarrow>
          (case as_str v of
             Some s \<Rightarrow>
               (case hex_decode_str R (strip_0x s) of
                  Inr b \<Rightarrow> Inr b
                | Inl e \<Rightarrow> Inl (''invalid hex: '' @ e))
           | None \<Rightarrow> Inl ''expected hex string'')
      | None \<Rightarrow> Inl ''missing params'')"

definition rpc_send_raw_transaction ::
    "('b, 'a, 'k, 's) evm_fns \<Rightarrow> 'n rpc_fns \<Rightarrow> tx_codec \<Rightarrow> ('b, 'a, 'k, 's, 't) evm_rpc_state \<Rightarrow>
     'n json_rpc_request \<Rightarrow> 'n json_rpc_response \<times> ('b, 'a, 'k, 's, 't) evm_rpc_state" where
  "rpc_send_raw_transaction F R C st req =
     (case raw_tx_param R (req_params req) of
        Inl e \<Rightarrow> (invalid_params req e, st)
      | Inr raw \<Rightarrow>
          (case submit_raw_tx C (rpc_executor st) raw of (r, ex') \<Rightarrow>
             let st' = st\<lparr>rpc_executor := ex'\<rparr> in
             (case r of
                Inr hash \<Rightarrow>
                  (response_ok (req_id req) (JString (hex_0x F (be_bytes 32 hash))),
                   st'\<lparr>rpc_network_sink := map_option (\<lambda>sent. sent @ [raw]) (rpc_network_sink st)\<rparr>)
              | Inl e \<Rightarrow> (response_err (req_id req) (- 32000) (show_pool_error e), st'))))"

definition rpc_eth_call ::
    "('b, 'a, 'k, 's) evm_fns \<Rightarrow> 'n rpc_fns \<Rightarrow> ('b, 'a, 'k, 's, 't) evm_rpc_state \<Rightarrow>
     'n json_rpc_request \<Rightarrow> 'n json_rpc_response \<times> ('b, 'a, 'k, 's, 't) evm_rpc_state" where
  "rpc_eth_call F R st req =
     (case parse_call_params R (req_params req) of
        Inl e \<Rightarrow> (invalid_params req e, st)
      | Inr (from, to, data, v, gas) \<Rightarrow>
          (case eth_call F (rpc_executor st) from to data v gas of (r, ex') \<Rightarrow>
             (case r of
                Inr output \<Rightarrow> response_ok (req_id req) (JString (hex_0x F output))
              | Inl e \<Rightarrow> response_err (req_id req) 3 e,
              st\<lparr>rpc_executor := ex'\<rparr>)))"

definition rpc_get_transaction_receipt ::
    "('b, 'a, 'k, 's) evm_fns \<Rightarrow> 'n rpc_fns \<Rightarrow> ('b, 'a, 'k, 's, 't) evm_executor \<Rightarrow>
     'n json_rpc_request \<Rightarrow> 'n json_rpc_response" where
  "rpc_get_transaction_receipt F R ex req =
     (case parse_hash_param R (req_params req) of
        Inl e \<Rightarrow> invalid_params req e
      | Inr hash \<Rightarrow>
          (case get_receipt_by_tx_hash ex hash of
             Some r \<Rightarrow> response_ok (req_id req) (receipt_to_json F R r)
           | None \<Rightarrow> response_ok (req_id req) JNull))"

definition rpc_get_transaction_by_hash ::
    "('b, 'a, 'k, 's) evm_fns \<Rightarrow> 'n rpc_fns \<Rightarrow> ('b, 'a, 'k, 's, 't) evm_executor \<Rightarrow>
     'n json_rpc_request \<Rightarrow> 'n json_rpc_response" where
  "rpc_get_transaction_by_hash F R ex req =
     (case parse_hash_param R (req_params req) of
        Inl e \<Rightarrow> invalid_params req e
      | Inr hash \<Rightarrow>
          (case get_receipt_by_tx_hash ex hash of
             Some r \<Rightarrow> response_ok (req_id req) (JObject
               [(''hash'', JString (hex_0x F (be_bytes 32 (rc_tx_hash r)))),
                (''blockNumber'', to_hex_u64 (rc_block_number r)),
                (''blockHash'', JString (hex_0x F (be_bytes 32 (rc_block_hash r)))),
                (''transactionIndex'', to_hex_u64 (rc_tx_index r)),
                (''from'', JString (hex_0x F (addr_slice (rc_from r)))),
                (''to'', opt_string (map_option (\<lambda>a. hex_0x F (addr_slice a)) (rc_to r))),
                (''value'', JString ''0x0''),
                (''gas'', to_hex_u64 (rc_gas_used r)),
                (''gasPrice'', to_hex_u256 R (rc_effective_gas_price r))])
           | None \<Rightarrow> response_ok (req_id req) JNull))"

definition rpc_get_block_by_number ::
    "('b, 'a, 'k, 's, 't) state_ops \<Rightarrow> ('b, 'a, 'k, 's) evm_fns \<Rightarrow> ('b, 'a, 'k, 's, 't) evm_executor \<Rightarrow>
     'n json_rpc_request \<Rightarrow> 'n json_rpc_response" where
  "rpc_get_block_by_number ops F ex req =
     (let config = ex_config ex;
          height = query_block_number ops ex;
          tx_count = (case get_receipts ex (unat height) of Some r \<Rightarrow> length r | None \<Rightarrow> 0)
      in response_ok (req_id req) (JObject
           [(''number'', to_hex_u64 height),
            (''hash'', JString (hex_0x F (be_bytes 32 (0 :: b256)))),
            (''parentHash'', JString (hex_0x F (be_bytes 32 (0 :: b256)))),
            (''timestamp'', JString ''0x0''),
            (''gasLimit'', to_hex_u64 (block_gas_limit config)),
            (''gasUsed'', JString ''0x0''),
            (''baseFeePerGas'', to_hex_u64 (base_fee_per_gas config)),
            (''miner'', JString (hex_0x F (addr_slice 0))),
            (''transactions'', JArray (replicate tx_count JNull))]))"

definition rpc_fee_history ::
    "'n rpc_fns \<Rightarrow> ('b, 'a, 'k, 's, 't) evm_executor \<Rightarrow> 'n json_rpc_request \<Rightarrow> 'n json_rpc_response" where
  "rpc_fee_history R ex req =
     (let base_fee = base_fee_per_gas (ex_config ex)
      in response_ok (req_id req) (JObject
           [(''oldestBlock'', JString ''0x0''),
            (''baseFeePerGas'', JArray [to_hex_u64 base_fee, to_hex_u64 base_fee]),
            (''gasUsedRatio'', JArray [JNumber (json_zero R)]),
            (''reward'', JArray [JArray [to_hex_u64 1000000000]])]))"

section \<open>Dispatch\<close>

text \<open>The methods that only read, by name; \<open>None\<close> for every other name.\<close>

definition dispatch_read ::
    "('b, 'a, 'k, 's, 't) state_ops \<Rightarrow> ('b, 'a, 'k, 's) evm_fns \<Rightarrow> 'n rpc_fns \<Rightarrow>
     ('b, 'a, 'k, 's, 't) evm_rpc_state \<Rightarrow> 'n json_rpc_request \<Rightarrow> 'n json_rpc_response option" where
  "dispatch_read ops F R st req =
     (let m = req_method req; ok = response_ok (req_id req); ex = rpc_executor st in
      if m = ''eth_chainId'' then Some (ok (to_hex_u64 (rpc_chain_id st)))
      else if m = ''net_version'' then Some (ok (JString (show_dec (rpc_chain_id st))))
      else if m = ''web3_clientVersion'' then Some (ok (JString ''nbnet/0.1.0''))
      else if m = ''eth_blockNumber'' then Some (ok (to_hex_u64 (query_block_number ops ex)))
      else if m = ''eth_getBalance'' then Some (rpc_get_balance ops R ex req)
      else if m = ''eth_getTransactionCount'' then Some (rpc_get_transaction_count ops R ex req)
      else if m = ''eth_getCode'' then Some (rpc_get_code ops F R ex req)
      else if m = ''eth_getStorageAt'' then Some (rpc_get_storage_at ops R ex req)
      else if m = ''eth_gasPrice'' then Some (ok (to_hex_u64 (base_fee_per_gas (ex_config ex))))
      else if m = ''eth_maxPriorityFeePerGas'' then Some (ok (to_hex_u64 1000000000))
      else if m = ''eth_getTransactionReceipt'' then Some (rpc_get_transaction_receipt F R ex req)
      else if m = ''eth_getTransactionByHash'' then Some (rpc_get_transaction_by_hash F R ex req)
      else if m = ''eth_getLogs'' then Some (ok (JArray (get_logs F R ex (req_params req))))
      else if m = ''eth_getBlockByNumber'' then Some (rpc_get_block_by_number ops F ex req)
      else if m = ''eth_getBlockByHash'' then Some (ok JNull)
      else if m = ''eth_feeHistory'' then Some (rpc_fee_history R ex req)
      else if m = ''eth_syncing'' then Some (ok (JBool False))
      else if m = ''eth_accounts'' then Some (ok (JArray []))
      else None)"

definition dispatch ::
    "('b, 'a, 'k, 's, 't) state_ops \<Rightarrow> ('b, 'a, 'k, 's) evm_fns \<Rightarrow> 'n rpc_fns \<Rightarrow> tx_codec \<Rightarrow>
     ('b, 'a, 'k, 's, 't) evm_rpc_state \<Rightarrow> 'n json_rpc_request \<Rightarrow>
     'n json_rpc_response \<times> ('b, 'a, 'k, 's, 't) evm_rpc_state" where
  "dispatch ops F R C st req =
     (if req_method req = ''eth_estimateGas'' then rpc_estimate_gas F R st req
      else if req_method req = ''eth_sendRawTransaction'' then rpc_send_raw_transaction F R C st req
      else if req_method req = ''eth_call'' then rpc_eth_call F R st req
      else (case dispatch_read ops F R st req of
              Some r \<Rightarrow> (r, st)
            | None \<Rightarrow>
                (response_err (req_id req) (- 32601) (''method not found: '' @ req_method req), st)))"

definition handle_rpc ::
    "('b, 'a, 'k, 's, 't) state_ops \<Rightarrow> ('b, 'a, 'k, 's) evm_fns \<Rightarrow> 'n rpc_fns \<Rightarrow> tx_codec \<Rightarrow>
     'n json_rpc_request \<Rightarrow> ('b, 'a, 'k, 's, 't) evm_rpc_state \<Rightarrow>
     'n json_rpc_response \<times> ('b, 'a, 'k, 's, 't) evm_rpc_state" where
  "handle_rpc ops F R C req st = dispatch ops F R C st req"

end
