(* ===== verification/Serde.thy ===== *)
theory Serde
  imports Json Chain_Types
begin

text \<open>
  What \<^verbatim>\<open>#[derive(Serialize, Deserialize)]\<close> does for the structs of the sources, as serde documents it,
  over JSON values. A struct is read from an object, member by member: an unknown name is skipped, a
  known one is read at once, and a second occurrence is an error; afterwards the missing fields are
  looked at in order of declaration. It can also be read from an array, by position. A field is
  required, has a default, or is optional. A \<^verbatim>\<open>BTreeMap\<close> is read from an object whose names are parsed as
  keys, the last occurrence of a key winning.

  An object is the list of its members as they stand in the text, so duplicates are visible. The locale
  \<open>codec\<close> is the contract of a type that reads back what it writes, and gives it to options, arrays and
  maps of such a type.
\<close>

section \<open>Errors and sequencing\<close>

datatype serde_error =
    Invalid
  | InvalidLength
  | MissingField string
  | DuplicateField string
  | UnknownVariant string
  | CustomError string
  | BadCode hex_error
  | BadBloom bloom_error

definition and_then :: "('e, 'a) outcome \<Rightarrow> ('a \<Rightarrow> ('e, 'b) outcome) \<Rightarrow> ('e, 'b) outcome" where
  "and_then r f = (case r of Done x \<Rightarrow> f x | Fail e \<Rightarrow> Fail e | Panic \<Rightarrow> Panic)"

definition custom :: "string + 'a \<Rightarrow> (serde_error, 'a) outcome" where
  "custom r = (case r of Inl e \<Rightarrow> Fail (CustomError e) | Inr x \<Rightarrow> Done x)"

lemma and_then_simps [simp]:
  "and_then (Done x) f = f x" "and_then (Fail e) f = Fail e" "and_then Panic f = Panic"
  by (simp_all add: and_then_def)

lemma and_then_eq_Done: "and_then r f = Done y \<longleftrightarrow> (\<exists>x. r = Done x \<and> f x = Done y)"
  by (cases r) auto

lemma custom_simps [simp]: "custom (Inl e) = Fail (CustomError e)" "custom (Inr x) = Done x"
  by (simp_all add: custom_def)

section \<open>Structs\<close>

type_synonym ('n, 'a) reader = "'n json \<Rightarrow> (serde_error, 'a) outcome"
type_synonym 'n field_table = "(string \<times> ('n, unit) reader) list"

text \<open>Reading a value for its errors; the value itself is read again when the struct is built.\<close>

definition checked :: "('n, 'a) reader \<Rightarrow> ('n, unit) reader" where
  "checked f v = and_then (f v) (\<lambda>_. Done ())"

lemma checked_Done [simp]: "checked f v = Done () \<longleftrightarrow> (\<exists>x. f v = Done x)"
  by (simp add: checked_def and_then_eq_Done)

fun visit_map ::
    "'n field_table \<Rightarrow> (string \<times> 'n json) list \<Rightarrow> (string \<rightharpoonup> 'n json) \<Rightarrow> (serde_error, string \<rightharpoonup> 'n json) outcome" where
  "visit_map fs [] p = Done p"
| "visit_map fs ((k, v) # ms) p =
     (case map_of fs k of
        None \<Rightarrow> visit_map fs ms p
      | Some check \<Rightarrow>
          if p k \<noteq> None then Fail (DuplicateField k)
          else and_then (check v) (\<lambda>_. visit_map fs ms (p(k \<mapsto> v))))"

fun visit_seq ::
    "'n field_table \<Rightarrow> 'n json list \<Rightarrow> (string \<rightharpoonup> 'n json) \<Rightarrow> (serde_error, string \<rightharpoonup> 'n json) outcome" where
  "visit_seq [] [] p = Done p"
| "visit_seq [] (v # vs) p = Fail InvalidLength"
| "visit_seq (f # fs) [] p = Done p"
| "visit_seq ((k, check) # fs) (v # vs) p = and_then (check v) (\<lambda>_. visit_seq fs vs (p(k \<mapsto> v)))"

text \<open>\<open>by_position\<close> tells whether the fields came from an array.\<close>

definition read_struct ::
    "'n field_table \<Rightarrow> (bool \<Rightarrow> (string \<rightharpoonup> 'n json) \<Rightarrow> (serde_error, 'a) outcome) \<Rightarrow> ('n, 'a) reader" where
  "read_struct fs build v =
     (case v of
        JObject ms \<Rightarrow> and_then (visit_map fs ms Map.empty) (build False)
      | JArray vs \<Rightarrow> and_then (visit_seq fs vs Map.empty) (build True)
      | _ \<Rightarrow> Fail Invalid)"

definition required ::
    "bool \<Rightarrow> (string \<rightharpoonup> 'n json) \<Rightarrow> string \<Rightarrow> ('n, 'a) reader \<Rightarrow> (serde_error, 'a) outcome" where
  "required by_position p k f =
     (case p k of Some v \<Rightarrow> f v | None \<Rightarrow> Fail (if by_position then InvalidLength else MissingField k))"

definition defaulted ::
    "(string \<rightharpoonup> 'n json) \<Rightarrow> string \<Rightarrow> ('n, 'a) reader \<Rightarrow> 'a \<Rightarrow> (serde_error, 'a) outcome" where
  "defaulted p k f d = (case p k of Some v \<Rightarrow> f v | None \<Rightarrow> Done d)"

text \<open>An \<^verbatim>\<open>Option\<close> reads null as absent, and a missing member of an object too.\<close>

definition read_option :: "('n, 'a) reader \<Rightarrow> ('n, 'a option) reader" where
  "read_option f v = (case v of JNull \<Rightarrow> Done None | _ \<Rightarrow> and_then (f v) (\<lambda>x. Done (Some x)))"

lemma read_option_value: "v \<noteq> JNull \<Longrightarrow> read_option f v = and_then (f v) (\<lambda>x. Done (Some x))"
  by (cases v) (simp_all add: read_option_def)

definition optional ::
    "bool \<Rightarrow> (string \<rightharpoonup> 'n json) \<Rightarrow> string \<Rightarrow> ('n, 'a) reader \<Rightarrow> (serde_error, 'a option) outcome" where
  "optional by_position p k f =
     (case p k of Some v \<Rightarrow> read_option f v
      | None \<Rightarrow> if by_position then Fail InvalidLength else Done None)"

section \<open>Strings, arrays and maps\<close>

fun read_string :: "('n, string) reader" where
  "read_string (JString s) = Done s"
| "read_string _ = Fail Invalid"

fun read_elems :: "('n, 'a) reader \<Rightarrow> 'n json list \<Rightarrow> (serde_error, 'a list) outcome" where
  "read_elems f [] = Done []"
| "read_elems f (v # vs) = and_then (f v) (\<lambda>x. and_then (read_elems f vs) (\<lambda>xs. Done (x # xs)))"

fun read_vec :: "('n, 'a) reader \<Rightarrow> ('n, 'a list) reader" where
  "read_vec f (JArray vs) = read_elems f vs"
| "read_vec f _ = Fail Invalid"

fun read_entries ::
    "(string \<Rightarrow> string + 'k::linorder) \<Rightarrow> ('n, 'v) reader \<Rightarrow> (string \<times> 'n json) list \<Rightarrow> ('k, 'v) btree \<Rightarrow>
     (serde_error, ('k, 'v) btree) outcome" where
  "read_entries key f [] m = Done m"
| "read_entries key f ((k, v) # ms) m =
     and_then (custom (key k)) (\<lambda>a. and_then (f v) (\<lambda>x. read_entries key f ms (bt_insert a x m)))"

fun read_btree :: "(string \<Rightarrow> string + 'k::linorder) \<Rightarrow> ('n, 'v) reader \<Rightarrow> ('n, ('k, 'v) btree) reader" where
  "read_btree key f (JObject ms) = read_entries key f ms []"
| "read_btree key f _ = Fail Invalid"

definition write_btree :: "('k \<Rightarrow> string) \<Rightarrow> ('v \<Rightarrow> 'n json) \<Rightarrow> ('k, 'v) btree \<Rightarrow> 'n json" where
  "write_btree key w m = JObject (map (\<lambda>(k, v). (key k, w v)) m)"

definition write_option :: "('a \<Rightarrow> 'n json) \<Rightarrow> 'a option \<Rightarrow> 'n json" where
  "write_option w x = (case x of None \<Rightarrow> JNull | Some y \<Rightarrow> w y)"

section \<open>What a struct reader accepts\<close>

definition known :: "'n field_table \<Rightarrow> (string \<times> 'n json) list \<Rightarrow> (string \<times> 'n json) list" where
  "known fs ms = filter (\<lambda>(k, v). map_of fs k \<noteq> None) ms"

text \<open>
  The members are accepted exactly when no known name occurs twice, or again, and every known member can be
  read; the fields collected are then those members. Order and unknown members do not matter.
\<close>

lemma visit_map_Done:
  "visit_map fs ms p = Done q \<longleftrightarrow>
     distinct (map fst (known fs ms)) \<and> (\<forall>k \<in> fst ` set (known fs ms). p k = None) \<and>
     (\<forall>(k, v) \<in> set (known fs ms). the (map_of fs k) v = Done ()) \<and> q = p ++ map_of (known fs ms)"
proof (induction fs ms p rule: visit_map.induct)
  case (2 fs k v ms p)
  show ?case
  proof (cases "map_of fs k")
    case None
    then show ?thesis using 2(1) by (simp add: known_def)
  next
    case (Some check)
    have split: "known fs ((k, v) # ms) = (k, v) # known fs ms" by (simp add: known_def Some)
    have sum: "p(k \<mapsto> v) ++ map_of (known fs ms) = p ++ map_of ((k, v) # known fs ms)"
      if "k \<notin> fst ` set (known fs ms)"
    proof -
      have "map_of (known fs ms) k = None" using that by (simp add: map_of_eq_None_iff)
      then show ?thesis by (auto simp: map_add_def fun_eq_iff split: option.split)
    qed
    show ?thesis
    proof (cases "p k = None \<and> check v = Done ()")
      case True
      let ?K = "known fs ms"
      have step: "visit_map fs ((k, v) # ms) p = visit_map fs ms (p(k \<mapsto> v))" using True by (simp add: Some)
      have IH: "visit_map fs ms (p(k \<mapsto> v)) = Done q \<longleftrightarrow>
          distinct (map fst ?K) \<and> (\<forall>k' \<in> fst ` set ?K. (p(k \<mapsto> v)) k' = None) \<and>
          (\<forall>(k, v) \<in> set ?K. the (map_of fs k) v = Done ()) \<and> q = p(k \<mapsto> v) ++ map_of ?K"
        by (rule 2(2) [OF Some, unfolded fun_upd_def [symmetric]]) (simp add: True)
      have fresh: "(\<forall>k' \<in> fst ` set ?K. (p(k \<mapsto> v)) k' = None) \<longleftrightarrow>
          k \<notin> fst ` set ?K \<and> (\<forall>k' \<in> fst ` set ?K. p k' = None)"
        by auto
      show ?thesis
      proof (cases "k \<in> fst ` set ?K")
        case False
        then show ?thesis unfolding step IH fresh split sum [OF False] using True by (simp add: Some del: map_of.simps)
      next
        case dup: True
        then show ?thesis unfolding step IH fresh split by simp
      qed
    next
      case False
      then show ?thesis unfolding split by (auto simp: Some and_then_eq_Done)
    qed
  qed
qed (auto simp: known_def)

lemma map_of_known: "map_of (known fs ms) k = (if map_of fs k = None then None else map_of ms k)"
  by (induction ms) (auto simp: known_def)

lemma read_struct_object_Done:
  "read_struct fs build (JObject ms) = Done x \<longleftrightarrow>
     distinct (map fst (known fs ms)) \<and>
     (\<forall>(k, v) \<in> set (known fs ms). the (map_of fs k) v = Done ()) \<and>
     build False (\<lambda>k. if map_of fs k = None then None else map_of ms k) = Done x"
proof -
  have "Map.empty ++ map_of (known fs ms) = (\<lambda>k. if map_of fs k = None then None else map_of ms k)"
    by (auto simp: map_of_known)
  then show ?thesis by (auto simp: read_struct_def and_then_eq_Done visit_map_Done)
qed

text \<open>\<open>field_is f d v x\<close>: the member \<open>v\<close>, absent or not, gives the field the value \<open>x\<close>; \<open>d\<close> is the default.\<close>

definition field_is :: "('n, 'a) reader \<Rightarrow> 'a option \<Rightarrow> 'n json option \<Rightarrow> 'a \<Rightarrow> bool" where
  "field_is f d v x \<longleftrightarrow> (case v of Some w \<Rightarrow> f w = Done x | None \<Rightarrow> d = Some x)"

lemma required_is: "required pos p k f = Done x \<longleftrightarrow> field_is f None (p k) x"
  by (simp add: required_def field_is_def split: option.split)

lemma defaulted_is: "defaulted p k f d = Done x \<longleftrightarrow> field_is f (Some d) (p k) x"
  by (auto simp: defaulted_def field_is_def split: option.split)

lemma optional_is: "optional False p k f = Done x \<longleftrightarrow> field_is (read_option f) (Some None) (p k) x"
  by (auto simp: optional_def field_is_def split: option.split)

lemma map_fst_known: "map fst (known fs ms) = filter (\<lambda>k. map_of fs k \<noteq> None) (map fst ms)"
  by (induction ms) (auto simp: known_def)

lemma known_lookup:
  "distinct (map fst (known fs ms)) \<Longrightarrow> (k, v) \<in> set (known fs ms) \<Longrightarrow> map_of ms k = Some v \<and> map_of fs k \<noteq> None"
  using map_of_is_SomeI [of "known fs ms" k v] map_of_known [of fs ms k] by (auto split: if_splits)

text \<open>Reading a struct panics only when the reader of a field does.\<close>

lemma and_then_eq_Panic: "and_then r f = Panic \<longleftrightarrow> r = Panic \<or> (\<exists>x. r = Done x \<and> f x = Panic)"
  by (cases r) auto

lemma visit_panic:
  assumes "\<And>k check v. (k, check) \<in> set fs \<Longrightarrow> check v \<noteq> Panic"
  shows "visit_map fs ms p \<noteq> Panic" "visit_seq fs vs p \<noteq> Panic"
proof -
  show "visit_map fs ms p \<noteq> Panic" using assms
    by (induction fs ms p rule: visit_map.induct)
      (auto simp: and_then_eq_Panic dest: map_of_SomeD split: option.split)
  show "visit_seq fs vs p \<noteq> Panic" using assms
    by (induction fs vs p rule: visit_seq.induct) (auto simp: and_then_eq_Panic)
qed

section \<open>Codecs\<close>

lemma bt_insert_last: "\<forall>a \<in> fst ` set m. a < k \<Longrightarrow> bt_insert k v m = m @ [(k, v)]"
  by (induction k v m rule: bt_insert.induct) auto

locale codec =
  fixes enc :: "'a \<Rightarrow> 'n json"
    and dec :: "('n, 'a) reader"
    and valid :: "'a \<Rightarrow> bool"
  assumes dec_enc: "valid x \<Longrightarrow> dec (enc x) = Done x"
begin

lemma elems_roundtrip: "\<forall>x \<in> set xs. valid x \<Longrightarrow> read_elems dec (map enc xs) = Done xs"
  by (induction xs) (auto simp: dec_enc)

lemma option_roundtrip:
  "(\<And>y. x = Some y \<Longrightarrow> valid y \<and> enc y \<noteq> JNull) \<Longrightarrow> read_option dec (write_option enc x) = Done x"
  by (cases x) (auto simp: read_option_value write_option_def dec_enc, simp add: read_option_def)

lemma entries_roundtrip:
  assumes "\<And>k. key (name k) = Inr k"
  shows "bt_ok (done @ m) \<Longrightarrow> \<forall>(k, v) \<in> set m. valid v \<Longrightarrow>
    read_entries key dec (map (\<lambda>(k, v). (name k, enc v)) m) done = Done (done @ m)"
proof (induction m arbitrary: "done")
  case (Cons p m)
  obtain k v where p: "p = (k, v)" by fastforce
  have "\<forall>a \<in> fst ` set done. a < k" using Cons.prems(1) by (auto simp: bt_ok_def p sorted_wrt_append)
  then show ?case using Cons.IH [of "done @ [(k, v)]"] Cons.prems by (simp add: p assms dec_enc bt_insert_last)
qed simp

lemma btree_roundtrip:
  "(\<And>k. key (name k) = Inr k) \<Longrightarrow> bt_ok m \<Longrightarrow> \<forall>(k, v) \<in> set m. valid v \<Longrightarrow>
     read_btree key dec (write_btree name enc m) = Done m"
  using entries_roundtrip [of key name "[]" m] by (simp add: write_btree_def)

end

end
