(* ===== verification/World_State_Spec.thy ===== *)
theory World_State_Spec
  imports World_State
begin

text \<open>
  What the state store guarantees, given that vsdb's maps behave as maps (\<open>state_ok\<close>): reads see
  writes, distinct keys do not interfere, flushing the cache and dropping it changes nothing that
  can be read, the genesis allocation is what the initial state shows, and the account leaf of the
  trie determines the account.
\<close>

section \<open>The libraries\<close>

definition kv_ok :: "('v, 'm) kv_ops \<Rightarrow> bool" where
  "kv_ok kv \<longleftrightarrow>
     (\<forall>k. kv_get kv (kv_new kv) k = None) \<and>
     (\<forall>m k v k'. kv_get kv (kv_insert kv k v m) k' = (if k' = k then Some v else kv_get kv m k'))"

definition state_ok :: "('b, 'a, 'k, 's, 't) state_ops \<Rightarrow> bool" where
  "state_ok ops \<longleftrightarrow> kv_ok (acc_kv ops) \<and> kv_ok (code_kv ops) \<and> kv_ok (word_kv ops)"

lemma kv_ok_simps:
  "kv_ok kv \<Longrightarrow> kv_get kv (kv_new kv) k = None"
  "kv_ok kv \<Longrightarrow> kv_get kv (kv_insert kv k v m) k' = (if k' = k then Some v else kv_get kv m k')"
  by (simp_all add: kv_ok_def)

section \<open>Keys and encodings\<close>

lemma storage_key_inj [simp]: "storage_key a s = storage_key b t \<longleftrightarrow> a = b \<and> s = t"
  by (simp add: storage_key_def)

text \<open>
  The leaf that goes into the state trie has 72 bytes and determines nonce, balance and code
  hash, so two accounts that differ in one of them have different leaves.
\<close>

theorem encode_account_leaf_inj:
  "length (encode_account_leaf i) = 72 \<and>
   (encode_account_leaf i = encode_account_leaf j \<longleftrightarrow>
      ai_nonce i = ai_nonce j \<and> ai_balance i = ai_balance j \<and> ai_code_hash i = ai_code_hash j)"
  by (simp add: encode_account_leaf_def)

section \<open>The store\<close>

definition slot_at ::
    "('b, 'a, 'k, 's, 't) state_ops \<Rightarrow> ('a, 'k, 's) vsdb_state_db \<Rightarrow> address \<Rightarrow> u256 \<Rightarrow> bytes option" where
  "slot_at ops db addr slot = kv_get (word_kv ops) (vs_storage db) (storage_key addr slot)"

lemma vsdb_get_storage_slot:
  "vsdb_get_storage ops db a s = (case slot_at ops db a s of Some b \<Rightarrow> from_be_bytes b | None \<Rightarrow> 0)"
  by (simp add: vsdb_get_storage_def slot_at_def)

lemma insert_account_eqs:
  "vs_accounts (insert_account ops a i db) =
     kv_insert (acc_kv ops) (addr_slice a) (stored_from_info i) (vs_accounts db)"
  "vs_storage (insert_account ops a i db) = vs_storage db"
  "vs_block_hashes (insert_account ops a i db) = vs_block_hashes db"
  by (simp_all add: insert_account_def Let_def split: option.splits)

lemma stored_at_insert_account [simp]:
  "state_ok ops \<Longrightarrow> stored_at ops (insert_account ops a i db) b =
     (if b = a then Some (stored_from_info i) else stored_at ops db b)"
  by (simp add: stored_at_def insert_account_eqs state_ok_def kv_ok_simps)

lemma slot_at_insert_account [simp]: "slot_at ops (insert_account ops a i db) b s = slot_at ops db b s"
  by (simp add: slot_at_def insert_account_eqs)

lemma stored_at_insert_storage [simp]: "stored_at ops (insert_storage ops a s v db) b = stored_at ops db b"
  by (simp add: stored_at_def insert_storage_def)

lemma slot_at_insert_storage [simp]:
  "state_ok ops \<Longrightarrow> slot_at ops (insert_storage ops a s v db) b t =
     (if b = a \<and> t = s then Some (be_bytes 32 v) else slot_at ops db b t)"
  by (simp add: slot_at_def insert_storage_def state_ok_def kv_ok_simps)

lemma db_block_hash_insert_storage [simp]:
  "db_block_hash ops (insert_storage ops a s v db) n = db_block_hash ops db n"
  by (simp add: db_block_hash_def insert_storage_def)

lemma stored_at_new [simp]: "state_ok ops \<Longrightarrow> stored_at ops (vsdb_new ops) a = None"
  by (simp add: stored_at_def vsdb_new_def state_ok_def kv_ok_simps)

lemma slot_at_new [simp]: "state_ok ops \<Longrightarrow> slot_at ops (vsdb_new ops) a s = None"
  by (simp add: slot_at_def vsdb_new_def state_ok_def kv_ok_simps)

lemma stored_fields [simp]:
  "from_be_bytes (balance_be (stored_from_info i)) = ai_balance i"
  "sa_nonce (stored_from_info i) = ai_nonce i"
  "from_be_bytes (sa_code_hash (stored_from_info i)) = ai_code_hash i"
  by (simp_all add: stored_from_info_def)

text \<open>
  The store is a faithful table. An account read back after it was inserted has the balance,
  nonce and code hash it was inserted with and every other account is unchanged; a storage slot
  read back after it was written has the value written, and writing it disturbs no other slot of any
  account (the composite keys are injective), no account and no block hash.
\<close>

theorem vsdb_read_after_write:
  assumes ok: "state_ok ops"
  shows "vsdb_get_account ops (insert_account ops a i db) b =
           (if b = a then Some ((default_info ops)\<lparr>ai_balance := ai_balance i, ai_nonce := ai_nonce i,
                                  ai_code_hash := ai_code_hash i\<rparr>)
            else vsdb_get_account ops db b) \<and>
         vsdb_get_storage ops (insert_account ops a i db) b t = vsdb_get_storage ops db b t \<and>
         vsdb_get_storage ops (insert_storage ops a s v db) b t =
           (if b = a \<and> t = s then v else vsdb_get_storage ops db b t) \<and>
         vsdb_get_account ops (insert_storage ops a s v db) b = vsdb_get_account ops db b \<and>
         db_block_hash ops (insert_storage ops a s v db) n = db_block_hash ops db n"
  using ok by (simp add: vsdb_get_account_def vsdb_get_storage_slot stored_to_info_def)

section \<open>Flushing the cache\<close>

lemma insert_slots:
  assumes ok: "state_ok ops"
  shows "stored_at ops (fold (\<lambda>s db. case m s of None \<Rightarrow> db | Some v \<Rightarrow> insert_storage ops a s v db) ss db) b
           = stored_at ops db b"
    and "slot_at ops (fold (\<lambda>s db. case m s of None \<Rightarrow> db | Some v \<Rightarrow> insert_storage ops a s v db) ss db) b t
           = (if b = a \<and> t \<in> set ss \<and> m t \<noteq> None then map_option (be_bytes 32) (m t) else slot_at ops db b t)"
  by (induction ss arbitrary: db) (auto simp: ok split: option.splits)

lemma flush_account_at:
  assumes ok: "state_ok ops"
  shows "stored_at ops (fst (flush_account ops cache ord a dt)) b =
      (case cache a of Some acc \<Rightarrow> if b = a then Some (stored_from_info (da_info acc))
                                  else stored_at ops (fst dt) b
       | None \<Rightarrow> stored_at ops (fst dt) b)"
    and "slot_at ops (fst (flush_account ops cache ord a dt)) b t =
      (case cache a of Some acc \<Rightarrow> if b = a \<and> t \<in> set (ord a) \<and> da_storage acc t \<noteq> None
                                  then map_option (be_bytes 32) (da_storage acc t)
                                  else slot_at ops (fst dt) b t
       | None \<Rightarrow> slot_at ops (fst dt) b t)"
proof -
  have none: "flush_account ops cache ord a dt = dt" if "cache a = None"
    using that by (cases dt) (simp add: flush_account_def)
  have some: "fst (flush_account ops cache ord a dt) =
      fold (\<lambda>s db. case da_storage acc s of None \<Rightarrow> db | Some v \<Rightarrow> insert_storage ops a s v db) (ord a)
        (insert_account ops a (da_info acc) (fst dt))" if "cache a = Some acc" for acc
    using that by (cases dt) (simp add: flush_account_def)
  show "stored_at ops (fst (flush_account ops cache ord a dt)) b =
      (case cache a of Some acc \<Rightarrow> if b = a then Some (stored_from_info (da_info acc))
                                  else stored_at ops (fst dt) b
       | None \<Rightarrow> stored_at ops (fst dt) b)"
    by (cases "cache a") (simp_all add: none some insert_slots(1) [OF ok] ok)
  show "slot_at ops (fst (flush_account ops cache ord a dt)) b t =
      (case cache a of Some acc \<Rightarrow> if b = a \<and> t \<in> set (ord a) \<and> da_storage acc t \<noteq> None
                                  then map_option (be_bytes 32) (da_storage acc t)
                                  else slot_at ops (fst dt) b t
       | None \<Rightarrow> slot_at ops (fst dt) b t)"
  proof (cases "cache a")
    case (Some acc)
    show ?thesis unfolding some [OF Some] insert_slots(2) [OF ok] slot_at_insert_account Some by simp
  qed (simp add: none)
qed

lemma flush_accounts_at:
  assumes ok: "state_ok ops"
  shows "stored_at ops (fst (fold (flush_account ops cache ord) ks dt)) b =
      (case cache b of Some acc \<Rightarrow> if b \<in> set ks then Some (stored_from_info (da_info acc))
                                  else stored_at ops (fst dt) b
       | None \<Rightarrow> stored_at ops (fst dt) b)"
    and "slot_at ops (fst (fold (flush_account ops cache ord) ks dt)) b t =
      (case cache b of Some acc \<Rightarrow> if b \<in> set ks \<and> t \<in> set (ord b) \<and> da_storage acc t \<noteq> None
                                  then map_option (be_bytes 32) (da_storage acc t)
                                  else slot_at ops (fst dt) b t
       | None \<Rightarrow> slot_at ops (fst dt) b t)"
  by (induction ks arbitrary: dt) (auto simp: flush_account_at [OF ok] split: option.splits)

definition drop_cache :: "('b, 'a, 'k, 's, 't) evm_state \<Rightarrow> ('b, 'a, 'k, 's, 't) evm_state" where
  "drop_cache st = st\<lparr>es_db := (es_db st)\<lparr>cache_accounts := Map.empty\<rparr>\<rparr>"

text \<open>
  C11: after a flush the persistent store alone shows what the cached state showed: the balance and
  nonce of every account and every storage slot read the same when the cache is dropped, in whatever
  order the cache's hash maps were iterated.
\<close>

theorem flush_persists:
  assumes ok: "state_ok ops" and ks: "iter_order (cache_accounts (es_db st)) ks"
    and ord: "\<forall>a acc. cache_accounts (es_db st) a = Some acc \<longrightarrow> iter_order (da_storage acc) (ord a)"
  shows "let st' = drop_cache (flush_cache_to_vsdb ops ks ord st) in
     es_get_balance ops st' a = es_get_balance ops st a \<and>
     es_get_nonce ops st' a = es_get_nonce ops st a \<and>
     es_get_storage ops st' a t = es_get_storage ops st a t"
proof -
  let ?C = "cache_accounts (es_db st)"
  let ?db = "fst (fold (flush_account ops ?C ord) ks (cache_inner (es_db st), es_trie st))"
  have inner: "cache_inner (es_db (drop_cache (flush_cache_to_vsdb ops ks ord st))) = ?db"
    "cache_accounts (es_db (drop_cache (flush_cache_to_vsdb ops ks ord st))) = Map.empty"
    by (simp_all add: drop_cache_def flush_cache_to_vsdb_def split_beta)
  note at = flush_accounts_at [OF ok, of ?C ord ks "(cache_inner (es_db st), es_trie st)" a]
  have mem: "a \<in> set ks" if "?C a = Some acc" for acc using ks that by (auto simp: iter_order_def)
  have slot: "t \<in> set (ord a) \<longleftrightarrow> da_storage acc t \<noteq> None" if "?C a = Some acc" for acc
    using ord that by (auto simp: iter_order_def)
  show ?thesis
  proof (cases "?C a")
    case None
    then show ?thesis
      by (simp add: Let_def es_get_balance_def es_get_nonce_def es_get_storage_def inner
          vsdb_get_balance_def vsdb_get_nonce_def vsdb_get_storage_slot at)
  next
    case (Some acc)
    then show ?thesis using mem [OF Some] slot [OF Some]
      by (simp add: Let_def es_get_balance_def es_get_nonce_def es_get_storage_def inner
          vsdb_get_balance_def vsdb_get_nonce_def vsdb_get_storage_slot at split: option.splits)
  qed
qed

text \<open>A concrete library: tables as functions, bytecode as bytes, the trie as the list of insertions.\<close>

definition table_kv :: "('v, bytes \<rightharpoonup> 'v) kv_ops" where
  "table_kv = \<lparr>kv_new = Map.empty, kv_insert = hm_insert, kv_get = (\<lambda>m k. m k)\<rparr>"

definition demo_ops ::
    "(bytes, bytes \<rightharpoonup> stored_account, bytes \<rightharpoonup> bytes, bytes \<rightharpoonup> bytes, (bytes \<times> bytes) list) state_ops" where
  "demo_ops =
     \<lparr>acc_kv = table_kv, code_kv = table_kv, word_kv = table_kv,
      mpt_new = [], mpt_insert = (\<lambda>k v t. (k, v) # t), mpt_root_hash = (\<lambda>t. (Some (concat (map snd t)), t)),
      bytecode_new_raw = id, bytes_slice = id, default_bytecode = [],
      default_info = \<lparr>ai_balance = 0, ai_nonce = 0, ai_code_hash = 7, ai_code = Some []\<rparr>,
      KECCAK_EMPTY = 7\<rparr>"

lemma demo_ops_ok: "state_ok demo_ops"
  by (simp add: state_ok_def kv_ok_def demo_ops_def table_kv_def hm_insert_def)

theorem vsdb_read_after_write_witness:
  "vsdb_get_storage demo_ops (insert_storage demo_ops 1 2 99 (vsdb_new demo_ops)) 1 2 = 99"
  using vsdb_read_after_write [OF demo_ops_ok, of 1 _ _ 1 2 2 99] by simp

definition demo_state ::
    "(bytes, bytes \<rightharpoonup> stored_account, bytes \<rightharpoonup> bytes, bytes \<rightharpoonup> bytes, (bytes \<times> bytes) list) evm_state" where
  "demo_state =
     \<lparr>es_db = \<lparr>cache_accounts = [1 \<mapsto> \<lparr>da_info = (default_info demo_ops)\<lparr>ai_balance := 50\<rparr>,
                                  da_storage = [3 \<mapsto> 4]\<rparr>],
              cache_inner = vsdb_new demo_ops\<rparr>,
      es_trie = [], es_config = default_evm_chain_config, es_block_hashes = []\<rparr>"

theorem flush_persists_witness:
  "es_get_balance demo_ops (drop_cache (flush_cache_to_vsdb demo_ops [1] (\<lambda>_. [3]) demo_state)) 1 = 50"
  using flush_persists [OF demo_ops_ok, of demo_state "[1]" "\<lambda>_. [3]" 1 3]
  by (simp add: Let_def demo_state_def iter_order_def es_get_balance_def)

section \<open>Setting a balance or nonce\<close>

lemma stored_at_set:
  assumes "state_ok ops"
  shows "stored_at ops (vsdb_set_balance ops a v db) b =
     (if b = a then Some ((case stored_at ops db a of Some s \<Rightarrow> s | None \<Rightarrow> blank_account ops)
                            \<lparr>balance_be := be_bytes 32 v\<rparr>) else stored_at ops db b)"
    and "stored_at ops (vsdb_set_nonce ops a n db) b =
     (if b = a then Some ((case stored_at ops db a of Some s \<Rightarrow> s | None \<Rightarrow> blank_account ops)
                            \<lparr>sa_nonce := n\<rparr>) else stored_at ops db b)"
  using assms
  by (simp_all add: vsdb_set_balance_def vsdb_set_nonce_def Let_def stored_at_def state_ok_def kv_ok_simps)

lemma from_be_zero: "from_be_bytes (replicate n 0) = (0 :: 'a::len word)"
proof -
  have "be_nat (replicate n 0) = 0" by (induction n) auto
  then show ?thesis by (simp add: from_be_bytes_def)
qed

text \<open>
  \<^verbatim>\<open>set_balance\<close> and \<^verbatim>\<open>set_nonce\<close> of the store change the one field of the one account: the new
  value is read back, the other field and every other account stay.
\<close>

theorem vsdb_set_fields:
  assumes ok: "state_ok ops"
  shows "vsdb_get_balance ops (vsdb_set_balance ops a v db) b = (if b = a then v else vsdb_get_balance ops db b) \<and>
     vsdb_get_nonce ops (vsdb_set_balance ops a v db) b = vsdb_get_nonce ops db b \<and>
     vsdb_get_nonce ops (vsdb_set_nonce ops a n db) b = (if b = a then n else vsdb_get_nonce ops db b) \<and>
     vsdb_get_balance ops (vsdb_set_nonce ops a n db) b = vsdb_get_balance ops db b"
  by (auto simp: vsdb_get_balance_def vsdb_get_nonce_def stored_at_set [OF ok] blank_account_def
      from_be_zero split: option.splits)

theorem vsdb_set_fields_witness:
  "vsdb_get_nonce demo_ops (vsdb_set_nonce demo_ops 1 8 (vsdb_new demo_ops)) 1 = 8"
  using vsdb_set_fields [OF demo_ops_ok, of 1 0 _ 1 8] by simp

text \<open>
  The cached state does so only for accounts that are in the cache. Setting the nonce of an
  account that is only in the store puts a default account into the cache, and from then on its
  balance reads as the default one.
\<close>

theorem set_nonce_shadows_balance:
  assumes "cache_accounts (es_db st) a = None"
  shows "es_get_nonce ops (es_set_nonce ops a n st) a = n \<and>
     es_get_balance ops (es_set_nonce ops a n st) a = ai_balance (default_info ops) \<and>
     es_get_balance ops (es_set_balance ops a v st) a = v \<and>
     es_get_nonce ops (es_set_balance ops a v st) a = ai_nonce (default_info ops)"
  using assms
  by (simp add: es_set_nonce_def es_set_balance_def Let_def cache_entry_def es_get_nonce_def
      es_get_balance_def hm_insert_def)

theorem set_nonce_shadows_balance_witness:
  "let st = demo_state\<lparr>es_db := \<lparr>cache_accounts = Map.empty,
                cache_inner = vsdb_set_balance demo_ops 1 50 (vsdb_new demo_ops)\<rparr>\<rparr>
   in es_get_balance demo_ops st 1 = 50 \<and> es_get_balance demo_ops (es_set_nonce demo_ops 1 3 st) 1 = 0"
proof -
  let ?st = "demo_state\<lparr>es_db := \<lparr>cache_accounts = Map.empty,
                cache_inner = vsdb_set_balance demo_ops 1 50 (vsdb_new demo_ops)\<rparr>\<rparr>"
  have "es_get_balance demo_ops ?st 1 = 50"
    by (simp add: es_get_balance_def vsdb_get_balance_def stored_at_set [OF demo_ops_ok])
  moreover have "es_get_balance demo_ops (es_set_nonce demo_ops 1 3 ?st) 1 = 0"
    using set_nonce_shadows_balance [of ?st 1 demo_ops 3 0] by (simp add: demo_ops_def)
  ultimately show ?thesis by simp
qed

section \<open>Block hashes\<close>

lemma bt_first_key: "bt_ok m \<Longrightarrow> m \<noteq> [] \<Longrightarrow> bt_get m k = Some v \<Longrightarrow> fst (hd m) \<le> k"
  using bt.first_least [of m "fst (hd m)" "snd (hd m)" "tl m" k v] by (cases m) auto

lemma bt_first_not_new:
  assumes "bt_ok m" and newer: "\<forall>k \<in> fst ` set m. k < number" and "m \<noteq> []"
  shows "fst (hd (bt_insert number v m)) \<noteq> number"
proof -
  obtain k w rest where m: "m = (k, w) # rest" using assms(3) by (cases m) auto
  have below: "k < number" using newer by (simp add: m)
  have "bt_get (bt_insert number v m) k = Some w" using below by (auto simp: bt_get_insert m)
  moreover from this have "bt_insert number v m \<noteq> []" by auto
  ultimately have "fst (hd (bt_insert number v m)) \<le> k" using bt_first_key [OF bt_ok_insert [OF assms(1)]] by blast
  with below show ?thesis by simp
qed

text \<open>
  Recording a block hash keeps at most 256 of them in memory, in order, and makes it readable
  through the database. A block newer than all recorded ones is kept, and what is dropped to make
  room is the oldest.
\<close>

theorem record_block_hash_window:
  assumes ok: "state_ok ops" and bt: "bt_ok (es_block_hashes st)" and len: "length (es_block_hashes st) \<le> 256"
    and newer: "\<forall>k \<in> fst ` set (es_block_hashes st). k < number"
  shows "let st' = record_block_hash ops number hash st in
     bt_ok (es_block_hashes st') \<and> length (es_block_hashes st') \<le> 256 \<and>
     bt_get (es_block_hashes st') number = Some hash \<and>
     db_block_hash ops (cache_inner (es_db st')) number = Inr hash \<and>
     (\<forall>k h. bt_get (es_block_hashes st) k = Some h \<longrightarrow> bt_get (es_block_hashes st') k = Some h \<or>
        (\<forall>k' h'. bt_get (es_block_hashes st') k' = Some h' \<longrightarrow> k < k'))"
proof -
  let ?m = "es_block_hashes st" and ?n = "bt_insert number hash (es_block_hashes st)"
  let ?st = "record_block_hash ops number hash st"
  have fresh: "bt_get ?m number = None" using newer by (force simp: map_of_eq_None_iff)
  have okn: "bt_ok ?n" using bt by (rule bt_ok_insert)
  have lenn: "length ?n = Suc (length ?m)" using bt fresh by (simp add: length_bt_insert)
  have hashes: "es_block_hashes ?st = (if 256 < length ?n then bt_remove (fst (hd ?n)) ?n else ?n)"
    by (simp add: record_block_hash_def Let_def)
  have db: "db_block_hash ops (cache_inner (es_db ?st)) number = Inr hash"
    using ok by (simp add: record_block_hash_def Let_def db_block_hash_def insert_block_hash_def
        state_ok_def kv_ok_simps)
  have get: "bt_get ?n k = (if k = number then Some hash else bt_get ?m k)" for k
    by (simp add: bt_get_insert)
  show ?thesis
  proof (cases "256 < length ?n")
    case False
    then show ?thesis using okn db get fresh by (auto simp: Let_def hashes)
  next
    case True
    then have full: "?m \<noteq> []" "?n \<noteq> []" using lenn len by auto
    let ?f = "fst (hd ?n)"
    have st: "es_block_hashes ?st = bt_remove ?f ?n" using True by (simp add: hashes)
    have f_in: "bt_contains ?n ?f" using full(2) by (auto simp: map_of_eq_None_iff)
    have "?f \<noteq> number" using bt newer full(1) by (rule bt_first_not_new)
    moreover have "length (bt_remove ?f ?n) \<le> 256"
      using f_in lenn len by (simp add: length_bt_remove)
    moreover have "bt_ok (bt_remove ?f ?n)" using okn by (rule bt_ok_remove)
    moreover have "bt_get (bt_remove ?f ?n) k = (if k = ?f then None else bt_get ?n k)" for k
      using okn by (rule bt_get_remove)
    moreover have "?f < k" if "bt_get ?n k = Some h" "k \<noteq> ?f" for k h
      using bt_first_key [OF okn full(2) that(1)] that(2) by simp
    ultimately show ?thesis using db fresh get by (auto simp: Let_def st)
  qed
qed

theorem record_block_hash_window_witness:
  "bt_get (es_block_hashes (record_block_hash demo_ops 5 77 demo_state)) 5 = Some 77"
  using record_block_hash_window [OF demo_ops_ok, of demo_state 5 77]
  by (simp add: demo_state_def bt_ok_def Let_def)

section \<open>Genesis\<close>

definition genesis_info ::
    "('b, 'a, 'k, 's, 't) state_ops \<Rightarrow> genesis_alloc \<Rightarrow> 'b account_info" where
  "genesis_info ops alloc =
     (let info = (default_info ops)\<lparr>ai_balance := ga_balance alloc, ai_nonce := ga_nonce alloc\<rparr>
      in if ga_code alloc \<noteq> [] then info\<lparr>ai_code := Some (bytecode_new_raw ops (ga_code alloc))\<rparr> else info)"

lemma genesis_info_fields [simp]:
  "ai_balance (genesis_info ops al) = ga_balance al" "ai_nonce (genesis_info ops al) = ga_nonce al"
  "ai_code_hash (genesis_info ops al) = ai_code_hash (default_info ops)"
  by (simp_all add: genesis_info_def Let_def)

lemma insert_slot_list:
  assumes ok: "state_ok ops"
  shows "stored_at ops (fold (\<lambda>(s, v). insert_storage ops a s v) ss db) b = stored_at ops db b"
    and "distinct (map fst ss) \<Longrightarrow> slot_at ops (fold (\<lambda>(s, v). insert_storage ops a s v) ss db) b t =
       (if b = a \<and> map_of ss t \<noteq> None then map_option (be_bytes 32) (map_of ss t) else slot_at ops db b t)"
proof (induction ss arbitrary: db)
  case (Cons p ss)
  obtain x y where p: "p = (x, y)" by (cases p)
  { case 1 show ?case using Cons.IH(1) by (simp add: p) }
  { case 2
    then have "map_of ss x = None" by (simp add: p map_of_eq_None_iff)
    with 2 Cons.IH(2) show ?case by (auto simp: p ok) }
qed simp_all

lemma genesis_account_at:
  assumes ok: "state_ok ops" and d: "distinct (map fst (ga_storage al))"
  shows "stored_at ops (fst (genesis_account ops (a, al) dt)) b =
      (if b = a then Some (stored_from_info (genesis_info ops al)) else stored_at ops (fst dt) b)"
    and "slot_at ops (fst (genesis_account ops (a, al) dt)) b t =
      (if b = a \<and> map_of (ga_storage al) t \<noteq> None then map_option (be_bytes 32) (map_of (ga_storage al) t)
       else slot_at ops (fst dt) b t)"
proof -
  have eq: "fst (genesis_account ops (a, al) dt) = fold (\<lambda>(s, v). insert_storage ops a s v) (ga_storage al)
      (insert_account ops a (genesis_info ops al) (fst dt))"
    by (cases dt) (simp add: genesis_account_def genesis_info_def Let_def)
  show "stored_at ops (fst (genesis_account ops (a, al) dt)) b =
      (if b = a then Some (stored_from_info (genesis_info ops al)) else stored_at ops (fst dt) b)"
    unfolding eq insert_slot_list(1) [OF ok] using ok by simp
  show "slot_at ops (fst (genesis_account ops (a, al) dt)) b t =
      (if b = a \<and> map_of (ga_storage al) t \<noteq> None then map_option (be_bytes 32) (map_of (ga_storage al) t)
       else slot_at ops (fst dt) b t)"
    unfolding eq insert_slot_list(2) [OF ok d] slot_at_insert_account ..
qed

definition alloc_ok :: "(address, genesis_alloc) btree \<Rightarrow> bool" where
  "alloc_ok A \<longleftrightarrow> bt_ok A \<and> (\<forall>(a, al) \<in> set A. bt_ok (ga_storage al))"

lemma bt_ok_distinct: "bt_ok m \<Longrightarrow> distinct (map fst m)"
  by (rule bt.distinct_keys)

lemma genesis_fold_at:
  assumes ok: "state_ok ops" and "distinct (map fst A)" "\<forall>(a, al) \<in> set A. bt_ok (ga_storage al)"
  shows "stored_at ops (fst (fold (genesis_account ops) A dt)) b =
      (case map_of A b of Some al \<Rightarrow> Some (stored_from_info (genesis_info ops al))
       | None \<Rightarrow> stored_at ops (fst dt) b)"
    and "slot_at ops (fst (fold (genesis_account ops) A dt)) b t =
      (case map_of A b of Some al \<Rightarrow> (if map_of (ga_storage al) t \<noteq> None
            then map_option (be_bytes 32) (map_of (ga_storage al) t) else slot_at ops (fst dt) b t)
       | None \<Rightarrow> slot_at ops (fst dt) b t)"
  using assms(2,3)
proof (induction A arbitrary: dt)
  case (Cons p A)
  obtain a al where p: "p = (a, al)" by (cases p)
  { case 1
    then have "map_of A a = None" "distinct (map fst (ga_storage al))"
      by (auto simp: p map_of_eq_None_iff bt_ok_distinct)
    with 1 Cons.IH(1) show ?case by (auto simp: p genesis_account_at(1) [OF ok] split: option.splits) }
  { case 2
    then have "map_of A a = None" "distinct (map fst (ga_storage al))"
      by (auto simp: p map_of_eq_None_iff bt_ok_distinct)
    with 2 Cons.IH(2) show ?case by (auto simp: p genesis_account_at(2) [OF ok] split: option.splits) }
qed simp_all

lemma from_genesis_stored:
  assumes ok: "state_ok ops" and al: "alloc_ok (gen_alloc g)"
  shows "stored_at ops (cache_inner (es_db (from_genesis ops g))) a =
      map_option (\<lambda>al. stored_from_info (genesis_info ops al)) (bt_get (gen_alloc g) a)"
    and "slot_at ops (cache_inner (es_db (from_genesis ops g))) a t =
      map_option (be_bytes 32) (Option.bind (bt_get (gen_alloc g) a) (\<lambda>al. bt_get (ga_storage al) t))"
    and "cache_accounts (es_db (from_genesis ops g)) = Map.empty"
proof -
  have A: "distinct (map fst (gen_alloc g))" "\<forall>(a, al) \<in> set (gen_alloc g). bt_ok (ga_storage al)"
    using al by (auto simp: alloc_ok_def bt_ok_distinct)
  note at = genesis_fold_at [OF ok A, of "(vsdb_new ops, mpt_new ops)" a]
  have db: "cache_inner (es_db (from_genesis ops g)) =
      fst (fold (genesis_account ops) (gen_alloc g) (vsdb_new ops, mpt_new ops))"
    by (simp add: from_genesis_def split_beta)
  show "stored_at ops (cache_inner (es_db (from_genesis ops g))) a =
      map_option (\<lambda>al. stored_from_info (genesis_info ops al)) (bt_get (gen_alloc g) a)"
    and "slot_at ops (cache_inner (es_db (from_genesis ops g))) a t =
      map_option (be_bytes 32) (Option.bind (bt_get (gen_alloc g) a) (\<lambda>al. bt_get (ga_storage al) t))"
    unfolding db at using ok by (auto split: option.splits)
  show "cache_accounts (es_db (from_genesis ops g)) = Map.empty"
    by (simp add: from_genesis_def split_beta)
qed

lemma from_genesis_nonce:
  assumes "state_ok ops" "alloc_ok (gen_alloc g)"
  shows "es_get_nonce ops (from_genesis ops g) a =
      (case bt_get (gen_alloc g) a of Some al \<Rightarrow> ga_nonce al | None \<Rightarrow> 0)"
  by (simp add: es_get_nonce_def vsdb_get_nonce_def from_genesis_stored [OF assms] split: option.splits)

text \<open>
  The initial state shows the genesis allocation: every allocated account has its balance, nonce
  and storage, every other account is empty, and the chain parameters are the document's.
\<close>

theorem from_genesis_allocates:
  assumes ok: "state_ok ops" and al: "alloc_ok (gen_alloc g)"
  shows "let st = from_genesis ops g in
     es_get_balance ops st a = (case bt_get (gen_alloc g) a of Some al \<Rightarrow> ga_balance al | None \<Rightarrow> 0) \<and>
     es_get_nonce ops st a = (case bt_get (gen_alloc g) a of Some al \<Rightarrow> ga_nonce al | None \<Rightarrow> 0) \<and>
     es_get_storage ops st a t =
       (case Option.bind (bt_get (gen_alloc g) a) (\<lambda>al. bt_get (ga_storage al) t) of Some v \<Rightarrow> v | None \<Rightarrow> 0) \<and>
     chain_id (es_config st) = gen_chain_id g \<and> block_gas_limit (es_config st) = gen_gas_limit g \<and>
     base_fee_per_gas (es_config st) = gen_base_fee_per_gas g"
proof -
  have A: "distinct (map fst (gen_alloc g))" "\<forall>(a, al) \<in> set (gen_alloc g). bt_ok (ga_storage al)"
    using al by (auto simp: alloc_ok_def bt_ok_distinct)
  let ?dt = "fold (genesis_account ops) (gen_alloc g) (vsdb_new ops, mpt_new ops)"
  note at = genesis_fold_at [OF ok A, of "(vsdb_new ops, mpt_new ops)" a]
  have st: "cache_inner (es_db (from_genesis ops g)) = fst ?dt"
    "cache_accounts (es_db (from_genesis ops g)) = Map.empty"
    "chain_id (es_config (from_genesis ops g)) = gen_chain_id g"
    "block_gas_limit (es_config (from_genesis ops g)) = gen_gas_limit g"
    "base_fee_per_gas (es_config (from_genesis ops g)) = gen_base_fee_per_gas g"
    by (simp_all add: from_genesis_def split_beta)
  show ?thesis
    unfolding Let_def es_get_balance_def es_get_nonce_def es_get_storage_def st vsdb_get_balance_def
      vsdb_get_nonce_def vsdb_get_storage_slot at
    using ok by (cases "bt_get (gen_alloc g) a") (auto split: option.splits)
qed

definition demo_genesis :: evm_genesis where
  "demo_genesis =
     \<lparr>gen_chain_id = 1337,
      gen_alloc = [(1, \<lparr>ga_balance = 50, ga_nonce = 2, ga_code = [96, 0], ga_storage = [(3, 4)]\<rparr>)],
      gen_gas_limit = default_gas_limit, gen_base_fee_per_gas = default_base_fee, gen_coinbase = 0,
      gen_timestamp = 0\<rparr>"

lemma demo_genesis_ok: "alloc_ok (gen_alloc demo_genesis)"
  by (simp add: alloc_ok_def demo_genesis_def bt_ok_def)

lemma demo_genesis_nonce: "state_ok ops \<Longrightarrow> es_get_nonce ops (from_genesis ops demo_genesis) 1 = 2"
  using from_genesis_nonce [OF _ demo_genesis_ok, of ops 1] by simp (simp add: demo_genesis_def)

theorem from_genesis_allocates_witness:
  "es_get_balance demo_ops (from_genesis demo_ops demo_genesis) 1 = 50 \<and>
   es_get_storage demo_ops (from_genesis demo_ops demo_genesis) 1 3 = 4"
  using from_genesis_allocates [OF demo_ops_ok demo_genesis_ok, of 1 3]
  by (simp add: Let_def) (simp add: demo_genesis_def)

text \<open>
  Genesis code is lost. The account is stored with the default code hash, which is the hash of the
  empty code, so no account of the initial state has code, whatever the document allocates: neither
  \<^verbatim>\<open>get_code\<close> nor the database that the executor reads shows it.
\<close>

theorem genesis_code_lost:
  assumes ok: "state_ok ops" and al: "alloc_ok (gen_alloc g)"
    and dflt: "ai_code_hash (default_info ops) = KECCAK_EMPTY ops"
  shows "let st = from_genesis ops g in es_get_code ops st a = [] \<and>
     (\<forall>info. db_basic ops (cache_inner (es_db st)) a = Inr (Some info) \<longrightarrow>
        ai_code_hash info = KECCAK_EMPTY ops \<and> ai_code info = ai_code (default_info ops))"
proof -
  have A: "distinct (map fst (gen_alloc g))" "\<forall>(a, al) \<in> set (gen_alloc g). bt_ok (ga_storage al)"
    using al by (auto simp: alloc_ok_def bt_ok_distinct)
  note at = genesis_fold_at(1) [OF ok A, of "(vsdb_new ops, mpt_new ops)" a]
  let ?db = "fst (fold (genesis_account ops) (gen_alloc g) (vsdb_new ops, mpt_new ops))"
  have st: "cache_inner (es_db (from_genesis ops g)) = ?db"
    "cache_accounts (es_db (from_genesis ops g)) = Map.empty"
    by (simp_all add: from_genesis_def split_beta)
  have stored: "from_be_bytes (sa_code_hash s) = KECCAK_EMPTY ops" if "stored_at ops ?db a = Some s" for s
    using that dflt ok by (auto simp: at split: option.splits)
  have "vsdb_get_code ops ?db a = []"
    using stored by (cases "stored_at ops ?db a") (simp_all add: vsdb_get_code_def)
  moreover have "ai_code_hash info = KECCAK_EMPTY ops \<and> ai_code info = ai_code (default_info ops)"
    if "db_basic ops ?db a = Inr (Some info)" for info
    using that stored by (auto simp: db_basic_def stored_to_info_def Let_def)
  ultimately show ?thesis by (simp add: Let_def es_get_code_def st)
qed

theorem genesis_code_lost_witness:
  "ga_code (the (bt_get (gen_alloc demo_genesis) 1)) = [96, 0] \<and>
   es_get_code demo_ops (from_genesis demo_ops demo_genesis) 1 = []"
proof -
  have "ai_code_hash (default_info demo_ops) = KECCAK_EMPTY demo_ops" by (simp add: demo_ops_def)
  from genesis_code_lost [OF demo_ops_ok demo_genesis_ok this, of 1] show ?thesis
    by (simp add: Let_def) (simp add: demo_genesis_def)
qed

text \<open>
  The state root is always 32 bytes, and it does not see storage: whatever the cached storage of
  an account is, flushing the account puts the same leaf into the trie.
\<close>

theorem state_root_ignores_storage:
  "length (fst (state_root ops st)) = 32 \<and>
   snd (flush_account ops [a \<mapsto> acc\<lparr>da_storage := m\<rparr>] ord a dt) =
     snd (flush_account ops [a \<mapsto> acc] ord a dt)"
  by (cases dt) (simp add: state_root_def Let_def split_beta flush_account_def)

end
