(* ===== verification/Genesis_Json.thy ===== *)
theory Genesis_Json
  imports Serde World_State_Spec
begin

text \<open>
  The JSON form of the types of \<^verbatim>\<open>nbnet-types\<close>, as their derived and hand-written serde implementations
  give it: the genesis document with its defaults and the hexadecimal code field, the chain configuration
  with the lower-case profile names, logs and receipts with the hexadecimal bloom, and \<^verbatim>\<open>EvmGenesis::load\<close>.

  JSON numbers and the codecs of alloy's integers, addresses, hashes and byte strings are parameters
  (\<open>alloy_serde\<close>); \<open>alloy_serde_ok\<close> says that these read back what they write.
\<close>

section \<open>The library's codecs\<close>

record 'n alloy_serde =
  number_as_u64 :: "'n \<Rightarrow> u64 option"
  number_of_u64 :: "u64 \<Rightarrow> 'n"
  u256_ser :: "u256 \<Rightarrow> 'n json"
  u256_de :: "'n json \<Rightarrow> string + u256"
  u256_key :: "u256 \<Rightarrow> string"
  u256_key_de :: "string \<Rightarrow> string + u256"
  address_ser :: "address \<Rightarrow> 'n json"
  address_de :: "'n json \<Rightarrow> string + address"
  address_key :: "address \<Rightarrow> string"
  address_key_de :: "string \<Rightarrow> string + address"
  b256_ser :: "b256 \<Rightarrow> 'n json"
  b256_de :: "'n json \<Rightarrow> string + b256"
  bytes_ser :: "bytes \<Rightarrow> 'n json"
  bytes_de :: "'n json \<Rightarrow> string + bytes"

definition alloy_serde_ok :: "'n alloy_serde \<Rightarrow> bool" where
  "alloy_serde_ok A \<longleftrightarrow>
     (\<forall>x. number_as_u64 A (number_of_u64 A x) = Some x) \<and>
     (\<forall>x. u256_de A (u256_ser A x) = Inr x) \<and> (\<forall>x. u256_key_de A (u256_key A x) = Inr x) \<and>
     (\<forall>x. address_de A (address_ser A x) = Inr x) \<and> (\<forall>x. address_ser A x \<noteq> JNull) \<and>
     (\<forall>x. address_key_de A (address_key A x) = Inr x) \<and>
     (\<forall>x. b256_de A (b256_ser A x) = Inr x) \<and> (\<forall>x. bytes_de A (bytes_ser A x) = Inr x)"

definition read_u64 :: "'n alloy_serde \<Rightarrow> ('n, u64) reader" where
  "read_u64 A v =
     (case v of
        JNumber n \<Rightarrow> (case number_as_u64 A n of Some x \<Rightarrow> Done x | None \<Rightarrow> Fail Invalid)
      | _ \<Rightarrow> Fail Invalid)"

definition write_u64 :: "'n alloy_serde \<Rightarrow> u64 \<Rightarrow> 'n json" where
  "write_u64 A x = JNumber (number_of_u64 A x)"

definition read_u8 :: "'n alloy_serde \<Rightarrow> ('n, u8) reader" where
  "read_u8 A v = and_then (read_u64 A v) (\<lambda>x. if x \<le> 255 then Done (ucast x) else Fail Invalid)"

definition read_u256 :: "'n alloy_serde \<Rightarrow> ('n, u256) reader" where
  "read_u256 A v = custom (u256_de A v)"

definition read_address :: "'n alloy_serde \<Rightarrow> ('n, address) reader" where
  "read_address A v = custom (address_de A v)"

definition read_b256 :: "'n alloy_serde \<Rightarrow> ('n, b256) reader" where
  "read_b256 A v = custom (b256_de A v)"

definition read_bytes :: "'n alloy_serde \<Rightarrow> ('n, bytes) reader" where
  "read_bytes A v = custom (bytes_de A v)"

section \<open>Genesis: genesis.rs\<close>

definition read_code :: "('n, bytes) reader" where
  "read_code v = and_then (read_string v) (\<lambda>s.
     case hex_bytes_deserialize s of Done bs \<Rightarrow> Done bs | Fail e \<Rightarrow> Fail (BadCode e) | Panic \<Rightarrow> Panic)"

definition alloc_fields :: "'n alloy_serde \<Rightarrow> 'n field_table" where
  "alloc_fields A =
     [(''balance'', checked (read_u256 A)), (''nonce'', checked (read_u64 A)), (''code'', checked read_code),
      (''storage'', checked (read_btree (u256_key_de A) (read_u256 A)))]"

definition build_alloc ::
    "'n alloy_serde \<Rightarrow> bool \<Rightarrow> (string \<rightharpoonup> 'n json) \<Rightarrow> (serde_error, genesis_alloc) outcome" where
  "build_alloc A pos p =
     and_then (required pos p ''balance'' (read_u256 A)) (\<lambda>balance.
     and_then (defaulted p ''nonce'' (read_u64 A) 0) (\<lambda>nonce.
     and_then (defaulted p ''code'' read_code []) (\<lambda>code.
     and_then (defaulted p ''storage'' (read_btree (u256_key_de A) (read_u256 A)) []) (\<lambda>storage.
     Done \<lparr>ga_balance = balance, ga_nonce = nonce, ga_code = code, ga_storage = storage\<rparr>))))"

definition read_alloc :: "'n alloy_serde \<Rightarrow> ('n, genesis_alloc) reader" where
  "read_alloc A = read_struct (alloc_fields A) (build_alloc A)"

definition write_alloc :: "'n alloy_serde \<Rightarrow> genesis_alloc \<Rightarrow> 'n json" where
  "write_alloc A g =
     JObject [(''balance'', u256_ser A (ga_balance g)), (''nonce'', write_u64 A (ga_nonce g)),
       (''code'', JString (hex_bytes_serialize (ga_code g))),
       (''storage'', write_btree (u256_key A) (u256_ser A) (ga_storage g))]"

definition genesis_fields :: "'n alloy_serde \<Rightarrow> 'n field_table" where
  "genesis_fields A =
     [(''chain_id'', checked (read_u64 A)),
      (''alloc'', checked (read_btree (address_key_de A) (read_alloc A))),
      (''gas_limit'', checked (read_u64 A)), (''base_fee_per_gas'', checked (read_u64 A)),
      (''coinbase'', checked (read_address A)), (''timestamp'', checked (read_u64 A))]"

definition build_genesis ::
    "'n alloy_serde \<Rightarrow> bool \<Rightarrow> (string \<rightharpoonup> 'n json) \<Rightarrow> (serde_error, evm_genesis) outcome" where
  "build_genesis A pos p =
     and_then (required pos p ''chain_id'' (read_u64 A)) (\<lambda>chain_id.
     and_then (required pos p ''alloc'' (read_btree (address_key_de A) (read_alloc A))) (\<lambda>alloc.
     and_then (defaulted p ''gas_limit'' (read_u64 A) default_gas_limit) (\<lambda>gas_limit.
     and_then (defaulted p ''base_fee_per_gas'' (read_u64 A) default_base_fee) (\<lambda>base_fee.
     and_then (defaulted p ''coinbase'' (read_address A) 0) (\<lambda>coinbase.
     and_then (defaulted p ''timestamp'' (read_u64 A) 0) (\<lambda>timestamp.
     Done \<lparr>gen_chain_id = chain_id, gen_alloc = alloc, gen_gas_limit = gas_limit,
           gen_base_fee_per_gas = base_fee, gen_coinbase = coinbase, gen_timestamp = timestamp\<rparr>))))))"

definition read_genesis :: "'n alloy_serde \<Rightarrow> ('n, evm_genesis) reader" where
  "read_genesis A = read_struct (genesis_fields A) (build_genesis A)"

definition write_genesis_doc :: "'n alloy_serde \<Rightarrow> evm_genesis \<Rightarrow> 'n json" where
  "write_genesis_doc A g =
     JObject [(''chain_id'', write_u64 A (gen_chain_id g)),
       (''alloc'', write_btree (address_key A) (write_alloc A) (gen_alloc g)),
       (''gas_limit'', write_u64 A (gen_gas_limit g)), (''base_fee_per_gas'', write_u64 A (gen_base_fee_per_gas g)),
       (''coinbase'', address_ser A (gen_coinbase g)), (''timestamp'', write_u64 A (gen_timestamp g))]"

text \<open>
  \<^verbatim>\<open>EvmGenesis::load\<close>. \<open>read_to_string\<close> is the file system and \<open>parse\<close> the grammar of JSON. The reader of the
  sources works on the text as it goes; here the text is parsed first, so a text that is not JSON
  gives the error of the parser even where the reader would have met another error before.
\<close>

datatype load_error = LoadIo string | LoadSyntax string | LoadData serde_error

definition load_genesis ::
    "'n alloy_serde \<Rightarrow> (string \<Rightarrow> string + string) \<Rightarrow> (string \<Rightarrow> string + 'n json) \<Rightarrow> string \<Rightarrow>
     (load_error, evm_genesis) outcome" where
  "load_genesis A read_to_string parse path =
     (case read_to_string path of
        Inl e \<Rightarrow> Fail (LoadIo e)
      | Inr text \<Rightarrow>
          (case parse text of
             Inl e \<Rightarrow> Fail (LoadSyntax e)
           | Inr v \<Rightarrow> (case read_genesis A v of
                         Done g \<Rightarrow> Done g | Fail e \<Rightarrow> Fail (LoadData e) | Panic \<Rightarrow> Panic)))"

section \<open>Configuration: config.rs\<close>

fun write_profile :: "compat_profile \<Rightarrow> 'n json" where
  "write_profile Modern = JString ''modern''"
| "write_profile Legacy = JString ''legacy''"

definition profile_variant :: "string \<Rightarrow> (serde_error, compat_profile) outcome" where
  "profile_variant s =
     (if s = ''modern'' then Done Modern else if s = ''legacy'' then Done Legacy else Fail (UnknownVariant s))"

text \<open>A variant without data is its name, or an object with the name as only member and null as its value.\<close>

definition read_profile :: "('n, compat_profile) reader" where
  "read_profile v =
     (case v of
        JString s \<Rightarrow> profile_variant s
      | JObject ((s, w) # ms) \<Rightarrow> and_then (profile_variant s) (\<lambda>c.
          case w of JNull \<Rightarrow> if ms = [] then Done c else Fail Invalid | _ \<Rightarrow> Fail Invalid)
      | _ \<Rightarrow> Fail Invalid)"

definition config_fields :: "'n alloy_serde \<Rightarrow> 'n field_table" where
  "config_fields A =
     [(''chain_id'', checked (read_u64 A)), (''block_gas_limit'', checked (read_u64 A)),
      (''base_fee_per_gas'', checked (read_u64 A)), (''compat_profile'', checked read_profile),
      (''min_base_fee'', checked (read_u64 A)), (''base_fee_change_denominator'', checked (read_u64 A)),
      (''elasticity_multiplier'', checked (read_u64 A))]"

definition build_config ::
    "'n alloy_serde \<Rightarrow> bool \<Rightarrow> (string \<rightharpoonup> 'n json) \<Rightarrow> (serde_error, evm_chain_config) outcome" where
  "build_config A pos p =
     and_then (required pos p ''chain_id'' (read_u64 A)) (\<lambda>cid.
     and_then (required pos p ''block_gas_limit'' (read_u64 A)) (\<lambda>limit.
     and_then (required pos p ''base_fee_per_gas'' (read_u64 A)) (\<lambda>base_fee.
     and_then (defaulted p ''compat_profile'' read_profile Modern) (\<lambda>profile.
     and_then (defaulted p ''min_base_fee'' (read_u64 A) default_min_base_fee) (\<lambda>min_fee.
     and_then (defaulted p ''base_fee_change_denominator'' (read_u64 A) default_base_fee_change_denom) (\<lambda>denom.
     and_then (defaulted p ''elasticity_multiplier'' (read_u64 A) default_elasticity_multiplier) (\<lambda>elasticity.
     Done \<lparr>chain_id = cid, block_gas_limit = limit, base_fee_per_gas = base_fee, compat_profile_of = profile,
           min_base_fee = min_fee, base_fee_change_denominator = denom,
           elasticity_multiplier = elasticity\<rparr>)))))))"

definition read_config :: "'n alloy_serde \<Rightarrow> ('n, evm_chain_config) reader" where
  "read_config A = read_struct (config_fields A) (build_config A)"

definition write_config :: "'n alloy_serde \<Rightarrow> evm_chain_config \<Rightarrow> 'n json" where
  "write_config A c =
     JObject [(''chain_id'', write_u64 A (chain_id c)), (''block_gas_limit'', write_u64 A (block_gas_limit c)),
       (''base_fee_per_gas'', write_u64 A (base_fee_per_gas c)),
       (''compat_profile'', write_profile (compat_profile_of c)),
       (''min_base_fee'', write_u64 A (min_base_fee c)),
       (''base_fee_change_denominator'', write_u64 A (base_fee_change_denominator c)),
       (''elasticity_multiplier'', write_u64 A (elasticity_multiplier c))]"

section \<open>Logs and receipts: receipt.rs\<close>

definition log_fields :: "'n alloy_serde \<Rightarrow> 'n field_table" where
  "log_fields A =
     [(''address'', checked (read_address A)), (''topics'', checked (read_vec (read_b256 A))),
      (''data'', checked (read_bytes A))]"

definition build_log :: "'n alloy_serde \<Rightarrow> bool \<Rightarrow> (string \<rightharpoonup> 'n json) \<Rightarrow> (serde_error, evm_log) outcome" where
  "build_log A pos p =
     and_then (required pos p ''address'' (read_address A)) (\<lambda>a.
     and_then (required pos p ''topics'' (read_vec (read_b256 A))) (\<lambda>topics.
     and_then (required pos p ''data'' (read_bytes A)) (\<lambda>data.
     Done \<lparr>log_address = a, log_topics = topics, log_data = data\<rparr>)))"

definition read_log :: "'n alloy_serde \<Rightarrow> ('n, evm_log) reader" where
  "read_log A = read_struct (log_fields A) (build_log A)"

definition write_log :: "'n alloy_serde \<Rightarrow> evm_log \<Rightarrow> 'n json" where
  "write_log A l =
     JObject [(''address'', address_ser A (log_address l)),
       (''topics'', JArray (map (b256_ser A) (log_topics l))), (''data'', bytes_ser A (log_data l))]"

definition read_bloom :: "('n, bytes) reader" where
  "read_bloom v = and_then (read_string v) (\<lambda>s.
     case bloom_deserialize s of Inr bs \<Rightarrow> Done bs | Inl e \<Rightarrow> Fail (BadBloom e))"

definition receipt_fields :: "'n alloy_serde \<Rightarrow> 'n field_table" where
  "receipt_fields A =
     [(''tx_hash'', checked (read_b256 A)), (''tx_index'', checked (read_u64 A)),
      (''block_hash'', checked (read_b256 A)), (''block_number'', checked (read_u64 A)),
      (''from'', checked (read_address A)), (''to'', checked (read_option (read_address A))),
      (''cumulative_gas_used'', checked (read_u64 A)), (''gas_used'', checked (read_u64 A)),
      (''contract_address'', checked (read_option (read_address A))),
      (''logs'', checked (read_vec (read_log A))), (''logs_bloom'', checked read_bloom),
      (''status'', checked (read_u8 A)), (''effective_gas_price'', checked (read_u256 A))]"

definition build_receipt ::
    "'n alloy_serde \<Rightarrow> bool \<Rightarrow> (string \<rightharpoonup> 'n json) \<Rightarrow> (serde_error, evm_receipt) outcome" where
  "build_receipt A pos p =
     and_then (required pos p ''tx_hash'' (read_b256 A)) (\<lambda>tx_hash.
     and_then (required pos p ''tx_index'' (read_u64 A)) (\<lambda>tx_index.
     and_then (required pos p ''block_hash'' (read_b256 A)) (\<lambda>block_hash.
     and_then (required pos p ''block_number'' (read_u64 A)) (\<lambda>block_number.
     and_then (required pos p ''from'' (read_address A)) (\<lambda>sender.
     and_then (optional pos p ''to'' (read_address A)) (\<lambda>to.
     and_then (required pos p ''cumulative_gas_used'' (read_u64 A)) (\<lambda>cumulative.
     and_then (required pos p ''gas_used'' (read_u64 A)) (\<lambda>gas_used.
     and_then (optional pos p ''contract_address'' (read_address A)) (\<lambda>contract.
     and_then (required pos p ''logs'' (read_vec (read_log A))) (\<lambda>logs.
     and_then (required pos p ''logs_bloom'' read_bloom) (\<lambda>bloom.
     and_then (required pos p ''status'' (read_u8 A)) (\<lambda>status.
     and_then (required pos p ''effective_gas_price'' (read_u256 A)) (\<lambda>price.
     Done \<lparr>rc_tx_hash = tx_hash, rc_tx_index = tx_index, rc_block_hash = block_hash,
           rc_block_number = block_number, rc_from = sender, rc_to = to, rc_cumulative_gas_used = cumulative,
           rc_gas_used = gas_used, rc_contract_address = contract, rc_logs = logs, rc_logs_bloom = bloom,
           rc_status = status, rc_effective_gas_price = price\<rparr>)))))))))))))"

definition read_receipt :: "'n alloy_serde \<Rightarrow> ('n, evm_receipt) reader" where
  "read_receipt A = read_struct (receipt_fields A) (build_receipt A)"

definition write_receipt :: "'n alloy_serde \<Rightarrow> evm_receipt \<Rightarrow> 'n json" where
  "write_receipt A r =
     JObject [(''tx_hash'', b256_ser A (rc_tx_hash r)), (''tx_index'', write_u64 A (rc_tx_index r)),
       (''block_hash'', b256_ser A (rc_block_hash r)), (''block_number'', write_u64 A (rc_block_number r)),
       (''from'', address_ser A (rc_from r)), (''to'', write_option (address_ser A) (rc_to r)),
       (''cumulative_gas_used'', write_u64 A (rc_cumulative_gas_used r)),
       (''gas_used'', write_u64 A (rc_gas_used r)),
       (''contract_address'', write_option (address_ser A) (rc_contract_address r)),
       (''logs'', JArray (map (write_log A) (rc_logs r))),
       (''logs_bloom'', JString (bloom_serialize (rc_logs_bloom r))),
       (''status'', write_u64 A (ucast (rc_status r))),
       (''effective_gas_price'', u256_ser A (rc_effective_gas_price r))]"

end
