(* ===== verification/Node.thy ===== *)
theory Node
  imports Rpc Genesis_Json
begin

text \<open>
  The binary \<^verbatim>\<open>nb\<close> (\<^verbatim>\<open>crates/node\<close>): the parts of \<^verbatim>\<open>run_node\<close>, which \<open>Node_Run\<close> puts together, the init command,
  and the helpers that set up a cluster. Consensus, networking, the block store and the file system belong to the hotmint
  framework and the operating system; what they return is an argument of the definitions. The types
  of quorum certificates, epochs, hashes and blocks stay open. Heights, views and validator ids are
  the \<^verbatim>\<open>u64\<close> inside their newtypes.

  Waiting is modelled by the successive readings a loop takes of its environment; a loop that has used
  up the readings it was given has not returned (\<open>None\<close>).
\<close>

section \<open>Genesis\<close>

definition repeat_byte :: "u8 \<Rightarrow> address" where
  "repeat_byte b = from_be_bytes (replicate 20 b)"

definition dev_account :: genesis_alloc where
  "dev_account =
     \<lparr>ga_balance = 10000 * 1000000000000000000, ga_nonce = 0, ga_code = [], ga_storage = []\<rparr>"

definition default_dev_genesis :: evm_genesis where
  "default_dev_genesis =
     \<lparr>gen_chain_id = 1337,
      gen_alloc = bt_insert (repeat_byte 0xBB) dev_account (bt_insert (repeat_byte 0xAA) dev_account []),
      gen_gas_limit = 30000000, gen_base_fee_per_gas = 1000000000, gen_coinbase = 0, gen_timestamp = 0\<rparr>"

text \<open>
  A file system as far as the sources look at it: which paths exist, with their contents. \<open>read_file\<close> may
  fail on a path that exists.
\<close>

type_synonym files = "string \<rightharpoonup> string"

definition choose_genesis ::
    "'n alloy_serde \<Rightarrow> (files \<Rightarrow> string \<Rightarrow> string + string) \<Rightarrow> (string \<Rightarrow> string + 'n json) \<Rightarrow> string \<Rightarrow> files \<Rightarrow>
     (load_error, evm_genesis) outcome" where
  "choose_genesis A read_file parse path fs =
     (if fs path \<noteq> None then load_genesis A (read_file fs) parse path else Done default_dev_genesis)"

section \<open>Identity\<close>

record genesis_validator =
  gv_id :: u64
  gv_public_key :: string

text \<open>
  The id of this node and whether it runs as a full node. \<open>set_ids\<close> are the ids of the validator set,
  \<open>fullnode_mode\<close> says that the configuration asks for a full node; the assertion panics.
\<close>

definition identify_validator ::
    "genesis_validator list \<Rightarrow> u64 list \<Rightarrow> bool \<Rightarrow> string \<Rightarrow> (unit, u64 \<times> bool) outcome" where
  "identify_validator validators set_ids fullnode_mode our_pk_hex =
     (case find (\<lambda>v. gv_public_key v = our_pk_hex) validators of
        Some gv \<Rightarrow> Done (gv_id gv, fullnode_mode)
      | None \<Rightarrow> if - 1 \<in> set set_ids then Panic else Done (- 1, True))"

section \<open>Restoring the consensus state\<close>

record ('q, 'e, 'v, 'h) consensus_state =
  cs_current_view :: u64
  cs_locked_qc :: "'q option"
  cs_highest_qc :: "'q option"
  cs_last_committed_height :: u64
  cs_current_epoch :: 'e
  cs_validator_set :: 'v
  cs_last_app_hash :: 'h

record ('q, 'e) persisted =
  load_current_view :: "u64 option"
  load_locked_qc :: "'q option"
  load_highest_qc :: "'q option"
  load_last_committed_height :: "u64 option"
  load_current_epoch :: "'e option"

definition unwrap_or :: "'a option \<Rightarrow> 'a \<Rightarrow> 'a" where
  "unwrap_or v d = (case v of Some x \<Rightarrow> x | None \<Rightarrow> d)"

definition restore_consensus ::
    "('e \<Rightarrow> 'v) \<Rightarrow> ('q, 'e) persisted \<Rightarrow> ('q, 'e, 'v, 'h) consensus_state \<Rightarrow> ('q, 'e, 'v, 'h) consensus_state" where
  "restore_consensus epoch_set pcs state =
     (let state = state\<lparr>cs_current_view := unwrap_or (load_current_view pcs) (cs_current_view state)\<rparr>;
          state = (case load_locked_qc pcs of Some qc \<Rightarrow> state\<lparr>cs_locked_qc := Some qc\<rparr> | None \<Rightarrow> state);
          state = (case load_highest_qc pcs of Some qc \<Rightarrow> state\<lparr>cs_highest_qc := Some qc\<rparr> | None \<Rightarrow> state);
          state = state\<lparr>cs_last_committed_height :=
                    unwrap_or (load_last_committed_height pcs) (cs_last_committed_height state)\<rparr>
      in case load_current_epoch pcs of
           Some epoch \<Rightarrow> state\<lparr>cs_validator_set := epoch_set epoch, cs_current_epoch := epoch\<rparr>
         | None \<Rightarrow> state)"

section \<open>The application\<close>

text \<open>The executor and, when the configuration serves RPC, the server state; the sink has sent nothing.\<close>

definition start_application ::
    "('b, 'a, 'k, 's, 't) state_ops \<Rightarrow> evm_genesis \<Rightarrow> bool \<Rightarrow>
     ('b, 'a, 'k, 's, 't) evm_executor \<times> ('b, 'a, 'k, 's, 't) evm_rpc_state option" where
  "start_application ops genesis serve_rpc =
     (let executor = setup_nonce_fn ops (executor_from_genesis ops genesis)
      in (executor,
          if serve_rpc
          then Some \<lparr>rpc_executor = executor, rpc_chain_id = gen_chain_id genesis, rpc_network_sink = Some []\<rparr>
          else None))"

text \<open>
  One transaction received from a peer; validation and insertion are one step here. \<open>Running_Node\<close> has them as
  the two steps they are.
\<close>

definition gossip_receive ::
    "('b, 'a, 'k, 's, 't) state_ops \<Rightarrow> tx_codec \<Rightarrow> bytes \<Rightarrow> ('b, 'a, 'k, 's, 't) evm_executor \<Rightarrow>
     ('b, 'a, 'k, 's, 't) evm_executor" where
  "gossip_receive ops C tx_bytes ex =
     (case app_validate_tx ops C ex tx_bytes of
        TvReject \<Rightarrow> ex
      | TvAccept priority gas_wanted \<Rightarrow>
          (case adapter_add_tx C (ex_state ex) (ex_txpool ex) tx_bytes priority gas_wanted of
             (_, pool) \<Rightarrow> ex\<lparr>ex_txpool := pool\<rparr>))"

section \<open>The sync responder\<close>

datatype 'i sync_request =
    GetStatus
  | GetBlocks u64 u64
  | GetSnapshots
  | GetSnapshotChunk u64 'i

datatype ('blk, 'q, 'sn, 'i, 'ch) sync_response =
    Status u64 u64 u64
  | Blocks "('blk \<times> 'q option) list"
  | Snapshots "'sn list"
  | SnapshotChunk u64 'i 'ch

record consensus_status =
  st_last_committed_height :: u64
  st_current_view :: u64
  st_epoch_number :: u64

record ('blk, 'q, 'sn, 'i, 'ch) sync_source =
  get_blocks_in_range :: "u64 \<Rightarrow> u64 \<Rightarrow> 'blk list"
  get_commit_qc :: "u64 \<Rightarrow> 'q option"
  block_height_of :: "'blk \<Rightarrow> u64"
  list_snapshots :: "'sn list"
  load_snapshot_chunk :: "u64 \<Rightarrow> 'i \<Rightarrow> 'ch"
  max_sync_batch :: u64

definition clamp_height :: "u64 \<Rightarrow> u64 \<Rightarrow> u64 \<Rightarrow> u64" where
  "clamp_height batch from_height to_height = min to_height (from_height + batch - 1)"

definition sync_respond ::
    "('blk, 'q, 'sn, 'i, 'ch) sync_source \<Rightarrow> consensus_status \<Rightarrow> 'i sync_request \<Rightarrow>
     ('blk, 'q, 'sn, 'i, 'ch) sync_response" where
  "sync_respond S s req =
     (case req of
        GetStatus \<Rightarrow> Status (st_last_committed_height s) (st_current_view s) (st_epoch_number s)
      | GetBlocks from_height to_height \<Rightarrow>
          (let clamped = clamp_height (max_sync_batch S) from_height to_height;
               blocks = get_blocks_in_range S from_height clamped
           in Blocks (map (\<lambda>b. (b, get_commit_qc S (block_height_of S b))) blocks))
      | GetSnapshots \<Rightarrow> Snapshots (list_snapshots S)
      | GetSnapshotChunk height chunk_index \<Rightarrow>
          SnapshotChunk height chunk_index (load_snapshot_chunk S height chunk_index))"

section \<open>Block sync\<close>

datatype wait_result = Connected | TimedOut

text \<open>The waiting loop; each reading is the number of connected peers and then the clock.\<close>

fun wait_for_peers :: "nat \<Rightarrow> (nat \<times> nat) list \<Rightarrow> wait_result option" where
  "wait_for_peers deadline [] = None"
| "wait_for_peers deadline ((notif_count, now) # readings) =
     (if notif_count > 0 then Some Connected
      else if now \<ge> deadline then Some TimedOut
      else wait_for_peers deadline readings)"

text \<open>
  The loop over the peers. \<open>sync_to_tip\<close> takes the peer and the state it may change (store, executor,
  epoch, height, hash) and returns whether it succeeded, and that state.
\<close>

fun sync_loop :: "('p \<Rightarrow> 'w \<Rightarrow> (string + unit) \<times> 'w) \<Rightarrow> 'p list \<Rightarrow> 'w \<Rightarrow> bool \<times> 'w" where
  "sync_loop sync_to_tip [] w = (False, w)"
| "sync_loop sync_to_tip (p # ps) w =
     (case sync_to_tip p w of
        (Inr _, w') \<Rightarrow> (True, w')
      | (Inl _, w') \<Rightarrow> sync_loop sync_to_tip ps w')"

text \<open>Adopting the result; \<open>tip_view\<close> is the view of the stored block at a height.\<close>

definition apply_synced ::
    "('e \<Rightarrow> 'v) \<Rightarrow> (u64 \<Rightarrow> u64 option) \<Rightarrow> 'e \<Rightarrow> u64 \<Rightarrow> 'h \<Rightarrow> ('q, 'e, 'v, 'h) consensus_state \<Rightarrow>
     ('q, 'e, 'v, 'h) consensus_state" where
  "apply_synced epoch_set block_view epoch height app_hash state =
     (let state = state\<lparr>cs_current_epoch := epoch, cs_validator_set := epoch_set epoch,
                        cs_last_committed_height := height, cs_last_app_hash := app_hash\<rparr>
      in if height > 0
         then (let tip_view = unwrap_or (block_view height) (cs_current_view state)
               in if tip_view > cs_current_view state then state\<lparr>cs_current_view := tip_view + 1\<rparr> else state)
         else state)"

text \<open>
  The whole phase before consensus starts. The state the sync works on is a record of what it reads
  back afterwards, the rest of it (store, executor, epochs in transit) stays open. \<open>readings\<close> are those
  of the waiting loop, \<open>connected\<close> is the number of peers read after it.
\<close>

record ('e, 'h, 'x) sync_world =
  sw_epoch :: 'e
  sw_height :: u64
  sw_app_hash :: 'h
  sw_rest :: 'x

definition initial_world ::
    "('q, 'e, 'v, 'h) consensus_state \<Rightarrow> 'x \<Rightarrow> ('e, 'h, 'x) sync_world" where
  "initial_world state x =
     \<lparr>sw_epoch = cs_current_epoch state, sw_height = cs_last_committed_height state,
      sw_app_hash = cs_last_app_hash state, sw_rest = x\<rparr>"

definition block_sync ::
    "('e \<Rightarrow> 'v) \<Rightarrow> ('x \<Rightarrow> u64 \<Rightarrow> u64 option) \<Rightarrow>
     ('p \<Rightarrow> ('e, 'h, 'x) sync_world \<Rightarrow> (string + unit) \<times> ('e, 'h, 'x) sync_world) \<Rightarrow>
     'p list \<Rightarrow> bool \<Rightarrow> nat \<Rightarrow> (nat \<times> nat) list \<Rightarrow> nat \<Rightarrow>
     ('q, 'e, 'v, 'h) consensus_state \<Rightarrow> ('e, 'h, 'x) sync_world \<Rightarrow>
     (('q, 'e, 'v, 'h) consensus_state \<times> ('e, 'h, 'x) sync_world) option" where
  "block_sync epoch_set block_view sync_to_tip sync_peers persistent_peers deadline readings connected state w =
     (if sync_peers \<noteq> []
      then (case wait_for_peers deadline readings of
              None \<Rightarrow> None
            | Some _ \<Rightarrow>
                if connected > 0
                then (case sync_loop sync_to_tip sync_peers w of (synced, w') \<Rightarrow>
                        Some (apply_synced epoch_set (block_view (sw_rest w')) (sw_epoch w') (sw_height w')
                                (sw_app_hash w') state, w'))
                else Some (state, w))
      else if persistent_peers
      then (case wait_for_peers deadline readings of None \<Rightarrow> None | Some _ \<Rightarrow> Some (state, w))
      else Some (state, w))"

section \<open>The command line and the supervisor\<close>

text \<open>\<^verbatim>\<open>PathBuf::join\<close> with a relative path.\<close>

definition path_join :: "string \<Rightarrow> string \<Rightarrow> string" where
  "path_join p q = (if p = [] \<or> last p = CHR ''/'' then p @ q else p @ ''/'' @ q)"

definition resolve_home :: "string option \<Rightarrow> string option \<Rightarrow> string" where
  "resolve_home cli_home env_home =
     (case cli_home of Some h \<Rightarrow> h | None \<Rightarrow> path_join (unwrap_or env_home ''.'') ''.nbnet'')"

definition evm_genesis_path :: "string \<Rightarrow> string" where
  "evm_genesis_path home = path_join (path_join home ''config'') ''evm-genesis.json''"

text \<open>
  The command \<^verbatim>\<open>init\<close>: \<open>init_node_dir\<close> is the framework's, \<open>print\<close> is \<^verbatim>\<open>to_string_pretty\<close> on the document and
  \<open>write_file\<close> the file system; a failure of the last two panics. \<open>Done True\<close> says that the default genesis
  was written. The file system is returned as it is left.
\<close>

definition run_init ::
    "'n alloy_serde \<Rightarrow> ('n json \<Rightarrow> string + string) \<Rightarrow> (string \<Rightarrow> files \<Rightarrow> (string + unit) \<times> files) \<Rightarrow>
     (string \<Rightarrow> string \<Rightarrow> files \<Rightarrow> (string + unit) \<times> files) \<Rightarrow> string \<Rightarrow> files \<Rightarrow> (string, bool) outcome \<times> files" where
  "run_init A print init_node_dir write_file home fs =
     (case init_node_dir home fs of
        (Inl e, fs) \<Rightarrow> (Fail e, fs)
      | (Inr _, fs) \<Rightarrow>
          (let path = evm_genesis_path home
           in if fs path \<noteq> None then (Done False, fs)
              else (case print (write_genesis_doc A default_dev_genesis) of
                      Inl _ \<Rightarrow> (Panic, fs)
                    | Inr json \<Rightarrow>
                        (case write_file path json fs of
                           (Inl _, fs) \<Rightarrow> (Panic, fs)
                         | (Inr _, fs) \<Rightarrow> (Done True, fs)))))"

text \<open>What ends a running node, and the exit code.\<close>

datatype node_event = EngineReturned | NetworkEnded | RpcEnded | SyncResponderEnded | CtrlC | SigTerm

fun supervise :: "node_event \<Rightarrow> nat" where
  "supervise EngineReturned = 0"
| "supervise NetworkEnded = 1"
| "supervise RpcEnded = 1"
| "supervise SyncResponderEnded = 1"
| "supervise CtrlC = 0"
| "supervise SigTerm = 0"

section \<open>Starting a node\<close>

text \<open>
  \<^verbatim>\<open>run_node\<close> up to the application, in the order of the sources; every step that can fail ends it. What the
  hotmint framework returns is the record \<open>framework\<close>: the configuration files, keys and addresses it parses
  and the network it creates. A failed step gives the context the sources attach, and the message.
\<close>

datatype startup_error = Startup string string | StartupGenesis load_error

record node_config =
  nc_laddr :: string
  nc_persistent_peers :: "string list"
  nc_fullnode :: bool
  nc_serve_rpc :: bool

record genesis_doc =
  gd_validators :: "genesis_validator list"
  gd_chain_id :: string

record ('kp, 'v, 'pm, 'ma, 'net, 'so) framework =
  load_config :: "string + node_config"
  load_priv_key :: "string + string"
  to_signing_key :: "string + unit"
  load_node_key :: "string + unit"
  to_keypair :: "string + 'kp"
  load_genesis_doc :: "string + genesis_doc"
  to_validator_set :: "genesis_doc \<Rightarrow> string + 'v"
  validator_ids :: "'v \<Rightarrow> u64 list"
  create_data_dir :: "string + unit"
  configure_vsdb :: "string + unit"
  no_peers :: 'pm
  parse_persistent_peers :: "string list \<Rightarrow> genesis_doc \<Rightarrow> string + 'pm"
  parse_multiaddr :: "string \<Rightarrow> string + 'ma"
  create_network :: "'ma \<Rightarrow> 'pm \<Rightarrow> 'kp \<Rightarrow> string + 'net"
  parse_socket_addr :: "string \<Rightarrow> string + 'so"

record ('q, 'e, 'v, 'h, 'b, 'a, 'k, 's, 't, 'pm, 'net, 'so) started_node =
  sn_config :: node_config
  sn_id :: u64
  sn_is_fullnode :: bool
  sn_genesis :: evm_genesis
  sn_consensus :: "('q, 'e, 'v, 'h) consensus_state"
  sn_peers :: 'pm
  sn_network :: 'net
  sn_executor :: "('b, 'a, 'k, 's, 't) evm_executor"
  sn_rpc :: "('so \<times> ('b, 'a, 'k, 's, 't) evm_rpc_state) option"

definition attempt :: "string \<Rightarrow> string + 'x \<Rightarrow> (startup_error, 'x) outcome" where
  "attempt ctx r = (case r of Inl e \<Rightarrow> Fail (Startup ctx e) | Inr x \<Rightarrow> Done x)"

definition never_fails :: "(unit, 'x) outcome \<Rightarrow> (startup_error, 'x) outcome" where
  "never_fails r = (case r of Done x \<Rightarrow> Done x | _ \<Rightarrow> Panic)"

text \<open>The listening address of the RPC server, when it is served; the sink has sent nothing yet.\<close>

definition rpc_part ::
    "('kp, 'v, 'pm, 'ma, 'net, 'so) framework \<Rightarrow> node_config \<Rightarrow> string \<Rightarrow>
     ('b, 'a, 'k, 's, 't) evm_rpc_state option \<Rightarrow>
     (startup_error, ('so \<times> ('b, 'a, 'k, 's, 't) evm_rpc_state) option) outcome" where
  "rpc_part FW config eth_rpc_addr rpc =
     (case rpc of
        None \<Rightarrow> Done None
      | Some st \<Rightarrow> and_then (attempt ''invalid RPC address'' (parse_socket_addr FW eth_rpc_addr))
                    (\<lambda>addr. Done (Some (addr, st))))"

definition start_node ::
    "('b, 'a, 'k, 's, 't) state_ops \<Rightarrow> 'n alloy_serde \<Rightarrow> (files \<Rightarrow> string \<Rightarrow> string + string) \<Rightarrow>
     (string \<Rightarrow> string + 'n json) \<Rightarrow> ('kp, 'v, 'pm, 'ma, 'net, 'so) framework \<Rightarrow> ('e \<Rightarrow> 'v) \<Rightarrow> ('q, 'e) persisted \<Rightarrow>
     (u64 \<Rightarrow> 'v \<Rightarrow> string \<Rightarrow> ('q, 'e, 'v, 'h) consensus_state) \<Rightarrow> string \<Rightarrow> string option \<Rightarrow> string option \<Rightarrow> files \<Rightarrow>
     (startup_error, ('q, 'e, 'v, 'h, 'b, 'a, 'k, 's, 't, 'pm, 'net, 'so) started_node) outcome" where
  "start_node ops A read_file parse FW epoch_set pcs with_chain_id home rpc_addr_override p2p_laddr_override fs =
     and_then (attempt ''failed to load config.toml'' (load_config FW)) (\<lambda>config.
     and_then (attempt ''failed to load priv_validator_key.json'' (load_priv_key FW)) (\<lambda>public_key.
     and_then (attempt [] (to_signing_key FW)) (\<lambda>_.
     and_then (attempt ''failed to load node_key.json'' (load_node_key FW)) (\<lambda>_.
     and_then (attempt [] (to_keypair FW)) (\<lambda>keypair.
     (let config = config\<lparr>nc_laddr := unwrap_or p2p_laddr_override (nc_laddr config)\<rparr>;
          eth_rpc_addr = unwrap_or rpc_addr_override ''127.0.0.1:8545'' in
     and_then (attempt ''failed to load genesis.json'' (load_genesis_doc FW)) (\<lambda>doc.
     and_then (attempt [] (to_validator_set FW doc)) (\<lambda>vset.
     and_then (case choose_genesis A read_file parse (evm_genesis_path home) fs of
                 Done g \<Rightarrow> Done g | Fail e \<Rightarrow> Fail (StartupGenesis e) | Panic \<Rightarrow> Panic) (\<lambda>genesis.
     and_then (never_fails (identify_validator (gd_validators doc) (validator_ids FW vset) (nc_fullnode config) public_key))
       (\<lambda>(our_vid, is_fullnode).
     and_then (attempt ''create data dir'' (create_data_dir FW)) (\<lambda>_.
     and_then (attempt ''configure vsdb'' (configure_vsdb FW)) (\<lambda>_.
     (let state = restore_consensus epoch_set pcs (with_chain_id our_vid vset (gd_chain_id doc)) in
     and_then (if nc_persistent_peers config = [] then Done (no_peers FW)
               else attempt [] (parse_persistent_peers FW (nc_persistent_peers config) doc)) (\<lambda>peers.
     and_then (attempt ''invalid p2p listen address'' (parse_multiaddr FW (nc_laddr config))) (\<lambda>listen_addr.
     and_then (attempt [] (create_network FW listen_addr peers keypair)) (\<lambda>network.
     (case start_application ops genesis (nc_serve_rpc config) of (executor, rpc) \<Rightarrow>
     and_then (rpc_part FW config eth_rpc_addr rpc) (\<lambda>rpc.
     Done \<lparr>sn_config = config, sn_id = our_vid, sn_is_fullnode = is_fullnode, sn_genesis = genesis, sn_consensus = state,
           sn_peers = peers, sn_network = network, sn_executor = executor, sn_rpc = rpc\<rparr>))))))))))))))))))"

section \<open>Clusters\<close>

text \<open>
  \<^verbatim>\<open>cluster.rs\<close>. The ports come from \<open>find_free_ports\<close>; indexing past the end panics. \<open>init_cluster\<close>,
  \<open>to_json\<close>, \<open>write_file\<close> and \<open>load\<close> are the framework and the file system; the files written are
  returned with the result, in order.
\<close>

definition split_ports :: "(nat \<Rightarrow> u16 list) \<Rightarrow> u32 \<Rightarrow> (unit, u16 \<times> u16 \<times> u16 list) outcome" where
  "split_ports find_free_ports validator_count =
     (let ports = find_free_ports (unat (validator_count * 3));
          n = unat validator_count; n2 = unat (validator_count * 2)
      in if 0 < length ports \<and> n < length ports \<and> n2 \<le> length ports
         then Done (ports ! 0, ports ! n, drop n2 ports) else Panic)"

fun write_genesis ::
    "(string \<Rightarrow> string \<Rightarrow> string + unit) \<Rightarrow> string \<Rightarrow> nat list \<Rightarrow> (string + unit) \<times> string list" where
  "write_genesis write_file json [] = (Inr (), [])"
| "write_genesis write_file json (i # is) =
     (let path = ''v'' @ show_base 10 i @ ''/config/evm-genesis.json''
      in case write_file path json of
           Inl e \<Rightarrow> (Inl e, [])
         | Inr _ \<Rightarrow> (case write_genesis write_file json is of (r, ws) \<Rightarrow> (r, path # ws)))"

definition init_evm_cluster ::
    "(nat \<Rightarrow> u16 list) \<Rightarrow> (u32 \<Rightarrow> u16 \<Rightarrow> u16 \<Rightarrow> string + unit) \<Rightarrow> string + string \<Rightarrow>
     (string \<Rightarrow> string \<Rightarrow> string + unit) \<Rightarrow> string + 'cl \<Rightarrow> u32 \<Rightarrow>
     (string, 'cl \<times> u16 list) outcome \<times> string list" where
  "init_evm_cluster find_free_ports init_cluster evm_genesis_json write_file load validator_count =
     (case split_ports find_free_ports validator_count of
        Panic \<Rightarrow> (Panic, [])
      | Fail _ \<Rightarrow> (Panic, [])
      | Done (p2p_base, rpc_base, eth_rpc_ports) \<Rightarrow>
          (case init_cluster validator_count p2p_base rpc_base of
             Inl e \<Rightarrow> (Fail e, [])
           | Inr _ \<Rightarrow>
               (case evm_genesis_json of
                  Inl e \<Rightarrow> (Fail e, [])
                | Inr json \<Rightarrow>
                    (case write_genesis write_file json [0..<unat validator_count] of
                       (Inl e, ws) \<Rightarrow> (Fail e, ws)
                     | (Inr _, ws) \<Rightarrow>
                         (case load of Inl e \<Rightarrow> (Fail e, ws) | Inr state \<Rightarrow> (Done (state, eth_rpc_ports), ws))))))"

record cluster_validator =
  cv_id :: u64
  cv_home_dir :: string

text \<open>The command lines of the processes started, and whether the loop ran to its end.\<close>

fun start_loop ::
    "(u16 \<Rightarrow> string) \<Rightarrow> string \<Rightarrow> u16 list \<Rightarrow> nat \<Rightarrow> cluster_validator list \<Rightarrow> string list list \<times> bool" where
  "start_loop host_port binary ports i [] = ([], True)"
| "start_loop host_port binary ports i (v # vs) =
     (if i < length ports
      then (case start_loop host_port binary ports (Suc i) vs of (cmds, ok) \<Rightarrow>
              ([binary, ''--home'', cv_home_dir v, ''node'', ''--rpc-addr'', host_port (ports ! i)] # cmds, ok))
      else ([], False))"

definition start_evm_nodes ::
    "(u16 \<Rightarrow> string) \<Rightarrow> string \<Rightarrow> cluster_validator list \<Rightarrow> u16 list \<Rightarrow> string list list \<times> bool" where
  "start_evm_nodes host_port binary validators eth_rpc_ports =
     start_loop host_port binary eth_rpc_ports 0 validators"

end
