(* ===== verification/Tx_Pool_Queue.thy ===== *)
theory Tx_Pool_Queue
  imports Tx_Pool
begin

text \<open>
  One sender's queue: the well-formedness invariant \<open>queue_inv\<close> and what promotion, admission,
  eviction and removal do to the entries it holds. The contents of a queue are the multiset of its
  (nonce, entry) pairs, pending and queued together, so that "nothing is lost or duplicated" is an
  equation between multisets.
\<close>

section \<open>Contents and invariant\<close>

definition queue_entries :: "sender_queue \<Rightarrow> (u64 \<times> pool_entry) multiset" where
  "queue_entries q = mset (sq_pending q) + mset (sq_queued q)"

definition queue_hashes :: "sender_queue \<Rightarrow> b256 multiset" where
  "queue_hashes q = image_mset (\<lambda>(n, e). entry_hash e) (queue_entries q)"

text \<open>Every entry is filed under its own nonce, in the queue of its own sender.\<close>

definition filed :: "address \<Rightarrow> (u64 \<times> pool_entry) multiset \<Rightarrow> bool" where
  "filed s M \<longleftrightarrow> (\<forall>(n, e) \<in># M. entry_sender e = s \<and> entry_nonce e = n)"

text \<open>The nonce that would extend the pending run is never waiting in the queued map.\<close>

definition settled :: "sender_queue \<Rightarrow> bool" where
  "settled q \<longleftrightarrow> (\<forall>l. bt_last_key (sq_pending q) = Some l \<longrightarrow> bt_get (sq_queued q) (l + 1) = None)"

definition queue_wf :: "sender_queue \<Rightarrow> bool" where
  "queue_wf q \<longleftrightarrow> bt_ok (sq_pending q) \<and> bt_ok (sq_queued q) \<and> bt_get (sq_queued q) 0 = None"

definition queue_bounded :: "evm_tx_pool_config \<Rightarrow> sender_queue \<Rightarrow> bool" where
  "queue_bounded cfg q \<longleftrightarrow>
     length (sq_queued q) \<le> max_queued_per_sender cfg \<and>
     length (sq_pending q) \<le> max_pending_per_sender cfg + max_queued_per_sender cfg"

definition queue_inv :: "evm_tx_pool_config \<Rightarrow> address \<Rightarrow> sender_queue \<Rightarrow> bool" where
  "queue_inv cfg s q \<longleftrightarrow>
     queue_wf q \<and> filed s (queue_entries q) \<and> settled q \<and> queue_bounded cfg q"

lemmas queue_defs = queue_wf_def settled_def queue_bounded_def queue_entries_def

lemma queue_inv_empty: "queue_inv cfg s empty_queue"
  by (simp add: queue_inv_def queue_defs filed_def empty_queue_def)

lemma queue_hashes_empty [simp]: "queue_hashes empty_queue = {#}"
  by (simp add: queue_hashes_def queue_entries_def empty_queue_def)

section \<open>Promotion\<close>

text \<open>The loop starts right after the last pending nonce, or anywhere when nothing is pending.\<close>

definition promotes_from :: "u64 \<Rightarrow> (u64, pool_entry) btree \<Rightarrow> bool" where
  "promotes_from nxt pending \<longleftrightarrow> (\<forall>l. bt_last_key pending = Some l \<longrightarrow> nxt = l + 1)"

lemma promotes_from_fresh:
  assumes "bt_ok p" "promotes_from nxt p" "nxt \<noteq> 0"
  shows "bt_get p nxt = None" and "bt_last_key (bt_insert nxt e p) = Some nxt"
proof -
  have below: "l < nxt" if "bt_last_key p = Some l" for l
  proof -
    have "nxt = l + 1" using assms(2) that by (simp add: promotes_from_def)
    with assms(3) show ?thesis using word_less_plus_one [of l] by auto
  qed
  show "bt_get p nxt = None"
  proof (cases "bt_last_key p")
    case (Some l)
    with below bt_last_key_greatest [OF assms(1) Some] show ?thesis
      by (metis leD option.exhaust)
  qed simp
  show "bt_last_key (bt_insert nxt e p) = Some nxt"
    using below by (auto simp: bt_last_key_insert assms(1) max_def split: option.splits)
qed

lemma promote_loop_spec:
  assumes "bt_ok p" "bt_ok q" "bt_get q 0 = None" "promotes_from nxt p"
    and "promote_loop nxt p q = (p', q')"
  shows "bt_ok p' \<and> bt_ok q' \<and> bt_get q' 0 = None \<and> mset p' + mset q' = mset p + mset q \<and>
         length q' \<le> length q \<and> (\<forall>l. bt_last_key p' = Some l \<longrightarrow> bt_get q' (l + 1) = None)"
  using assms
proof (induction nxt p q rule: promote_loop.induct)
  case (1 nxt p q)
  show ?case
  proof (cases "bt_get q nxt")
    case None
    then show ?thesis
      using "1.prems" by (auto simp: promote_loop.simps [of nxt p q] promotes_from_def)
  next
    case (Some e)
    with "1.prems"(3) have nz: "nxt \<noteq> 0" by auto
    note fresh = promotes_from_fresh [OF "1.prems"(1,4) nz]
    let ?p = "bt_insert nxt e p" and ?q = "bt_remove nxt q"
    have "bt_ok ?p \<and> bt_ok ?q \<and> bt_get ?q 0 = None"
      using "1.prems"(1-3) by (simp add: bt_simps)
    moreover have "promotes_from (nxt + 1) ?p" using fresh(2) by (simp add: promotes_from_def)
    moreover have "promote_loop (nxt + 1) ?p ?q = (p', q')"
      using "1.prems"(5) Some by (simp add: promote_loop.simps [of nxt p q])
    moreover have "mset ?p + mset ?q = mset p + mset q"
      using mset_bt_insert_new [OF fresh(1)] mset_bt_remove [OF Some] by simp
    moreover have "length ?q \<le> length q" by (simp add: length_bt_remove)
    ultimately show ?thesis using "1.IH" [OF Some] by auto
  qed
qed

lemma promote_spec:
  assumes "queue_wf q"
  shows "queue_wf (promote_queued_static q c)" and "settled (promote_queued_static q c)"
    and "queue_entries (promote_queued_static q c) = queue_entries q"
    and "length (sq_queued (promote_queued_static q c)) \<le> length (sq_queued q)"
proof -
  let ?nxt = "case bt_last_key (sq_pending q) of None \<Rightarrow> c | Some n \<Rightarrow> n + 1"
  obtain p' q' where loop: "promote_loop ?nxt (sq_pending q) (sq_queued q) = (p', q')"
    by fastforce
  have from': "promotes_from ?nxt (sq_pending q)" by (simp add: promotes_from_def)
  have eq: "promote_queued_static q c = q\<lparr>sq_pending := p', sq_queued := q'\<rparr>"
    by (simp add: promote_queued_static_def loop)
  note spec = promote_loop_spec [OF _ _ _ from' loop]
  show "queue_wf (promote_queued_static q c)" "settled (promote_queued_static q c)"
    "queue_entries (promote_queued_static q c) = queue_entries q"
    "length (sq_queued (promote_queued_static q c)) \<le> length (sq_queued q)"
    using spec assms by (simp_all add: eq queue_defs)
qed

lemma promote_settled:
  assumes "settled q" "sq_pending q \<noteq> []"
  shows "promote_queued_static q c = q"
proof -
  obtain l where l: "bt_last_key (sq_pending q) = Some l" using assms(2) by (simp add: bt_last_key_def)
  then have "bt_get (sq_queued q) (l + 1) = None" using assms(1) by (simp add: settled_def)
  with l show ?thesis by (simp add: promote_queued_static_def promote_loop.simps)
qed

lemma length_queue_entries: "size (queue_entries q) = length (sq_pending q) + length (sq_queued q)"
  by (simp add: queue_entries_def)

lemma promote_length:
  "queue_wf q \<Longrightarrow>
     length (sq_pending (promote_queued_static q c)) \<le> length (sq_pending q) + length (sq_queued q)"
  using promote_spec(3) [of q c] length_queue_entries [of q]
    length_queue_entries [of "promote_queued_static q c"] by simp

section \<open>Admission\<close>

definition goes_pending :: "sender_queue \<Rightarrow> u64 \<Rightarrow> u64 \<Rightarrow> bool" where
  "goes_pending q cur n \<longleftrightarrow> n = cur \<or> bt_contains (sq_pending q) (saturating_sub n 1)"

definition bumped_tip :: "evm_tx_pool_config \<Rightarrow> pool_entry \<Rightarrow> u64" where
  "bumped_tip cfg x = saturating_mul (pe_effective_tip x) (100 + replacement_bump_pct cfg) div 100"

definition bump_ok :: "evm_tx_pool_config \<Rightarrow> pool_entry \<Rightarrow> pool_entry \<Rightarrow> bool" where
  "bump_ok cfg x e \<longleftrightarrow> bumped_tip cfg x \<le> pe_effective_tip e"

text \<open>The four ways a submission can be admitted.\<close>

lemma queue_admit_cases [consumes 1, case_names PendingNew PendingReplace QueuedNew QueuedReplace]:
  assumes "queue_admit cfg q cur n e = Inr (old, q')"
  obtains "goes_pending q cur n" "bt_get (sq_pending q) n = None" "old = None"
      "length (sq_pending q) < max_pending_per_sender cfg"
      "q' = q\<lparr>sq_pending := bt_insert n e (sq_pending q)\<rparr>"
  | x where "goes_pending q cur n" "bt_get (sq_pending q) n = Some x" "old = Some (entry_hash x)"
      "bump_ok cfg x e" "q' = q\<lparr>sq_pending := bt_insert n e (sq_pending q)\<rparr>"
  | "\<not> goes_pending q cur n" "bt_get (sq_queued q) n = None" "old = None"
      "length (sq_queued q) < max_queued_per_sender cfg"
      "q' = q\<lparr>sq_queued := bt_insert n e (sq_queued q)\<rparr>"
  | x where "\<not> goes_pending q cur n" "bt_get (sq_queued q) n = Some x" "old = Some (entry_hash x)"
      "bump_ok cfg x e" "q' = q\<lparr>sq_queued := bt_insert n e (sq_queued q)\<rparr>"
proof (cases "goes_pending q cur n")
  case True
  show ?thesis
  proof (cases "bt_get (sq_pending q) n")
    case None
    with True assms that(1) show ?thesis
      by (auto simp: queue_admit_def Let_def goes_pending_def split: if_splits)
  next
    case (Some x)
    with True assms that(2) show ?thesis
      by (auto simp: queue_admit_def Let_def goes_pending_def bump_ok_def bumped_tip_def not_less split: if_splits)
  qed
next
  case False
  show ?thesis
  proof (cases "bt_get (sq_queued q) n")
    case None
    with False assms that(3) show ?thesis
      by (auto simp: queue_admit_def Let_def goes_pending_def split: if_splits)
  next
    case (Some x)
    with False assms that(4) show ?thesis
      by (auto simp: queue_admit_def Let_def goes_pending_def bump_ok_def bumped_tip_def not_less split: if_splits)
  qed
qed

text \<open>The two ways it can be refused.\<close>

lemma queue_admit_refused:
  assumes "queue_admit cfg q cur n e = Inl err"
  shows "(err = SenderQueueFull \<and> (max_pending_per_sender cfg \<le> length (sq_pending q) \<or>
            max_queued_per_sender cfg \<le> length (sq_queued q))) \<or>
         (\<exists>x. err = ReplacementUnderpriced (bumped_tip cfg x) (pe_effective_tip e) \<and>
            (n, x) \<in># queue_entries q \<and> \<not> bump_ok cfg x e)"
proof -
  have mem: "(n, x) \<in># queue_entries q" if "bt_get (sq_pending q) n = Some x \<or> bt_get (sq_queued q) n = Some x"
    for x using that by (auto simp: queue_entries_def dest: map_of_SomeD)
  define m where "m = (if goes_pending q cur n then sq_pending q else sq_queued q)"
  show ?thesis
  proof (cases "bt_get m n")
    case None
    with assms show ?thesis
      by (auto simp: m_def queue_admit_def Let_def goes_pending_def split: if_splits)
  next
    case (Some x)
    then have "(n, x) \<in># queue_entries q" using mem by (auto simp: m_def split: if_splits)
    with Some assms show ?thesis
      by (auto simp: m_def queue_admit_def Let_def goes_pending_def bump_ok_def bumped_tip_def split: if_splits)
  qed
qed

lemma not_pending_next:
  assumes "\<not> goes_pending q cur n" "cur \<le> n"
  shows "n \<noteq> 0" and "bt_last_key (sq_pending q) = Some l \<Longrightarrow> n \<noteq> l + 1"
proof -
  show nz: "n \<noteq> 0" using assms by (auto simp: goes_pending_def)
  show "n \<noteq> l + 1" if "bt_last_key (sq_pending q) = Some l"
  proof
    assume n: "n = l + 1"
    then have "saturating_sub n 1 = l"
      using nz word_less_plus_one [of l] by (simp add: saturating_sub_def word_le_nat_alt unat_gt_0 Suc_le_eq)
    with assms(1) bt_last_key_present [OF that] show False by (simp add: goes_pending_def)
  qed
qed

lemma filed_add: "filed s (add_mset (n, e) M) \<longleftrightarrow> entry_sender e = s \<and> entry_nonce e = n \<and> filed s M"
  by (auto simp: filed_def)

lemma filed_subset: "filed s M \<Longrightarrow> N \<subseteq># M \<Longrightarrow> filed s N"
  by (auto simp: filed_def dest: mset_subset_eqD)

text \<open>What admission does to the contents, before promotion.\<close>

lemma queue_admit_new:
  assumes "queue_admit cfg q cur n e = Inr (None, q')"
  shows "queue_entries q' = add_mset (n, e) (queue_entries q)"
  using assms by (cases rule: queue_admit_cases) (simp_all add: queue_entries_def mset_bt_insert_new)

lemma queue_admit_replace:
  assumes "queue_admit cfg q cur n e = Inr (Some h, q')" "queue_wf q"
  obtains x where "entry_hash x = h" "bump_ok cfg x e" "(n, x) \<in># queue_entries q"
    "add_mset (n, x) (queue_entries q') = add_mset (n, e) (queue_entries q)"
  using assms(1)
proof (cases rule: queue_admit_cases)
  case (PendingReplace x)
  with assms(2) that [of x] show thesis
    using mset_bt_insert_old [of "sq_pending q" n x e] by (auto simp: queue_defs dest: map_of_SomeD)
next
  case (QueuedReplace x)
  with assms(2) that [of x] show thesis
    using mset_bt_insert_old [of "sq_queued q" n x e] by (auto simp: queue_defs dest: map_of_SomeD)
qed simp_all

lemma queue_admit_wf:
  assumes "queue_admit cfg q cur n e = Inr (old, q')" "queue_wf q" "cur \<le> n"
  shows "queue_wf q'"
  using assms(1)
proof (cases rule: queue_admit_cases)
  case QueuedNew
  with assms(2,3) not_pending_next(1) show ?thesis by (simp add: queue_wf_def bt_simps)
next
  case (QueuedReplace x)
  with assms(2,3) not_pending_next(1) show ?thesis by (simp add: queue_wf_def bt_simps)
qed (use assms(2) in \<open>simp_all add: queue_wf_def bt_simps\<close>)

lemma queue_admit_filed:
  assumes "queue_admit cfg q cur n e = Inr (old, q')" "queue_wf q"
    and "filed s (queue_entries q)" "entry_sender e = s" "entry_nonce e = n"
  shows "filed s (queue_entries q')"
proof (cases old)
  case None
  with assms show ?thesis by (simp add: queue_admit_new filed_add)
next
  case (Some h)
  then obtain x where "add_mset (n, x) (queue_entries q') = add_mset (n, e) (queue_entries q)"
    using queue_admit_replace assms(1,2) by metis
  then have "filed s (add_mset (n, x) (queue_entries q'))" using assms(3-5) by (simp add: filed_add)
  then show ?thesis by (simp add: filed_add)
qed

lemma queued_insert_bounded:
  assumes "\<not> goes_pending q cur n" "cur \<le> n" "queue_inv cfg s q"
    and q': "q' = q\<lparr>sq_queued := bt_insert n e (sq_queued q)\<rparr>"
    and len: "length (sq_queued q') \<le> max_queued_per_sender cfg"
  shows "queue_bounded cfg (promote_queued_static q' cur)"
proof -
  have nz: "n \<noteq> 0" by (rule not_pending_next(1) [OF assms(1,2)])
  have wf': "queue_wf q'"
    using assms(3) nz by (simp add: q' queue_inv_def queue_wf_def bt_simps)
  show ?thesis
  proof (cases "sq_pending q = []")
    case True
    then show ?thesis using promote_spec(4) [OF wf', of cur] promote_length [OF wf', of cur] len
      by (simp add: queue_bounded_def q')
  next
    case False
    have "settled q'"
      using assms(3) not_pending_next(2) [OF assms(1,2)]
      by (auto simp: settled_def q' queue_inv_def bt_get_insert)
    then have "promote_queued_static q' cur = q'" using False by (intro promote_settled) (simp_all add: q')
    then show ?thesis using assms(3) len by (simp add: queue_bounded_def queue_inv_def q')
  qed
qed

text \<open>Admission followed by promotion keeps the bounds, although promotion itself checks none.\<close>

lemma queue_admit_bounded:
  assumes "queue_admit cfg q cur n e = Inr (old, q')" "queue_inv cfg s q" "cur \<le> n"
  shows "queue_bounded cfg (promote_queued_static q' cur)"
proof -
  have wf: "queue_wf q" and st: "settled q" and bd: "queue_bounded cfg q"
    using assms(2) by (simp_all add: queue_inv_def)
  have wf': "queue_wf q'" using queue_admit_wf assms(1,3) wf by blast
  note len = promote_spec(4) [OF wf', of cur] promote_length [OF wf', of cur]
  from assms(1) show ?thesis
  proof (cases rule: queue_admit_cases)
    case PendingNew
    with wf bd len show ?thesis by (simp add: queue_defs length_bt_insert)
  next
    case (PendingReplace x)
    have "bt_last_key (sq_pending q') = bt_last_key (sq_pending q)"
    proof -
      obtain l where l: "bt_last_key (sq_pending q) = Some l"
        using PendingReplace(2) by (cases "sq_pending q") (auto simp: bt_last_key_def)
      with PendingReplace wf bt_last_key_greatest [OF _ l PendingReplace(2)] show ?thesis
        by (simp add: bt_last_key_insert queue_wf_def max_def)
    qed
    then have "settled q'" using st PendingReplace(5) by (simp add: settled_def)
    moreover have "sq_pending q' \<noteq> []"
      using PendingReplace(5) bt_get_insert [of n e "sq_pending q" n] by auto
    ultimately have "promote_queued_static q' cur = q'" by (rule promote_settled)
    with PendingReplace wf bd show ?thesis by (simp add: queue_defs length_bt_insert)
  next
    case QueuedNew
    then show ?thesis
      using wf queued_insert_bounded [OF _ assms(3,2)] by (simp add: queue_wf_def length_bt_insert)
  next
    case (QueuedReplace x)
    then show ?thesis
      using wf bd queued_insert_bounded [OF _ assms(3,2)]
      by (simp add: queue_wf_def queue_bounded_def length_bt_insert)
  qed
qed

lemma queue_admit_inv:
  assumes "queue_admit cfg q cur n e = Inr (old, q')" "queue_inv cfg s q" "cur \<le> n"
    and "entry_sender e = s" "entry_nonce e = n"
  shows "queue_inv cfg s (promote_queued_static q' cur)"
proof -
  have wf: "queue_wf q" using assms(2) by (simp add: queue_inv_def)
  have wf': "queue_wf q'" using queue_admit_wf assms(1,3) wf by blast
  have "filed s (queue_entries q')"
    using queue_admit_filed [OF assms(1) wf] assms(2,4,5) by (simp add: queue_inv_def)
  then show ?thesis
    using promote_spec [OF wf', of cur] queue_admit_bounded [OF assms(1-3)]
    by (simp add: queue_inv_def)
qed

section \<open>Removal\<close>

text \<open>Taking one entry out of the pending map, as payload selection does.\<close>

lemma settled_remove_first:
  assumes "queue_wf q" "settled q" "sq_pending q = (n, e) # rest"
  shows "settled (q\<lparr>sq_pending := bt_remove n (sq_pending q)\<rparr>)"
  using assms by (auto simp: settled_def bt_last_key_def split: if_splits)

lemma remove_pending_entries:
  "bt_get (sq_pending q) n = Some e \<Longrightarrow>
     queue_entries q = add_mset (n, e) (queue_entries (q\<lparr>sq_pending := bt_remove n (sq_pending q)\<rparr>))"
  using mset_bt_remove [of "sq_pending q" n e] by (simp add: queue_entries_def)

lemma queue_inv_remove_first:
  assumes "queue_inv cfg s q" "sq_pending q = (n, e) # rest"
  shows "queue_inv cfg s (q\<lparr>sq_pending := bt_remove n (sq_pending q)\<rparr>)"
proof -
  let ?q = "q\<lparr>sq_pending := bt_remove n (sq_pending q)\<rparr>"
  have "settled ?q" using assms settled_remove_first by (simp add: queue_inv_def)
  moreover have "filed s (queue_entries ?q)"
    using assms remove_pending_entries [of q n e] by (simp add: queue_inv_def filed_add)
  ultimately show ?thesis using assms
    by (auto simp: queue_inv_def queue_wf_def queue_bounded_def bt_simps bt_ok_Cons)
qed

section \<open>Eviction\<close>

text \<open>\<open>evict\<close> keeps exactly the entries that are not below the account nonce.\<close>

lemma evict_loop:
  "fold (\<lambda>n (hs, m). case bt_get m n of
            None \<Rightarrow> (hs, m) | Some e \<Rightarrow> (hs @ [entry_hash e], bt_remove n m))
     (map fst A) (hs, A @ B) = (hs @ map (\<lambda>(n, e). entry_hash e) A, B)"
  by (induction A arbitrary: hs) auto

lemma evict_spec:
  assumes "bt_ok m"
  shows "evict c m = (map (\<lambda>(n, e). entry_hash e) (filter (\<lambda>(n, _). n < c) m),
                      filter (\<lambda>(n, _). \<not> n < c) m)"
proof -
  let ?A = "bt_range_below c m" and ?B = "dropWhile (\<lambda>(n, _). n < c) m"
  have "m = ?A @ ?B" by (simp add: bt_range_below_def)
  then have "evict c m = (map (\<lambda>(n, e). entry_hash e) ?A, ?B)"
    using evict_loop [of ?A "[]" ?B] by (simp add: evict_def)
  then show ?thesis using bt_split_below [OF assms, of c] by simp
qed

lemma last_key_filter_above:
  assumes "bt_ok m" "filter (\<lambda>(n, _). \<not> n < c) m \<noteq> []"
  shows "bt_last_key (filter (\<lambda>(n, _). \<not> n < c) m) = bt_last_key m"
proof -
  let ?A = "takeWhile (\<lambda>(n, _). n < c) m" and ?B = "dropWhile (\<lambda>(n, _). n < c) m"
  have B: "filter (\<lambda>(n, _). \<not> n < c) m = ?B" using bt_split_below [OF assms(1)] by metis
  have "last (?A @ ?B) = last ?B" by (rule last_appendR) (use assms(2) B in simp)
  then have "last m = last ?B" by simp
  moreover have "m \<noteq> []" using assms(2) by auto
  ultimately show ?thesis using B assms(2) by (simp add: bt_last_key_def)
qed

text \<open>One sender's share of a commit.\<close>

lemma commit_queue_spec:
  assumes "queue_inv cfg s q" "commit_queue c q = (hs, q')"
  shows "queue_inv cfg s q'"
    and "queue_entries q' = filter_mset (\<lambda>(n, _). c \<le> n) (queue_entries q)"
    and "mset hs = image_mset (\<lambda>(n, e). entry_hash e) (filter_mset (\<lambda>(n, _). n < c) (queue_entries q))"
proof -
  let ?keep = "filter (\<lambda>(n, _). \<not> n < c) :: (u64, pool_entry) btree \<Rightarrow> _"
  let ?q = "q\<lparr>sq_pending := ?keep (sq_pending q), sq_queued := ?keep (sq_queued q)\<rparr>"
  have ok: "bt_ok (sq_pending q)" "bt_ok (sq_queued q)"
    using assms(1) by (simp_all add: queue_inv_def queue_wf_def)
  have q': "q' = promote_queued_static ?q c"
    and hs: "hs = map (\<lambda>(n, e). entry_hash e) (filter (\<lambda>(n, _). n < c) (sq_pending q))
                @ map (\<lambda>(n, e). entry_hash e) (filter (\<lambda>(n, _). n < c) (sq_queued q))"
    using assms(2) by (simp_all add: commit_queue_def evict_spec ok)
  have wf: "queue_wf ?q"
    using assms(1) by (simp add: queue_inv_def queue_wf_def bt_ok_filter bt_get_filter_key)
  have ent: "queue_entries ?q = filter_mset (\<lambda>(n, _). c \<le> n) (queue_entries q)"
    by (simp add: queue_entries_def not_less split_def)
  show "queue_entries q' = filter_mset (\<lambda>(n, _). c \<le> n) (queue_entries q)"
    using promote_spec(3) [OF wf, of c] ent by (simp add: q')
  show "mset hs = image_mset (\<lambda>(n, e). entry_hash e)
      (filter_mset (\<lambda>(n, _). n < c) (queue_entries q))"
    by (simp add: hs queue_entries_def)
  have kq: "length (?keep (sq_queued q)) \<le> max_queued_per_sender cfg"
    and kp: "length (?keep (sq_pending q)) \<le> max_pending_per_sender cfg + max_queued_per_sender cfg"
    using assms(1) by (auto simp: queue_inv_def queue_bounded_def intro: le_trans [OF length_filter_le])
  have "queue_bounded cfg q'"
  proof (cases "?keep (sq_pending q) = []")
    case True
    then show ?thesis
      using promote_spec(4) [OF wf, of c] promote_length [OF wf, of c] kq
      by (simp add: q' queue_bounded_def)
  next
    case False
    then have "settled ?q"
      using assms(1) last_key_filter_above [OF ok(1) False]
      by (simp add: settled_def queue_inv_def bt_get_filter_key ok)
    then have "q' = ?q" using promote_settled False by (simp add: q')
    then show ?thesis using kq kp by (simp add: queue_bounded_def)
  qed
  moreover have "filed s (queue_entries q')"
    using assms(1) promote_spec(3) [OF wf, of c] ent
    by (auto simp: q' queue_inv_def intro: filed_subset)
  ultimately show "queue_inv cfg s q'"
    using promote_spec(1,2) [OF wf, of c] by (simp add: queue_inv_def q')
qed

end
