(* ===== verification/Tx_Pool_Inv.thy ===== *)
theory Tx_Pool_Inv
  imports Tx_Pool_Queue
begin

text \<open>
  The whole pool: the hash index agrees with the queues, every operation keeps the invariant, and
  every operation refines an operation on the set of pooled transactions (\<open>pool_txs\<close>).
\<close>

section \<open>The invariant\<close>

text \<open>
  \<open>by_hash\<close> maps exactly the hashes of the transactions in a sender's queue to that sender, and no
  hash occurs twice in a queue (so none occurs twice in the pool).
\<close>

definition index_ok :: "(address \<rightharpoonup> sender_queue) \<Rightarrow> (b256 \<rightharpoonup> address) \<Rightarrow> bool" where
  "index_ok S idx \<longleftrightarrow>
     (\<forall>s h. idx h = Some s \<longleftrightarrow> (\<exists>q. S s = Some q \<and> h \<in># queue_hashes q)) \<and>
     (\<forall>s q h. S s = Some q \<longrightarrow> count (queue_hashes q) h \<le> 1)"

definition pool_inv :: "'st evm_tx_pool \<Rightarrow> bool" where
  "pool_inv pool \<longleftrightarrow>
     (\<forall>s q. senders (pool_inner_of pool) s = Some q \<longrightarrow> queue_inv (pool_config pool) s q) \<and>
     index_ok (senders (pool_inner_of pool)) (by_hash (pool_inner_of pool))"

definition txs_of :: "(address \<rightharpoonup> sender_queue) \<Rightarrow> pool_entry set" where
  "txs_of S = {e. \<exists>s q n. S s = Some q \<and> (n, e) \<in># queue_entries q}"

abbreviation pool_txs :: "'st evm_tx_pool \<Rightarrow> pool_entry set" where
  "pool_txs pool \<equiv> txs_of (senders (pool_inner_of pool))"

lemma pool_inv_new: "pool_inv (new_tx_pool cfg)"
  by (simp add: pool_inv_def new_tx_pool_def index_ok_def)

lemma pool_inv_set_nonce_fn: "pool_inv pool \<Longrightarrow> pool_inv (set_nonce_fn f pool)"
  by (simp add: pool_inv_def set_nonce_fn_def)

text \<open>The index after one sender's queue has been replaced by \<open>q\<close>.\<close>

definition reindex :: "address \<Rightarrow> sender_queue \<Rightarrow> (b256 \<rightharpoonup> address) \<Rightarrow> (b256 \<rightharpoonup> address)" where
  "reindex s q idx h =
     (if h \<in># queue_hashes q then Some s else if idx h = Some s then None else idx h)"

lemma index_ok_reindex:
  assumes "index_ok S idx" "\<forall>h \<in># queue_hashes q. idx h = None \<or> idx h = Some s"
    and "\<forall>h. count (queue_hashes q) h \<le> 1"
  shows "index_ok (hm_insert s q S) (reindex s q idx)"
proof -
  have a: "reindex s q idx h = Some s' \<longleftrightarrow> (\<exists>q'. hm_insert s q S s' = Some q' \<and> h \<in># queue_hashes q')"
    for h s'
  proof (cases "s' = s")
    case True
    then show ?thesis by (simp add: reindex_def hm_insert_def)
  next
    case False
    then have "reindex s q idx h = Some s' \<longleftrightarrow> idx h = Some s'"
      using assms(2) by (auto simp: reindex_def)
    with False assms(1) show ?thesis by (simp add: index_ok_def hm_insert_def)
  qed
  have b: "hm_insert s q S s' = Some q' \<Longrightarrow> count (queue_hashes q') h \<le> 1" for s' q' h
    using assms(1,3) by (auto simp: hm_insert_def index_ok_def split: if_splits)
  show ?thesis unfolding index_ok_def using a b by blast
qed

lemma hash_in_queue_iff: "h \<in># queue_hashes q \<longleftrightarrow> (\<exists>n e. (n, e) \<in># queue_entries q \<and> entry_hash e = h)"
  by (force simp: queue_hashes_def)

lemma index_unique_entry:
  assumes "index_ok S idx" "S s = Some q" "(n, e) \<in># queue_entries q" "(m, x) \<in># queue_entries q"
    and "entry_hash e = entry_hash x"
  shows "(n, e) = (m, x)"
proof (rule ccontr)
  assume ne: "(n, e) \<noteq> (m, x)"
  then have "{#(n, e), (m, x)#} \<subseteq># queue_entries q"
    using assms(3,4) by (auto simp: insert_subset_eq_iff in_diff_count)
  then have "image_mset (\<lambda>(n, e). entry_hash e) {#(n, e), (m, x)#} \<subseteq># queue_hashes q"
    unfolding queue_hashes_def by (rule image_mset_subseteq_mono)
  then have "count {#entry_hash e, entry_hash x#} (entry_hash e) \<le> count (queue_hashes q) (entry_hash e)"
    by (metis (no_types, lifting) case_prod_conv image_mset_add_mset image_mset_single
        mset_subset_eq_count)
  then have "2 \<le> count (queue_hashes q) (entry_hash e)" using assms(5) by simp
  moreover have "count (queue_hashes q) (entry_hash e) \<le> 1"
    using assms(1,2) by (simp add: index_ok_def)
  ultimately show False by simp
qed

section \<open>Submission\<close>

text \<open>The queue of the sender before the submission, and what a successful one does.\<close>

definition queue_of :: "'st evm_tx_pool \<Rightarrow> address \<Rightarrow> sender_queue" where
  "queue_of pool s = (case senders (pool_inner_of pool) s of None \<Rightarrow> empty_queue | Some q \<Rightarrow> q)"

definition current_nonce_of :: "'st \<Rightarrow> 'st evm_tx_pool \<Rightarrow> address \<Rightarrow> u64" where
  "current_nonce_of st pool s =
     (case nonce_fn (pool_inner_of pool) of None \<Rightarrow> 0 | Some f \<Rightarrow> f st s)"

definition entry_for :: "'st evm_tx_pool \<Rightarrow> verified_tx \<Rightarrow> pool_entry" where
  "entry_for pool v =
     \<lparr>pe_verified = v,
      pe_effective_tip = effective_gas_tip (vt_envelope v) (pool_base_fee (pool_config pool))\<rparr>"

lemma queue_of_inv: "pool_inv pool \<Longrightarrow> queue_inv (pool_config pool) s (queue_of pool s)"
  by (auto simp: pool_inv_def queue_of_def queue_inv_empty split: option.splits)

lemma index_of_queue:
  "pool_inv pool \<Longrightarrow> by_hash (pool_inner_of pool) h = Some s \<longleftrightarrow> h \<in># queue_hashes (queue_of pool s)"
  by (auto simp: pool_inv_def index_ok_def queue_of_def split: option.splits)

lemma count_queue_of: "pool_inv pool \<Longrightarrow> count (queue_hashes (queue_of pool s)) h \<le> 1"
  by (auto simp: pool_inv_def index_ok_def queue_of_def split: option.splits)

text \<open>The state after a successful submission by \<open>v\<close> that replaced \<open>old\<close> and left the queue \<open>q\<close>.\<close>

definition admitted ::
    "'st evm_tx_pool \<Rightarrow> verified_tx \<Rightarrow> b256 option \<Rightarrow> sender_queue \<Rightarrow> 'st evm_tx_pool" where
  "admitted pool v old q =
     pool\<lparr>pool_inner_of := (pool_inner_of pool)\<lparr>
       senders := hm_insert (vt_sender v) q (senders (pool_inner_of pool)),
       by_hash := hm_insert (vt_tx_hash v) (vt_sender v)
         (case old of None \<Rightarrow> by_hash (pool_inner_of pool)
                    | Some h \<Rightarrow> hm_remove h (by_hash (pool_inner_of pool)))\<rparr>\<rparr>"

definition touched :: "'st evm_tx_pool \<Rightarrow> address \<Rightarrow> 'st evm_tx_pool" where
  "touched pool s =
     pool\<lparr>pool_inner_of := (pool_inner_of pool)\<lparr>senders :=
       hm_insert s (queue_of pool s) (senders (pool_inner_of pool))\<rparr>\<rparr>"

abbreviation admission ::
    "'st \<Rightarrow> 'st evm_tx_pool \<Rightarrow> verified_tx \<Rightarrow> pool_error + (b256 option \<times> sender_queue)" where
  "admission st pool v \<equiv>
     queue_admit (pool_config pool) (queue_of pool (vt_sender v))
       (current_nonce_of st pool (vt_sender v)) (env_nonce (vt_envelope v)) (entry_for pool v)"

lemma submit_tx_unfold:
  "submit_tx C st pool raw =
     (case decode_and_recover C raw of
        Inl e \<Rightarrow> (Inl (PoolTx e), pool)
      | Inr v \<Rightarrow>
          if by_hash (pool_inner_of pool) (vt_tx_hash v) \<noteq> None then (Inl AlreadyKnown, pool)
          else if env_nonce (vt_envelope v) < current_nonce_of st pool (vt_sender v)
          then (Inl (PoolNonceTooLow (env_nonce (vt_envelope v))
                       (current_nonce_of st pool (vt_sender v))), pool)
          else case admission st pool v of
                 Inl e \<Rightarrow> (Inl e, touched pool (vt_sender v))
               | Inr (old, q) \<Rightarrow>
                   (Inr (vt_tx_hash v),
                    admitted pool v old
                      (promote_queued_static q (current_nonce_of st pool (vt_sender v)))))"
  by (simp only: submit_tx_def Let_def queue_of_def current_nonce_of_def entry_for_def admitted_def
      touched_def)

lemma submit_tx_cases [consumes 1, case_names Decode Known NonceLow Refused Admitted]:
  assumes "submit_tx C st pool raw = (r, pool')"
  obtains e where "decode_and_recover C raw = Inl e" "r = Inl (PoolTx e)" "pool' = pool"
  | v where "decode_and_recover C raw = Inr v" "r = Inl AlreadyKnown" "pool' = pool"
      "by_hash (pool_inner_of pool) (vt_tx_hash v) \<noteq> None"
  | v where "decode_and_recover C raw = Inr v"
      "r = Inl (PoolNonceTooLow (env_nonce (vt_envelope v)) (current_nonce_of st pool (vt_sender v)))"
      "pool' = pool" "env_nonce (vt_envelope v) < current_nonce_of st pool (vt_sender v)"
  | v e where "decode_and_recover C raw = Inr v" "r = Inl e" "admission st pool v = Inl e"
      "pool' = touched pool (vt_sender v)"
  | v old q where "decode_and_recover C raw = Inr v" "r = Inr (vt_tx_hash v)"
      "by_hash (pool_inner_of pool) (vt_tx_hash v) = None"
      "current_nonce_of st pool (vt_sender v) \<le> env_nonce (vt_envelope v)"
      "admission st pool v = Inr (old, q)"
      "pool' = admitted pool v old
         (promote_queued_static q (current_nonce_of st pool (vt_sender v)))"
proof (cases "decode_and_recover C raw")
  case (Inl e)
  show ?thesis by (rule that(1)) (use Inl assms in \<open>auto simp: submit_tx_unfold\<close>)
next
  case dec: (Inr v)
  note eq = assms [unfolded submit_tx_unfold dec sum.case]
  show ?thesis
  proof (cases "by_hash (pool_inner_of pool) (vt_tx_hash v) = None")
    case False
    show ?thesis by (rule that(2) [OF dec]) (use False eq in auto)
  next
    case unknown: True
    show ?thesis
    proof (cases "env_nonce (vt_envelope v) < current_nonce_of st pool (vt_sender v)")
      case True
      show ?thesis by (rule that(3) [OF dec]) (use True unknown eq in auto)
    next
      case high: False
      show ?thesis
      proof (cases "admission st pool v")
        case (Inl e)
        show ?thesis by (rule that(4) [OF dec _ Inl]) (use Inl unknown high eq in auto)
      next
        case (Inr p)
        obtain old q where p: "p = (old, q)" by fastforce
        have res: "r = Inr (vt_tx_hash v)" "pool' = admitted pool v old
            (promote_queued_static q (current_nonce_of st pool (vt_sender v)))"
          using Inr p unknown high eq by auto
        show ?thesis
          by (rule that(5) [OF dec res(1) unknown _ Inr [unfolded p] res(2)]) (use high in simp)
      qed
    qed
  qed
qed

lemma decode_sets_hash:
  "decode_and_recover C raw = Inr v \<Longrightarrow> vt_raw v = raw \<and> vt_tx_hash v = env_tx_hash (vt_envelope v)"
  by (auto simp: decode_and_recover_def split: sum.splits)

text \<open>Refusing a submission changes neither the transactions held nor the index.\<close>

lemma touched_inv: "pool_inv pool \<Longrightarrow> pool_inv (touched pool s)"
  using queue_of_inv [of pool s]
  by (auto simp: pool_inv_def touched_def hm_insert_def index_ok_def queue_of_def
      split: if_splits option.splits)

lemma txs_of_insert:
  "txs_of (hm_insert s q S) = snd ` set_mset (queue_entries q) \<union> txs_of (hm_remove s S)"
  by (force simp: txs_of_def hm_insert_def hm_remove_def image_iff split: if_splits)

lemma pool_txs_split:
  "pool_txs pool = snd ` set_mset (queue_entries (queue_of pool s)) \<union>
     txs_of (hm_remove s (senders (pool_inner_of pool)))"
proof (cases "senders (pool_inner_of pool) s")
  case None
  then have "hm_remove s (senders (pool_inner_of pool)) = senders (pool_inner_of pool)"
    by (simp add: hm_remove_def fun_upd_idem)
  then show ?thesis using None by (simp add: queue_of_def queue_entries_def empty_queue_def)
next
  case (Some q)
  then have "hm_insert s q (senders (pool_inner_of pool)) = senders (pool_inner_of pool)"
    by (simp add: hm_insert_def fun_upd_idem)
  then show ?thesis
    using Some txs_of_insert [of s q "senders (pool_inner_of pool)"] by (simp add: queue_of_def)
qed

lemma touched_txs: "pool_txs (touched pool s) = pool_txs pool"
  by (simp add: touched_def txs_of_insert pool_txs_split [of pool s])

text \<open>An admitted submission re-indexes the sender's queue.\<close>

lemma admitted_hashes:
  assumes inv: "pool_inv pool" and adm: "admission st pool v = Inr (old, q)"
    and new: "by_hash (pool_inner_of pool) (vt_tx_hash v) = None"
  shows "(case old of None \<Rightarrow> id | Some h \<Rightarrow> add_mset h) (queue_hashes q) =
           add_mset (vt_tx_hash v) (queue_hashes (queue_of pool (vt_sender v)))"
proof (cases old)
  case None
  with adm have "queue_entries q = add_mset (env_nonce (vt_envelope v), entry_for pool v)
      (queue_entries (queue_of pool (vt_sender v)))" by (intro queue_admit_new) simp
  then show ?thesis using None by (simp add: queue_hashes_def entry_for_def)
next
  case (Some h)
  let ?q = "queue_of pool (vt_sender v)" and ?n = "env_nonce (vt_envelope v)"
  have "queue_wf ?q" using queue_of_inv [OF inv] by (simp add: queue_inv_def)
  then obtain x where "entry_hash x = h"
    "add_mset (?n, x) (queue_entries q) = add_mset (?n, entry_for pool v) (queue_entries ?q)"
    using queue_admit_replace adm Some by metis
  then have "image_mset (\<lambda>(n, e). entry_hash e) (add_mset (?n, x) (queue_entries q)) =
      image_mset (\<lambda>(n, e). entry_hash e) (add_mset (?n, entry_for pool v) (queue_entries ?q))"
    by simp
  then show ?thesis using Some \<open>entry_hash x = h\<close> by (simp add: queue_hashes_def entry_for_def)
qed

lemma queue_hashes_promote:
  "queue_wf q \<Longrightarrow> queue_hashes (promote_queued_static q c) = queue_hashes q"
  by (simp add: queue_hashes_def promote_spec(3))

lemma admitted_member_old:
  assumes inv: "pool_inv pool" and adm: "admission st pool v = Inr (Some k, q)"
  shows "k \<in># queue_hashes (queue_of pool (vt_sender v))"
proof -
  have "queue_wf (queue_of pool (vt_sender v))"
    using queue_of_inv [OF inv] by (simp add: queue_inv_def)
  with adm obtain x where "entry_hash x = k"
    "(env_nonce (vt_envelope v), x) \<in># queue_entries (queue_of pool (vt_sender v))"
    by (rule queue_admit_replace)
  then show ?thesis by (auto simp: hash_in_queue_iff)
qed

lemma admitted_member:
  assumes inv: "pool_inv pool" and adm: "admission st pool v = Inr (old, q)"
    and new: "by_hash (pool_inner_of pool) (vt_tx_hash v) = None"
  shows "h \<in># queue_hashes q \<longleftrightarrow>
           h = vt_tx_hash v \<or> (h \<in># queue_hashes (queue_of pool (vt_sender v)) \<and> old \<noteq> Some h)"
    and "count (queue_hashes q) h \<le> 1"
proof -
  let ?q = "queue_of pool (vt_sender v)" and ?h = "vt_tx_hash v"
  have fresh: "?h \<notin># queue_hashes ?q" using new index_of_queue [OF inv, of ?h] by auto
  note once = count_queue_of [OF inv, of "vt_sender v"]
  have "(h \<in># queue_hashes q \<longleftrightarrow> h = ?h \<or> (h \<in># queue_hashes ?q \<and> old \<noteq> Some h)) \<and>
        count (queue_hashes q) h \<le> 1"
  proof (cases old)
    case None
    then have eq: "queue_hashes q = add_mset ?h (queue_hashes ?q)"
      using admitted_hashes [OF assms] by simp
    show ?thesis using None fresh once [of h] by (auto simp: eq not_in_iff)
  next
    case (Some k)
    have k: "k \<in># queue_hashes ?q" by (rule admitted_member_old [OF inv adm [unfolded Some]])
    then obtain M where M: "queue_hashes ?q = add_mset k M" by (rule mset_add)
    have "k \<notin># M" using once [of k] by (simp add: M not_in_iff)
    have "queue_hashes q = add_mset ?h M" using admitted_hashes [OF assms] Some by (simp add: M)
    then show ?thesis using Some fresh once [of h] \<open>k \<notin># M\<close> by (auto simp: M not_in_iff split: if_splits)
  qed
  then show "h \<in># queue_hashes q \<longleftrightarrow> h = ?h \<or> (h \<in># queue_hashes ?q \<and> old \<noteq> Some h)"
    "count (queue_hashes q) h \<le> 1" by blast+
qed

lemma admitted_inv:
  assumes inv: "pool_inv pool" and adm: "admission st pool v = Inr (old, q)"
    and new: "by_hash (pool_inner_of pool) (vt_tx_hash v) = None"
    and ge: "current_nonce_of st pool (vt_sender v) \<le> env_nonce (vt_envelope v)"
  shows "pool_inv (admitted pool v old
           (promote_queued_static q (current_nonce_of st pool (vt_sender v))))"
proof -
  let ?s = "vt_sender v" and ?I = "pool_inner_of pool"
  let ?q' = "promote_queued_static q (current_nonce_of st pool ?s)"
  note q0 = queue_of_inv [OF inv, of ?s]
  have q': "queue_inv (pool_config pool) ?s ?q'"
    by (rule queue_admit_inv [OF adm q0 ge]) (simp_all add: entry_for_def)
  have wf: "queue_wf q" by (rule queue_admit_wf [OF adm _ ge]) (use q0 in \<open>simp add: queue_inv_def\<close>)
  have mem: "h \<in># queue_hashes ?q' \<longleftrightarrow>
      h = vt_tx_hash v \<or> (h \<in># queue_hashes (queue_of pool ?s) \<and> old \<noteq> Some h)"
    "count (queue_hashes ?q') h \<le> 1" for h
    using admitted_member [OF inv adm new, of h] by (simp_all only: queue_hashes_promote [OF wf])
  have idx: "hm_insert (vt_tx_hash v) ?s (case old of None \<Rightarrow> by_hash ?I | Some h \<Rightarrow> hm_remove h (by_hash ?I))
      = reindex ?s ?q' (by_hash ?I)"
    (is "?l = _")
  proof
    fix h
    have r: "reindex ?s ?q' (by_hash ?I) h =
        (if h = vt_tx_hash v \<or> by_hash ?I h = Some ?s \<and> old \<noteq> Some h then Some ?s
         else if by_hash ?I h = Some ?s then None else by_hash ?I h)"
      by (simp only: reindex_def mem(1) index_of_queue [OF inv])
    have k: "by_hash ?I k = Some ?s" if "old = Some k" for k
      using admitted_member_old [OF inv adm [unfolded that]] by (simp add: index_of_queue [OF inv])
    show "?l h = reindex ?s ?q' (by_hash ?I) h"
      unfolding r hm_insert_def hm_remove_def using k
      by (cases old; cases "h = vt_tx_hash v"; cases "old = Some h") simp_all
  qed
  have "index_ok (hm_insert ?s ?q' (senders ?I)) (reindex ?s ?q' (by_hash ?I))"
  proof (rule index_ok_reindex)
    show "index_ok (senders ?I) (by_hash ?I)" using inv by (simp add: pool_inv_def)
    show "\<forall>h \<in># queue_hashes ?q'. by_hash ?I h = None \<or> by_hash ?I h = Some ?s"
    proof
      fix h assume "h \<in># queue_hashes ?q'"
      then show "by_hash ?I h = None \<or> by_hash ?I h = Some ?s"
        unfolding mem(1) index_of_queue [OF inv, symmetric] using new by blast
    qed
    show "\<forall>h. count (queue_hashes ?q') h \<le> 1" using mem(2) by blast
  qed
  moreover have "queue_inv (pool_config pool) s q" if "hm_insert ?s ?q' (senders ?I) s = Some q" for s q
    using that inv q' by (auto simp: pool_inv_def hm_insert_def split: if_splits)
  ultimately show ?thesis by (simp add: pool_inv_def admitted_def idx)
qed

lemma submit_tx_inv: "pool_inv pool \<Longrightarrow> pool_inv (snd (submit_tx C st pool raw))"
proof -
  assume inv: "pool_inv pool"
  obtain r pool' where eq: "submit_tx C st pool raw = (r, pool')" by fastforce
  then have "pool_inv pool'"
    by (cases rule: submit_tx_cases) (simp_all add: inv touched_inv admitted_inv)
  with eq show ?thesis by simp
qed

text \<open>What an admitted submission does to the transactions held.\<close>

lemma hash_elsewhere:
  assumes "pool_inv pool" "e \<in> txs_of (hm_remove s (senders (pool_inner_of pool)))"
  shows "entry_hash e \<notin># queue_hashes (queue_of pool s)"
proof
  assume here: "entry_hash e \<in># queue_hashes (queue_of pool s)"
  from assms(2) obtain s' q n where "s' \<noteq> s" "senders (pool_inner_of pool) s' = Some q"
    "(n, e) \<in># queue_entries q"
    by (auto simp: txs_of_def hm_remove_def split: if_splits)
  then have "s' \<noteq> s" "entry_hash e \<in># queue_hashes (queue_of pool s')"
    by (auto simp: queue_of_def hash_in_queue_iff)
  with here show False by (simp add: index_of_queue [OF assms(1), symmetric])
qed

lemma admitted_txs:
  assumes inv: "pool_inv pool" and adm: "admission st pool v = Inr (old, q)"
    and ge: "current_nonce_of st pool (vt_sender v) \<le> env_nonce (vt_envelope v)"
  shows "pool_txs (admitted pool v old
           (promote_queued_static q (current_nonce_of st pool (vt_sender v)))) =
         insert (entry_for pool v) {e \<in> pool_txs pool. old \<noteq> Some (entry_hash e)}"
proof -
  let ?s = "vt_sender v" and ?n = "env_nonce (vt_envelope v)" and ?e = "entry_for pool v"
  let ?q = "queue_of pool ?s" and ?rest = "txs_of (hm_remove ?s (senders (pool_inner_of pool)))"
  have wf0: "queue_wf ?q" using queue_of_inv [OF inv] by (simp add: queue_inv_def)
  have wf: "queue_wf q" by (rule queue_admit_wf [OF adm wf0 ge])
  have after: "pool_txs (admitted pool v old (promote_queued_static q (current_nonce_of st pool ?s)))
      = snd ` set_mset (queue_entries q) \<union> ?rest"
    by (simp add: admitted_def txs_of_insert promote_spec(3) [OF wf])
  note before = pool_txs_split [of pool ?s]
  show ?thesis
  proof (cases old)
    case None
    then have "queue_entries q = add_mset (?n, ?e) (queue_entries ?q)"
      using adm by (intro queue_admit_new) simp
    then show ?thesis unfolding after unfolding before using None by auto
  next
    case (Some k)
    obtain x where x: "entry_hash x = k" "(?n, x) \<in># queue_entries ?q"
      "add_mset (?n, x) (queue_entries q) = add_mset (?n, ?e) (queue_entries ?q)"
      using adm [unfolded Some] wf0 by (rule queue_admit_replace)
    obtain M where M: "queue_entries ?q = add_mset (?n, x) M" using x(2) by (rule mset_add)
    have q: "queue_entries q = add_mset (?n, ?e) M" using x(3) M by simp
    have "count (queue_hashes ?q) k \<le> 1" by (rule count_queue_of [OF inv])
    then have "count (image_mset (\<lambda>(n, e). entry_hash e) M) k = 0"
      using x(1) by (simp add: queue_hashes_def M)
    then have "k \<notin># image_mset (\<lambda>(n, e). entry_hash e) M" by (simp only: not_in_iff)
    then have keep: "{e \<in> snd ` set_mset (queue_entries ?q). k \<noteq> entry_hash e} = snd ` set_mset M"
      using x(1) M by (auto simp: image_iff split_beta)
    have "k \<in># queue_hashes ?q" using x by (auto simp: hash_in_queue_iff)
    then have "{e \<in> ?rest. k \<noteq> entry_hash e} = ?rest" using hash_elsewhere [OF inv] by auto
    with keep have "{e \<in> pool_txs pool. k \<noteq> entry_hash e} = snd ` set_mset M \<union> ?rest"
      unfolding before by blast
    then show ?thesis unfolding after using Some q by auto
  qed
qed

end
