(* ===== verification/Tx_Pool_Select.thy ===== *)
theory Tx_Pool_Select
  imports Tx_Pool_Inv "HOL-Library.Sublist"
begin

text \<open>
  Payload selection: \<open>collect_payload\<close> as a choice of candidates (\<open>chosen\<close>), the order and the
  limits of that choice, and the removal of what was chosen.
\<close>

section \<open>Removing the first pending transaction of a sender\<close>

definition head_of :: "(address \<rightharpoonup> sender_queue) \<Rightarrow> address \<Rightarrow> u64 \<Rightarrow> pool_entry \<Rightarrow> bool" where
  "head_of S s n e \<longleftrightarrow> (\<exists>q rest. S s = Some q \<and> sq_pending q = (n, e) # rest)"

abbreviation with_inner :: "'st evm_tx_pool \<Rightarrow> 'st pool_inner \<Rightarrow> 'st evm_tx_pool" where
  "with_inner pool I \<equiv> pool\<lparr>pool_inner_of := I\<rparr>"

text \<open>Dropping the head of a queue from the index re-indexes the queue that is left.\<close>

lemma head_hashes:
  assumes inv: "pool_inv pool" and q: "senders (pool_inner_of pool) s = Some q"
    and hd: "sq_pending q = (n, e) # rest"
  shows "queue_hashes q = add_mset (entry_hash e) (queue_hashes (q\<lparr>sq_pending := rest\<rparr>))"
    and "entry_hash e \<notin># queue_hashes (q\<lparr>sq_pending := rest\<rparr>)"
    and "count (queue_hashes (q\<lparr>sq_pending := rest\<rparr>)) h \<le> 1"
    and "by_hash (pool_inner_of pool) h = Some s \<longleftrightarrow> h \<in># queue_hashes q"
proof -
  have qo: "queue_of pool s = q" by (simp add: queue_of_def q)
  show hash: "queue_hashes q = add_mset (entry_hash e) (queue_hashes (q\<lparr>sq_pending := rest\<rparr>))"
    by (simp add: queue_hashes_def queue_entries_def hd)
  have one: "count (queue_hashes q) h \<le> 1" for h using count_queue_of [OF inv, of s] by (simp add: qo)
  show "entry_hash e \<notin># queue_hashes (q\<lparr>sq_pending := rest\<rparr>)"
    using one [of "entry_hash e"] unfolding hash by (simp only: not_in_iff) simp
  show "count (queue_hashes (q\<lparr>sq_pending := rest\<rparr>)) h \<le> 1"
    using one [of h] unfolding hash by (simp split: if_splits)
  show "by_hash (pool_inner_of pool) h = Some s \<longleftrightarrow> h \<in># queue_hashes q"
    using index_of_queue [OF inv, of h s] by (simp add: qo)
qed

lemma remove_head_reindex:
  assumes "pool_inv pool" "senders (pool_inner_of pool) s = Some q" "sq_pending q = (n, e) # rest"
  shows "hm_remove (entry_hash e) (by_hash (pool_inner_of pool)) =
     reindex s (q\<lparr>sq_pending := rest\<rparr>) (by_hash (pool_inner_of pool))"
proof
  fix h
  note hh = head_hashes [OF assms]
  let ?I = "pool_inner_of pool" and ?q = "q\<lparr>sq_pending := rest\<rparr>"
  have "h \<in># queue_hashes ?q \<longleftrightarrow> by_hash ?I h = Some s \<and> h \<noteq> entry_hash e"
    unfolding hh(4) hh(1) using hh(2) by auto
  moreover have "by_hash ?I (entry_hash e) = Some s" unfolding hh(4) hh(1) by simp
  ultimately show "hm_remove (entry_hash e) (by_hash ?I) h = reindex s ?q (by_hash ?I) h"
    by (auto simp: hm_remove_def reindex_def)
qed

lemma remove_pending_head:
  assumes inv: "pool_inv pool" and q: "senders (pool_inner_of pool) s = Some q"
    and hd: "sq_pending q = (n, e) # rest"
  shows "senders (remove_pending (s, n) (pool_inner_of pool)) =
           hm_insert s (q\<lparr>sq_pending := rest\<rparr>) (senders (pool_inner_of pool))"
    and "pool_inv (with_inner pool (remove_pending (s, n) (pool_inner_of pool)))"
    and "pool_txs (with_inner pool (remove_pending (s, n) (pool_inner_of pool))) = pool_txs pool - {e}"
proof -
  let ?I = "pool_inner_of pool" and ?q = "q\<lparr>sq_pending := rest\<rparr>"
  note hh = head_hashes [OF assms]
  have I': "remove_pending (s, n) ?I = ?I\<lparr>senders := hm_insert s ?q (senders ?I),
      by_hash := hm_remove (entry_hash e) (by_hash ?I)\<rparr>"
    by (simp add: remove_pending_def q hd)
  then show "senders (remove_pending (s, n) ?I) = hm_insert s ?q (senders ?I)" by simp
  have "index_ok (hm_insert s ?q (senders ?I)) (reindex s ?q (by_hash ?I))"
  proof (rule index_ok_reindex)
    show "index_ok (senders ?I) (by_hash ?I)" using inv by (simp add: pool_inv_def)
    show "\<forall>h \<in># queue_hashes ?q. by_hash ?I h = None \<or> by_hash ?I h = Some s"
      unfolding hh(4) hh(1) by simp
    show "\<forall>h. count (queue_hashes ?q) h \<le> 1" using hh(3) by blast
  qed
  moreover have "queue_inv (pool_config pool) s ?q"
    using queue_inv_remove_first [of "pool_config pool" s q n e rest] inv q hd
    by (simp add: pool_inv_def)
  ultimately show "pool_inv (with_inner pool (remove_pending (s, n) ?I))"
    using inv unfolding I' by (simp add: pool_inv_def remove_head_reindex [OF assms, symmetric] hm_insert_def)
  have qo: "queue_of pool s = q" by (simp add: queue_of_def q)
  have "e \<notin> snd ` set_mset (queue_entries ?q)" using hh(2) by (force simp: hash_in_queue_iff)
  moreover have "e \<notin> txs_of (hm_remove s (senders ?I))"
    using hash_elsewhere [OF inv, of e s] by (auto simp: qo hh(1))
  ultimately show "pool_txs (with_inner pool (remove_pending (s, n) ?I)) = pool_txs pool - {e}"
    unfolding pool_txs_split [of pool s] qo by (auto simp: I' txs_of_insert queue_entries_def hd)
qed

lemma head_of_insert:
  "head_of (hm_insert s q S) s' n e \<longleftrightarrow>
     (if s' = s then \<exists>rest. sq_pending q = (n, e) # rest else head_of S s' n e)"
  by (auto simp: head_of_def hm_insert_def)

lemma fold_remove_heads:
  assumes "pool_inv pool" "distinct (map fst inc)"
    and "\<forall>(s, n) \<in> set inc. \<exists>e. head_of (senders (pool_inner_of pool)) s n e"
  shows "pool_inv (with_inner pool (fold remove_pending inc (pool_inner_of pool))) \<and>
     pool_txs (with_inner pool (fold remove_pending inc (pool_inner_of pool))) =
       pool_txs pool - {e. \<exists>(s, n) \<in> set inc. head_of (senders (pool_inner_of pool)) s n e}"
  using assms
proof (induction inc arbitrary: pool)
  case (Cons p inc)
  obtain s n where p: "p = (s, n)" by (cases p)
  then obtain q e rest where q: "senders (pool_inner_of pool) s = Some q" "sq_pending q = (n, e) # rest"
    using Cons.prems(3) by (auto simp: head_of_def)
  let ?I = "remove_pending (s, n) (pool_inner_of pool)"
  note step = remove_pending_head [OF Cons.prems(1) q]
  have same: "head_of (senders ?I) s' m x \<longleftrightarrow> head_of (senders (pool_inner_of pool)) s' m x"
    if "(s', m) \<in> set inc" for s' m x
    using that Cons.prems(2) p by (force simp: step(1) head_of_insert)
  have "\<forall>(s, n) \<in> set inc. \<exists>e. head_of (senders (pool_inner_of (with_inner pool ?I))) s n e"
  proof (clarify)
    fix a b assume ab: "(a, b) \<in> set inc"
    then obtain x where "head_of (senders (pool_inner_of pool)) a b x" using Cons.prems(3) by auto
    then show "\<exists>e. head_of (senders (pool_inner_of (with_inner pool ?I))) a b e"
      using same [OF ab] by auto
  qed
  moreover have "distinct (map fst inc)" using Cons.prems(2) by simp
  ultimately have IH: "pool_inv (with_inner pool (fold remove_pending inc ?I)) \<and>
     pool_txs (with_inner pool (fold remove_pending inc ?I)) =
       pool_txs (with_inner pool ?I) - {e. \<exists>(s, n) \<in> set inc. head_of (senders ?I) s n e}"
    using Cons.IH [OF step(2)] by simp
  have "{e. \<exists>(s, n) \<in> set inc. head_of (senders ?I) s n e} =
        {e. \<exists>(s, n) \<in> set inc. head_of (senders (pool_inner_of pool)) s n e}"
    by (intro Collect_cong bex_cong refl) (auto simp: same)
  moreover have "head_of (senders (pool_inner_of pool)) s n x \<longleftrightarrow> x = e" for x
    using q by (auto simp: head_of_def)
  ultimately show ?case using IH step(3) by (auto simp: p)
qed simp

section \<open>Selection\<close>

text \<open>The candidates that end up in the payload, given the bytes and the gas used so far.\<close>

fun chosen ::
    "(address \<rightharpoonup> sender_queue) \<Rightarrow> nat \<Rightarrow> u64 \<Rightarrow> candidate list \<Rightarrow> nat \<Rightarrow> u64 \<Rightarrow> candidate list" where
  "chosen S max_bytes max_gas [] used total_gas = []"
| "chosen S max_bytes max_gas ((s, n, tip, raw) # cs) used total_gas =
     (if max_bytes < used + 4 + length raw then []
      else if 0 < max_gas \<and> max_gas < total_gas + candidate_gas S s n
      then chosen S max_bytes max_gas cs used total_gas
      else (s, n, tip, raw) #
           chosen S max_bytes max_gas cs (used + 4 + length raw) (total_gas + candidate_gas S s n))"

abbreviation cand_sender :: "candidate \<Rightarrow> address" where "cand_sender c \<equiv> fst c"
abbreviation cand_nonce :: "candidate \<Rightarrow> u64" where "cand_nonce c \<equiv> fst (snd c)"
abbreviation cand_tip :: "candidate \<Rightarrow> u64" where "cand_tip c \<equiv> fst (snd (snd c))"
abbreviation cand_raw :: "candidate \<Rightarrow> bytes" where "cand_raw c \<equiv> snd (snd (snd c))"

definition encode_frames :: "bytes list \<Rightarrow> bytes" where
  "encode_frames raws = concat (map frame raws)"

lemma length_frame [simp]: "length (frame raw) = 4 + length raw"
  by (simp add: frame_def)

lemma select_loop_chosen:
  "select_loop S mb mg cs p g inc =
     (let ch = chosen S mb mg cs (length p) g
      in (p @ encode_frames (map cand_raw ch), inc @ map (\<lambda>c. (cand_sender c, cand_nonce c)) ch))"
proof (induction S mb mg cs p g inc rule: select_loop.induct)
  case (2 S mb mg s n tip raw cs p g inc)
  let ?gas = "candidate_gas S s n"
  consider "mb < length p + 4 + length raw"
    | "\<not> mb < length p + 4 + length raw" "0 < mg \<and> mg < g + ?gas"
    | "\<not> mb < length p + 4 + length raw" "\<not> (0 < mg \<and> mg < g + ?gas)" by blast
  then show ?case
  proof cases
    case 1
    then show ?thesis by (simp add: encode_frames_def)
  next
    case 2
    then show ?thesis using "2.IH"(1) [OF refl] by simp
  next
    case 3
    then have "select_loop S mb mg ((s, n, tip, raw) # cs) p g inc =
        select_loop S mb mg cs (p @ frame raw) (g + ?gas) (inc @ [(s, n)])"
      by (simp only: select_loop.simps Let_def if_False)
    moreover have "chosen S mb mg ((s, n, tip, raw) # cs) (length p) g =
        (s, n, tip, raw) # chosen S mb mg cs (length p + 4 + length raw) (g + ?gas)"
      using 3 by (simp only: chosen.simps if_False)
    ultimately show ?thesis using "2.IH"(2) [OF refl 3]
      by (simp add: Let_def encode_frames_def add.assoc)
  qed
qed (simp add: encode_frames_def)

lemma chosen_subseq: "subseq (chosen S mb mg cs used g) cs"
  by (induction S mb mg cs used g rule: chosen.induct) auto

lemma chosen_bytes:
  "used \<le> mb \<Longrightarrow> used + length (encode_frames (map cand_raw (chosen S mb mg cs used g))) \<le> mb"
proof (induction S mb mg cs used g rule: chosen.induct)
  case (2 S mb mg s n tip raw cs used g)
  then show ?case by (auto simp: encode_frames_def)
qed (simp add: encode_frames_def)

text \<open>The gas limits of the chosen transactions, summed without wrap-around.\<close>

definition chosen_gas :: "(address \<rightharpoonup> sender_queue) \<Rightarrow> candidate list \<Rightarrow> nat" where
  "chosen_gas S cs = (\<Sum>c \<leftarrow> cs. unat (candidate_gas S (cand_sender c) (cand_nonce c)))"

lemma chosen_gas_bound:
  assumes "unat g \<le> unat mg" "0 < mg"
    and "\<forall>c \<in> set cs. unat (candidate_gas S (cand_sender c) (cand_nonce c)) + unat mg < 2 ^ 64"
  shows "unat g + chosen_gas S (chosen S mb mg cs used g) \<le> unat mg"
  using assms
proof (induction S mb mg cs used g rule: chosen.induct)
  case (2 S mb mg s n tip raw cs used g)
  let ?gas = "candidate_gas S s n"
  have nowrap: "unat (g + ?gas) = unat g + unat ?gas"
    using "2.prems" by (intro unat_add_lem [THEN iffD1]) auto
  consider "mb < used + 4 + length raw"
    | "\<not> mb < used + 4 + length raw" "0 < mg \<and> mg < g + ?gas"
    | "\<not> mb < used + 4 + length raw" "\<not> (0 < mg \<and> mg < g + ?gas)" by blast
  then show ?case
  proof cases
    case 1
    then show ?thesis using "2.prems" by (simp add: chosen_gas_def)
  next
    case 2
    then show ?thesis using "2.IH"(1) "2.prems" by simp
  next
    case 3
    then have "unat (g + ?gas) \<le> unat mg" using "2.prems"(2) by (simp add: word_le_nat_alt not_less)
    then have "unat (g + ?gas) + chosen_gas S
        (chosen S mb mg cs (used + 4 + length raw) (g + ?gas)) \<le> unat mg"
      using "2.IH"(2) [OF 3] "2.prems" by simp
    then show ?thesis using 3 nowrap by (auto simp: chosen_gas_def)
  qed
qed (simp add: chosen_gas_def)

section \<open>Candidates\<close>

lemma candidates_of_iff:
  "c \<in> set (candidates_of ks S) \<longleftrightarrow> cand_sender c \<in> set ks \<and>
     (\<exists>e. head_of S (cand_sender c) (cand_nonce c) e \<and> cand_tip c = pe_effective_tip e \<and>
          cand_raw c = vt_raw (pe_verified e))"
proof -
  have one: "c \<in> set (case S s of None \<Rightarrow> [] | Some q \<Rightarrow> first_pending s q) \<longleftrightarrow> cand_sender c = s \<and>
      (\<exists>e. head_of S s (cand_nonce c) e \<and> cand_tip c = pe_effective_tip e \<and>
           cand_raw c = vt_raw (pe_verified e))" for s
  proof (cases "S s")
    case (Some q)
    then show ?thesis by (cases c; cases "sq_pending q") (auto simp: first_pending_def head_of_def)
  qed (simp add: head_of_def)
  show ?thesis unfolding candidates_of_def set_concat set_map using one by auto
qed

lemma candidates_of_senders:
  "map cand_sender (candidates_of ks S) = filter (\<lambda>s. \<exists>n e. head_of S s n e) ks"
proof (induction ks)
  case (Cons s ks)
  have "map cand_sender (case S s of None \<Rightarrow> [] | Some q \<Rightarrow> first_pending s q) =
      (if \<exists>n e. head_of S s n e then [s] else [])"
    by (auto simp: first_pending_def head_of_def split: option.splits list.splits)
  with Cons show ?case by (simp add: candidates_of_def)
qed (simp add: candidates_of_def)

lemma sort_candidates_mset: "mset (sort_candidates cs) = mset cs"
  by (simp add: sort_candidates_def)

lemma sort_candidates_sorted: "sorted_wrt (\<lambda>a b. cand_tip b \<le> cand_tip a) (sort_candidates cs)"
proof -
  let ?k = "\<lambda>(_, _, tip, _). - uint (tip :: u64)"
  have k: "?k c = - uint (cand_tip c)" for c by (cases c) simp
  have "sorted (map ?k (sort_candidates cs))" unfolding sort_candidates_def by (rule sorted_sort_key)
  then show ?thesis by (simp add: sorted_map k word_le_def)
qed

text \<open>The pool entry behind a candidate, and the entries a collection selects.\<close>

definition cand_entry :: "(address \<rightharpoonup> sender_queue) \<Rightarrow> candidate \<Rightarrow> pool_entry" where
  "cand_entry S c = snd (hd (sq_pending (the (S (cand_sender c)))))"

definition selected ::
    "address list \<Rightarrow> 'st evm_tx_pool \<Rightarrow> nat \<Rightarrow> u64 \<Rightarrow> pool_entry list" where
  "selected ks pool max_bytes max_gas =
     (let S = senders (pool_inner_of pool)
      in map (cand_entry S)
           (chosen S max_bytes max_gas (sort_candidates (candidates_of ks S)) 0 0))"

abbreviation entry_raw :: "pool_entry \<Rightarrow> bytes" where
  "entry_raw e \<equiv> vt_raw (pe_verified e)"

definition of_head :: "(address \<rightharpoonup> sender_queue) \<Rightarrow> candidate \<Rightarrow> pool_entry \<Rightarrow> bool" where
  "of_head S c e \<longleftrightarrow> head_of S (cand_sender c) (cand_nonce c) e \<and>
     cand_sender c = entry_sender e \<and> cand_nonce c = entry_nonce e \<and>
     cand_tip c = pe_effective_tip e \<and> cand_raw c = entry_raw e \<and>
     candidate_gas S (cand_sender c) (cand_nonce c) = entry_gas e"

lemma head_of_filed:
  assumes "pool_inv pool" "head_of (senders (pool_inner_of pool)) s n e"
  shows "s = entry_sender e" "n = entry_nonce e" "e \<in> pool_txs pool"
    and "candidate_gas (senders (pool_inner_of pool)) s n = entry_gas e"
proof -
  from assms(2) obtain q rest where q: "senders (pool_inner_of pool) s = Some q"
    "sq_pending q = (n, e) # rest" by (auto simp: head_of_def)
  then have "filed s (queue_entries q)" using assms(1) by (simp add: pool_inv_def queue_inv_def)
  then show "s = entry_sender e" "n = entry_nonce e" using q by (auto simp: filed_def queue_entries_def)
  show "e \<in> pool_txs pool" using q by (force simp: txs_of_def queue_entries_def)
  show "candidate_gas (senders (pool_inner_of pool)) s n = entry_gas e"
    using q by (simp add: candidate_gas_def)
qed

lemma candidate_of_head:
  assumes "pool_inv pool" "c \<in> set (candidates_of ks (senders (pool_inner_of pool)))"
  shows "of_head (senders (pool_inner_of pool)) c (cand_entry (senders (pool_inner_of pool)) c)"
proof -
  let ?S = "senders (pool_inner_of pool)"
  from assms(2) obtain e where e: "head_of ?S (cand_sender c) (cand_nonce c) e"
    "cand_tip c = pe_effective_tip e" "cand_raw c = entry_raw e"
    by (auto simp: candidates_of_iff)
  then have "cand_entry ?S c = e" by (auto simp: cand_entry_def head_of_def)
  with e head_of_filed [OF assms(1) e(1)] show ?thesis by (simp add: of_head_def)
qed

lemma chosen_subset:
  "set (chosen S mb mg (sort_candidates cs) used g) \<subseteq> set cs"
proof
  fix c assume "c \<in> set (chosen S mb mg (sort_candidates cs) used g)"
  then have "c \<in> set (sort_candidates cs)" by (rule list_emb_set [OF chosen_subseq]) simp
  then show "c \<in> set cs" by (simp add: sort_candidates_def)
qed

lemma sorted_wrt_subseq: "subseq xs ys \<Longrightarrow> sorted_wrt P ys \<Longrightarrow> sorted_wrt P xs"
proof (induction rule: list_emb.induct)
  case (list_emb_Cons2 x y xs ys)
  then have "set xs \<subseteq> set ys" by (auto elim: list_emb_set)
  with list_emb_Cons2 show ?case by auto
qed auto

lemma distinct_conv_sorted_wrt: "distinct (map f xs) \<longleftrightarrow> sorted_wrt (\<lambda>a b. f a \<noteq> f b) xs"
  by (induction xs) auto

section \<open>The collection\<close>

lemma selected_of_heads:
  fixes mb mg ks and pool :: "'st evm_tx_pool"
  assumes inv: "pool_inv pool"
  defines "S \<equiv> senders (pool_inner_of pool)"
  defines "ch \<equiv> chosen S mb mg (sort_candidates (candidates_of ks S)) 0 0"
  shows "selected ks pool mb mg = map (cand_entry S) ch"
    and "\<forall>c \<in> set ch. of_head S c (cand_entry S c)"
proof -
  show "selected ks pool mb mg = map (cand_entry S) ch"
    by (simp add: selected_def S_def ch_def Let_def)
  show "\<forall>c \<in> set ch. of_head S c (cand_entry S c)"
    using chosen_subset candidate_of_head [OF inv] unfolding ch_def S_def by blast
qed

lemma selected_basic:
  assumes inv: "pool_inv pool" and ks: "iter_order (senders (pool_inner_of pool)) ks"
  shows "distinct (map entry_sender (selected ks pool mb mg))"
    and "sorted_wrt (\<lambda>a b. pe_effective_tip b \<le> pe_effective_tip a) (selected ks pool mb mg)"
    and "\<forall>e \<in> set (selected ks pool mb mg).
           head_of (senders (pool_inner_of pool)) (entry_sender e) (entry_nonce e) e"
proof -
  let ?S = "senders (pool_inner_of pool)"
  let ?cs = "sort_candidates (candidates_of ks ?S)"
  let ?ch = "chosen ?S mb mg ?cs 0 0"
  note sel = selected_of_heads [OF inv, where mb = mb and mg = mg and ks = ks]
  have "distinct (map cand_sender (candidates_of ks ?S))"
    using ks by (simp add: candidates_of_senders iter_order_def)
  then have "distinct (map cand_sender ?cs)"
    using mset_eq_imp_distinct_iff [of "map cand_sender ?cs" "map cand_sender (candidates_of ks ?S)"]
    by (simp add: sort_candidates_mset)
  then have "sorted_wrt (\<lambda>a b. cand_sender a \<noteq> cand_sender b) ?cs"
    by (simp add: distinct_conv_sorted_wrt)
  then have "sorted_wrt (\<lambda>a b. cand_sender a \<noteq> cand_sender b) ?ch"
    by (rule sorted_wrt_subseq [OF chosen_subseq])
  then have "distinct (map cand_sender ?ch)" by (simp add: distinct_conv_sorted_wrt)
  moreover have "map cand_sender ?ch = map entry_sender (selected ks pool mb mg)"
    using sel by (simp add: of_head_def)
  ultimately show "distinct (map entry_sender (selected ks pool mb mg))" by simp
  have "sorted_wrt (\<lambda>a b. cand_tip b \<le> cand_tip a) ?ch"
    by (rule sorted_wrt_subseq [OF chosen_subseq sort_candidates_sorted])
  then show "sorted_wrt (\<lambda>a b. pe_effective_tip b \<le> pe_effective_tip a) (selected ks pool mb mg)"
    unfolding sel(1) sorted_wrt_map
    by (rule sorted_wrt_mono_rel [rotated]) (use sel(2) in \<open>simp add: of_head_def\<close>)
  show "\<forall>e \<in> set (selected ks pool mb mg). head_of ?S (entry_sender e) (entry_nonce e) e"
    using sel by (auto simp: of_head_def)
qed

lemma collect_payload_eq:
  assumes inv: "pool_inv pool"
  shows "collect_payload ks pool mb mg =
     (encode_frames (map entry_raw (selected ks pool mb mg)),
      with_inner pool (fold remove_pending
        (map (\<lambda>e. (entry_sender e, entry_nonce e)) (selected ks pool mb mg)) (pool_inner_of pool)))"
proof -
  let ?S = "senders (pool_inner_of pool)"
  let ?ch = "chosen ?S mb mg (sort_candidates (candidates_of ks ?S)) 0 0"
  note sel = selected_of_heads [OF inv, where mb = mb and mg = mg and ks = ks]
  have raws: "map cand_raw ?ch = map entry_raw (selected ks pool mb mg)"
    and keys: "map (\<lambda>c. (cand_sender c, cand_nonce c)) ?ch =
      map (\<lambda>e. (entry_sender e, entry_nonce e)) (selected ks pool mb mg)"
    using sel by (simp_all add: of_head_def)
  show ?thesis
    by (simp add: collect_payload_def Let_def select_loop_chosen raws keys)
qed

lemma collect_payload_bytes: "length (fst (collect_payload ks pool mb mg)) \<le> mb"
proof -
  let ?S = "senders (pool_inner_of pool)"
  let ?ch = "chosen ?S mb mg (sort_candidates (candidates_of ks ?S)) 0 0"
  have "fst (collect_payload ks pool mb mg) = encode_frames (map cand_raw ?ch)"
    by (simp add: collect_payload_def select_loop_chosen Let_def)
  then show ?thesis using chosen_bytes [of 0 mb ?S mg "sort_candidates (candidates_of ks ?S)" 0] by simp
qed

lemma collect_payload_removes:
  assumes inv: "pool_inv pool" and ks: "iter_order (senders (pool_inner_of pool)) ks"
  shows "pool_inv (snd (collect_payload ks pool mb mg))"
    and "pool_txs (snd (collect_payload ks pool mb mg)) = pool_txs pool - set (selected ks pool mb mg)"
proof -
  let ?S = "senders (pool_inner_of pool)" and ?es = "selected ks pool mb mg"
  let ?inc = "map (\<lambda>e. (entry_sender e, entry_nonce e)) ?es"
  note b = selected_basic [OF inv ks, of mb mg]
  have heads: "\<forall>(s, n) \<in> set ?inc. \<exists>e. head_of ?S s n e" using b(3) by auto
  have "distinct (map fst ?inc)" using b(1) by (simp add: comp_def)
  note spec = fold_remove_heads [OF inv this heads]
  have "{e. \<exists>(s, n) \<in> set ?inc. head_of ?S s n e} = set ?es"
    using b(3) by (fastforce simp: head_of_def)
  then show "pool_inv (snd (collect_payload ks pool mb mg))"
    "pool_txs (snd (collect_payload ks pool mb mg)) = pool_txs pool - set ?es"
    using spec by (simp_all add: collect_payload_eq [OF inv])
qed

end
