(* ===== verification/Tx_Pool_Commit.thy ===== *)
theory Tx_Pool_Commit
  imports Tx_Pool_Inv
begin

text \<open>
  \<open>on_commit\<close>: the loop over the senders, in whatever order the hash map yields them, evicts exactly
  the transactions below their account's nonce, promotes what has become executable and forgets the
  senders that are left with nothing.
\<close>

section \<open>The loop over the senders\<close>

definition stale_of :: "(address \<Rightarrow> u64) \<Rightarrow> (address \<rightharpoonup> sender_queue) \<Rightarrow> address \<Rightarrow> b256 list" where
  "stale_of f S s = (case S s of None \<Rightarrow> [] | Some q \<Rightarrow> fst (commit_queue (f s) q))"

definition kept_of :: "(address \<Rightarrow> u64) \<Rightarrow> (address \<rightharpoonup> sender_queue) \<Rightarrow> address \<Rightarrow> sender_queue option" where
  "kept_of f S s = map_option (\<lambda>q. snd (commit_queue (f s) q)) (S s)"

lemma commit_loop_spec:
  "distinct ks \<Longrightarrow> commit_loop f ks S hs es =
     (\<lambda>s. if s \<in> set ks then kept_of f S s else S s,
      hs @ concat (map (stale_of f S) ks),
      es @ filter (\<lambda>s. \<exists>q. kept_of f S s = Some q \<and> queue_empty q) ks)"
proof (induction ks arbitrary: S hs es)
  case (Cons s ks)
  show ?case
  proof (cases "S s")
    case None
    with Cons show ?thesis by (auto simp: stale_of_def kept_of_def fun_eq_iff)
  next
    case (Some q)
    obtain stale q' where c: "commit_queue (f s) q = (stale, q')" by fastforce
    let ?S = "hm_insert s q' S"
    have other: "kept_of f ?S t = kept_of f S t" "stale_of f ?S t = stale_of f S t"
      if "t \<noteq> s" for t using that by (simp_all add: kept_of_def stale_of_def hm_insert_def)
    have ks: "map (stale_of f ?S) ks = map (stale_of f S) ks"
      "filter (\<lambda>s. \<exists>q. kept_of f ?S s = Some q \<and> queue_empty q) ks =
       filter (\<lambda>s. \<exists>q. kept_of f S s = Some q \<and> queue_empty q) ks"
    proof -
      have "t \<noteq> s" if "t \<in> set ks" for t using that Cons.prems by auto
      then show "map (stale_of f ?S) ks = map (stale_of f S) ks"
        "filter (\<lambda>s. \<exists>q. kept_of f ?S s = Some q \<and> queue_empty q) ks =
         filter (\<lambda>s. \<exists>q. kept_of f S s = Some q \<and> queue_empty q) ks"
        by (simp_all add: other cong: map_cong filter_cong)
    qed
    have here: "stale_of f S s = stale" "kept_of f S s = Some q'"
      using Some c by (simp_all add: stale_of_def kept_of_def)
    have S: "(\<lambda>t. if t \<in> set ks then kept_of f ?S t else ?S t) =
        (\<lambda>t. if t \<in> set (s # ks) then kept_of f S t else S t)"
    proof
      fix t show "(if t \<in> set ks then kept_of f ?S t else ?S t) =
          (if t \<in> set (s # ks) then kept_of f S t else S t)"
        using Cons.prems other [of t] here by (cases "t = s") (auto simp: hm_insert_def)
    qed
    have "commit_loop f (s # ks) S hs es =
        commit_loop f ks ?S (hs @ stale) (if queue_empty q' then es @ [s] else es)"
      using Some c by simp
    also have "\<dots> = (\<lambda>t. if t \<in> set ks then kept_of f ?S t else ?S t,
        (hs @ stale) @ concat (map (stale_of f ?S) ks),
        (if queue_empty q' then es @ [s] else es) @
          filter (\<lambda>s. \<exists>q. kept_of f ?S s = Some q \<and> queue_empty q) ks)"
      using Cons.prems by (intro Cons.IH) simp
    finally show ?thesis using here by (simp add: ks S)
  qed
qed simp

text \<open>What is left for a sender, and the hashes that leave the index.\<close>

definition commit_senders ::
    "(address \<Rightarrow> u64) \<Rightarrow> (address \<rightharpoonup> sender_queue) \<Rightarrow> (address \<rightharpoonup> sender_queue)" where
  "commit_senders f S s =
     (case kept_of f S s of None \<Rightarrow> None | Some q \<Rightarrow> if queue_empty q then None else Some q)"

definition commit_hashes :: "(address \<Rightarrow> u64) \<Rightarrow> (address \<rightharpoonup> sender_queue) \<Rightarrow> b256 set" where
  "commit_hashes f S = (\<Union>s \<in> dom S. set (stale_of f S s))"

lemma on_commit_pool_eq:
  assumes ks: "iter_order (senders (pool_inner_of pool)) ks"
  shows "on_commit_pool ks f pool =
    pool\<lparr>pool_inner_of := (pool_inner_of pool)\<lparr>
      senders := commit_senders f (senders (pool_inner_of pool)),
      by_hash := \<lambda>h. if h \<in> commit_hashes f (senders (pool_inner_of pool)) then None
                     else by_hash (pool_inner_of pool) h\<rparr>\<rparr>"
proof -
  let ?S = "senders (pool_inner_of pool)"
  have dom: "distinct ks" "\<And>s. s \<notin> set ks \<Longrightarrow> ?S s = None" "set ks = dom ?S"
    using ks by (auto simp: iter_order_def)
  let ?K = "\<lambda>s. if s \<in> set ks then kept_of f ?S s else ?S s"
  let ?E = "filter (\<lambda>s. \<exists>q. kept_of f ?S s = Some q \<and> queue_empty q) ks"
  have "fold hm_remove ?E ?K s = commit_senders f ?S s" for s
  proof -
    have "fold hm_remove ?E ?K s = (if s \<in> set ?E then None else ?K s)"
      using hm.get_fold_remove [where m = ?K and ks = ?E] by simp
    also have "\<dots> = commit_senders f ?S s"
      using dom(2) [of s] by (auto simp: commit_senders_def kept_of_def split: option.splits)
    finally show ?thesis .
  qed
  then have "fold hm_remove ?E ?K = commit_senders f ?S" by (rule ext)
  moreover have "fold hm_remove (concat (map (stale_of f ?S) ks)) (by_hash (pool_inner_of pool)) =
      (\<lambda>h. if h \<in> commit_hashes f ?S then None else by_hash (pool_inner_of pool) h)"
    using hm.get_fold_remove [where m = "by_hash (pool_inner_of pool)"]
    by (simp add: fun_eq_iff commit_hashes_def dom(3) [symmetric])
  ultimately show ?thesis
    unfolding on_commit_pool_def Let_def commit_loop_spec [OF dom(1)] by simp
qed

section \<open>Invariant and contents after a commit\<close>

lemma commit_queue_hashes:
  assumes "queue_inv cfg s q" "commit_queue c q = (hs, q')"
  shows "queue_hashes q = mset hs + queue_hashes q'"
proof -
  note spec = commit_queue_spec [OF assms]
  have "queue_entries q = filter_mset (\<lambda>(n, _). n < c) (queue_entries q) +
      filter_mset (\<lambda>(n, _). c \<le> n) (queue_entries q)"
    using multiset_partition [of "queue_entries q" "\<lambda>(n, _). n < c"]
    by (simp add: split_def not_less)
  then show ?thesis
    unfolding queue_hashes_def spec(2,3) by (metis image_mset_union)
qed

lemma queue_empty_entries: "queue_empty q \<longleftrightarrow> queue_entries q = {#}"
  by (simp add: queue_empty_def queue_entries_def)

lemma commit_senders_Some:
  "commit_senders f S s = Some q' \<longleftrightarrow>
     (\<exists>q. S s = Some q \<and> q' = snd (commit_queue (f s) q) \<and> \<not> queue_empty q')"
  by (auto simp: commit_senders_def kept_of_def split: option.splits)

lemma commit_member:
  assumes inv: "pool_inv pool"
  shows "(\<exists>q. commit_senders f (senders (pool_inner_of pool)) s = Some q \<and> (n, e) \<in># queue_entries q)
     \<longleftrightarrow> (n, e) \<in># queue_entries (queue_of pool s) \<and> f s \<le> n"
proof (cases "senders (pool_inner_of pool) s")
  case None
  then show ?thesis
    by (simp add: commit_senders_def kept_of_def queue_of_def empty_queue_def queue_entries_def)
next
  case (Some q)
  obtain hs q' where c: "commit_queue (f s) q = (hs, q')" by fastforce
  have "queue_inv (pool_config pool) s q" using inv Some by (simp add: pool_inv_def)
  from commit_queue_spec(2) [OF this c] show ?thesis
    using Some c by (auto simp: commit_senders_Some queue_of_def queue_empty_entries)
qed

lemma disjoint_counts: "count (A + B) h \<le> 1 \<Longrightarrow> h \<in># B \<longleftrightarrow> h \<in># A + B \<and> h \<notin># A"
  by (cases "h \<in># A"; cases "h \<in># B")
    (simp_all only: count_greater_zero_iff [symmetric] count_union, simp_all)

lemma commit_hash_member:
  assumes inv: "pool_inv pool"
  shows "(\<exists>q. commit_senders f (senders (pool_inner_of pool)) s = Some q \<and> h \<in># queue_hashes q)
     \<longleftrightarrow> h \<in># queue_hashes (queue_of pool s) \<and> h \<notin> commit_hashes f (senders (pool_inner_of pool))"
    (is "?l \<longleftrightarrow> ?r")
proof (cases "senders (pool_inner_of pool) s")
  case None
  then show ?thesis
    by (simp add: commit_senders_def kept_of_def queue_of_def)
next
  case (Some q)
  let ?S = "senders (pool_inner_of pool)"
  obtain hs q' where c: "commit_queue (f s) q = (hs, q')" by fastforce
  have inv_at: "queue_inv (pool_config pool) t p" if "?S t = Some p" for t p
    using inv that by (simp add: pool_inv_def)
  have split: "queue_hashes q = mset hs + queue_hashes q'"
    by (rule commit_queue_hashes [OF inv_at [OF Some] c])
  have qo: "queue_of pool s = q" by (simp add: queue_of_def Some)
  have one: "count (queue_hashes q) h \<le> 1" using count_queue_of [OF inv, of s h] by (simp add: qo)
  have stale_in: "h \<in># queue_hashes (queue_of pool t)" if "h \<in> set (stale_of f ?S t)" for t
  proof -
    from that obtain p where p: "?S t = Some p" "h \<in> set (fst (commit_queue (f t) p))"
      by (cases "?S t") (simp_all add: stale_of_def)
    have "queue_hashes p = mset (fst (commit_queue (f t) p)) + queue_hashes (snd (commit_queue (f t) p))"
      by (rule commit_queue_hashes [OF inv_at [OF p(1)] prod.collapse [symmetric]])
    then show ?thesis using p by (simp add: queue_of_def)
  qed
  have here: "t = s" if "h \<in># queue_hashes (queue_of pool t)" "h \<in># queue_hashes q" for t
    using that index_of_queue [OF inv, of h] qo by (metis option.inject)
  have stale: "h \<in> commit_hashes f ?S \<longleftrightarrow> h \<in> set hs" if "h \<in># queue_hashes q"
  proof -
    have "h \<in> commit_hashes f ?S \<longleftrightarrow> h \<in> set (stale_of f ?S s)"
      unfolding commit_hashes_def using stale_in here [OF _ that] Some by blast
    then show ?thesis using Some c by (simp add: stale_of_def)
  qed
  have "?l \<longleftrightarrow> h \<in># queue_hashes q'"
    using Some c by (auto simp: commit_senders_Some queue_empty_entries queue_hashes_def)
  also have "\<dots> \<longleftrightarrow> h \<in># queue_hashes q \<and> h \<notin> set hs"
    using one disjoint_counts [of "mset hs" "queue_hashes q'" h] unfolding split by simp
  finally show ?thesis using stale by (auto simp: qo)
qed

lemma on_commit_inv:
  assumes inv: "pool_inv pool" and ks: "iter_order (senders (pool_inner_of pool)) ks"
  shows "pool_inv (on_commit_pool ks f pool)"
proof -
  let ?I = "pool_inner_of pool"
  let ?S = "commit_senders f (senders ?I)"
  let ?X = "\<lambda>h. if h \<in> commit_hashes f (senders ?I) then None else by_hash ?I h"
  have q: "queue_inv (pool_config pool) s q'"
    and sub: "queue_entries q' \<subseteq># queue_entries (queue_of pool s)" if at: "?S s = Some q'" for s q'
  proof -
    obtain q where q: "senders ?I s = Some q" "q' = snd (commit_queue (f s) q)"
      using at by (auto simp: commit_senders_Some)
    then have "queue_inv (pool_config pool) s q" using inv by (simp add: pool_inv_def)
    note spec = commit_queue_spec(1,2) [OF this prod.collapse [symmetric], of "f s"]
    show "queue_inv (pool_config pool) s q'" using spec(1) q(2) by simp
    have "queue_of pool s = q" by (simp add: queue_of_def q(1))
    then show "queue_entries q' \<subseteq># queue_entries (queue_of pool s)"
      by (simp only: q(2) spec(2) multiset_filter_subset)
  qed
  have "?X h = Some s \<longleftrightarrow> (\<exists>q. ?S s = Some q \<and> h \<in># queue_hashes q)" for s h
    using commit_hash_member [OF inv, of f s h] index_of_queue [OF inv, of h s] by simp
  moreover have "count (queue_hashes q') h \<le> 1" if "?S s = Some q'" for s q' h
  proof -
    have "queue_hashes q' \<subseteq># queue_hashes (queue_of pool s)"
      unfolding queue_hashes_def by (rule image_mset_subseteq_mono [OF sub [OF that]])
    then have "count (queue_hashes q') h \<le> count (queue_hashes (queue_of pool s)) h"
      by (rule mset_subset_eq_count)
    also have "\<dots> \<le> 1" by (rule count_queue_of [OF inv])
    finally show ?thesis .
  qed
  ultimately have "index_ok ?S ?X" unfolding index_ok_def by blast
  then show ?thesis unfolding on_commit_pool_eq [OF ks] pool_inv_def using q by simp
qed

lemma pool_txs_filed:
  assumes "pool_inv pool"
  shows "e \<in> pool_txs pool \<longleftrightarrow> (entry_nonce e, e) \<in># queue_entries (queue_of pool (entry_sender e))"
proof
  assume "e \<in> pool_txs pool"
  then obtain s q n where q: "senders (pool_inner_of pool) s = Some q" "(n, e) \<in># queue_entries q"
    by (auto simp: txs_of_def)
  then have "filed s (queue_entries q)" using assms by (simp add: pool_inv_def queue_inv_def)
  with q show "(entry_nonce e, e) \<in># queue_entries (queue_of pool (entry_sender e))"
    by (auto simp: filed_def queue_of_def)
next
  assume "(entry_nonce e, e) \<in># queue_entries (queue_of pool (entry_sender e))"
  then show "e \<in> pool_txs pool" unfolding pool_txs_split [of pool "entry_sender e"] by force
qed

lemma on_commit_txs:
  assumes inv: "pool_inv pool" and ks: "iter_order (senders (pool_inner_of pool)) ks"
  shows "pool_txs (on_commit_pool ks f pool) = {e \<in> pool_txs pool. f (entry_sender e) \<le> entry_nonce e}"
proof (rule set_eqI)
  fix e
  let ?P = "on_commit_pool ks f pool"
  have qo: "(\<exists>q. commit_senders f (senders (pool_inner_of pool)) s = Some q \<and> (n, e) \<in># queue_entries q)
      \<longleftrightarrow> (n, e) \<in># queue_entries (queue_of ?P s)" for s n
    by (auto simp: on_commit_pool_eq [OF ks] queue_of_def empty_queue_def queue_entries_def
        split: option.splits)
  show "e \<in> pool_txs ?P \<longleftrightarrow> e \<in> {e \<in> pool_txs pool. f (entry_sender e) \<le> entry_nonce e}"
    unfolding pool_txs_filed [OF on_commit_inv [OF inv ks]] qo [symmetric] commit_member [OF inv]
    by (simp add: pool_txs_filed [OF inv])
qed

lemma on_commit_no_empty:
  assumes ks: "iter_order (senders (pool_inner_of pool)) ks"
    and "senders (pool_inner_of (on_commit_pool ks f pool)) s = Some q"
  shows "\<not> queue_empty q"
  using assms(2) by (auto simp: on_commit_pool_eq [OF ks] commit_senders_Some)

text \<open>After a commit the account's next transaction, if it is held, is pending.\<close>

lemma promote_loop_head:
  assumes "bt_ok p" "bt_ok q" "bt_get q 0 = None" "promotes_from nxt p" "p = (c, e) # rest"
  shows "\<exists>rest'. fst (promote_loop nxt p q) = (c, e) # rest'"
  using assms
proof (induction nxt p q arbitrary: rest rule: promote_loop.induct)
  case (1 nxt p q)
  show ?case
  proof (cases "bt_get q nxt")
    case None
    then show ?thesis using "1.prems" by (simp add: promote_loop.simps [of nxt _ q])
  next
    case (Some x)
    with "1.prems"(3) have nz: "nxt \<noteq> 0" by auto
    note fresh = promotes_from_fresh [OF "1.prems"(1,4) nz]
    have "bt_get (bt_insert nxt x p) c = Some e"
      using fresh(1) "1.prems"(5) by (auto simp: bt_get_insert)
    then have "c < nxt"
      using bt_last_key_greatest [OF bt_ok_insert [OF "1.prems"(1)] fresh(2)] fresh(1) "1.prems"(5)
      by (metis le_neq_trans map_of_Cons_code(2) option.distinct(1))
    then have ins: "bt_insert nxt x p = (c, e) # bt_insert nxt x rest" using "1.prems"(5) by auto
    have "\<exists>rest'. fst (promote_loop (nxt + 1) (bt_insert nxt x p) (bt_remove nxt q)) = (c, e) # rest'"
      by (rule "1.IH" [OF Some _ _ _ _ ins])
        (use "1.prems"(1-3) fresh(2) in \<open>simp_all add: bt_simps promotes_from_def\<close>)
    then show ?thesis using Some by (simp add: promote_loop.simps [of nxt p q])
  qed
qed

lemma promote_takes_current:
  assumes "queue_wf q" "sq_pending q = []" "bt_get (sq_queued q) c = Some e"
  shows "\<exists>rest. sq_pending (promote_queued_static q c) = (c, e) # rest"
proof -
  have "\<exists>rest. fst (promote_loop (c + 1) [(c, e)] (bt_remove c (sq_queued q))) = (c, e) # rest"
    by (rule promote_loop_head)
      (use assms(1) in \<open>simp_all add: queue_wf_def bt_ok_Cons bt_simps promotes_from_def bt_last_key_def\<close>)
  then show ?thesis
    using assms(2,3)
    by (simp add: promote_queued_static_def bt_last_key_def promote_loop.simps [of c "[]"] split_beta
        Let_def)
qed

end
