(* ===== verification/State_Machine.thy ===== *)
theory State_Machine
  imports Main
begin

text \<open>
  The contract of a component that runs as a state machine: an initial state, a step relation and an
  invariant that the initial states have and every step keeps. Every reachable state then has it.
\<close>

locale safe_machine =
  fixes init :: "'s \<Rightarrow> bool"
    and step :: "'s \<Rightarrow> 's \<Rightarrow> bool"
    and inv :: "'s \<Rightarrow> bool"
  assumes init_inv: "init s \<Longrightarrow> inv s"
    and step_inv: "inv s \<Longrightarrow> step s t \<Longrightarrow> inv t"
begin

lemma steps_inv: "step\<^sup>*\<^sup>* s t \<Longrightarrow> inv s \<Longrightarrow> inv t"
  by (induction rule: rtranclp_induct) (auto intro: step_inv)

lemma reachable_inv: "init s \<Longrightarrow> step\<^sup>*\<^sup>* s t \<Longrightarrow> inv t"
  using steps_inv init_inv by blast

end

text \<open>
  A client of such a machine: it has a state of its own, shows the machine's state in it, and serves
  requests by at most one step of the machine each. Whatever it serves, the machine has made steps.
\<close>

locale machine_client = safe_machine init step inv
  for init :: "'s \<Rightarrow> bool" and step :: "'s \<Rightarrow> 's \<Rightarrow> bool" and inv :: "'s \<Rightarrow> bool" +
  fixes view :: "'p \<Rightarrow> 's"
    and serve :: "'r \<Rightarrow> 'p \<Rightarrow> 'p"
  assumes serve_step: "step\<^sup>=\<^sup>= (view p) (view (serve r p))"
begin

lemma serves: "step\<^sup>*\<^sup>* (view p) (view (fold serve rs p))"
proof (induction rs arbitrary: p)
  case (Cons r rs)
  have "step\<^sup>*\<^sup>* (view p) (view (serve r p))" using serve_step [of p r] by auto
  with Cons [of "serve r p"] show ?case by simp
qed simp

lemma serves_inv: "inv (view p) \<Longrightarrow> inv (view (fold serve rs p))"
  using steps_inv [OF serves] .

end

text \<open>
  Replicas. A run alternates internal steps with commands, which all replicas are given in the same
  order and which produce a result; \<open>labelled_run\<close> collects commands and results. Two replicas
  agree when a relation between their states survives internal steps on either side and makes equal
  commands give equal results.
\<close>

inductive labelled_run ::
    "('s \<Rightarrow> 's \<Rightarrow> bool) \<Rightarrow> ('c \<Rightarrow> 's \<Rightarrow> 'o \<Rightarrow> 's \<Rightarrow> bool) \<Rightarrow> 's \<Rightarrow> ('c \<times> 'o) list \<Rightarrow> 's \<Rightarrow> bool"
  for internal :: "'s \<Rightarrow> 's \<Rightarrow> bool" and command :: "'c \<Rightarrow> 's \<Rightarrow> 'o \<Rightarrow> 's \<Rightarrow> bool" where
  stop: "labelled_run internal command s [] s"
| internal: "internal s t \<Longrightarrow> labelled_run internal command t cs u \<Longrightarrow> labelled_run internal command s cs u"
| command: "command c s r t \<Longrightarrow> labelled_run internal command t cs u \<Longrightarrow>
     labelled_run internal command s ((c, r) # cs) u"

lemma labelled_run_Cons:
  assumes "labelled_run internal command s ((c, r) # cs) u"
  obtains s' t where "internal\<^sup>*\<^sup>* s s'" "command c s' r t" "labelled_run internal command t cs u"
  using assms
proof (induction s "(c, r) # cs" u arbitrary: thesis)
  case (internal s t u)
  from internal.hyps(3) obtain s' t' where "internal\<^sup>*\<^sup>* t s'" "command c s' r t'"
    "labelled_run internal command t' cs u" by blast
  then show ?case using internal.prems internal.hyps(1) converse_rtranclp_into_rtranclp by metis
qed auto

lemma labelled_run_Nil:
  fixes command :: "'c \<Rightarrow> 's \<Rightarrow> 'o \<Rightarrow> 's \<Rightarrow> bool"
  shows "labelled_run internal command s [] t \<Longrightarrow> internal\<^sup>*\<^sup>* s t"
  by (induction s "[] :: ('c \<times> 'o) list" t rule: labelled_run.induct)
    (auto intro: converse_rtranclp_into_rtranclp)

lemma labelled_run_steps:
  assumes "labelled_run internal command s cs t"
    and "\<And>s t. internal s t \<Longrightarrow> step s t" and "\<And>c s r t. command c s r t \<Longrightarrow> step s t"
  shows "step\<^sup>*\<^sup>* s t"
  using assms(1) by (induction rule: labelled_run.induct)
    (auto intro: converse_rtranclp_into_rtranclp assms(2,3))

locale replicated =
  fixes internal :: "'s \<Rightarrow> 's \<Rightarrow> bool"
    and command :: "'c \<Rightarrow> 's \<Rightarrow> 'o \<Rightarrow> 's \<Rightarrow> bool"
    and sim :: "'s \<Rightarrow> 's \<Rightarrow> bool"
  assumes sim_sym: "sim s t \<Longrightarrow> sim t s"
    and sim_internal: "sim s t \<Longrightarrow> internal s s' \<Longrightarrow> sim s' t"
    and sim_command: "sim s t \<Longrightarrow> command c s r s' \<Longrightarrow> command c t r' t' \<Longrightarrow> r = r' \<and> sim s' t'"
begin

lemma sim_internals: "internal\<^sup>*\<^sup>* s s' \<Longrightarrow> sim t s \<Longrightarrow> sim t s'"
  by (induction rule: rtranclp_induct) (blast intro: sim_sym sim_internal)+

lemma runs_agree:
  assumes "labelled_run internal command s cs s'" "labelled_run internal command t ds t'"
    and "sim s t" "map fst cs = map fst ds"
  shows "cs = ds \<and> sim s' t'"
  using assms
proof (induction arbitrary: t ds rule: labelled_run.induct)
  case (stop s)
  then show ?case by (auto dest!: labelled_run_Nil intro: sim_internals)
next
  case (internal s s1 cs u)
  then show ?case using sim_internal by blast
next
  case (command c s r s1 cs u)
  obtain r' ds' where ds: "ds = (c, r') # ds'" "map fst cs = map fst ds'"
    using command.prems(3) by (cases ds) auto
  obtain t0 t1 where t: "internal\<^sup>*\<^sup>* t t0" "command c t0 r' t1" "labelled_run internal command t1 ds' t'"
    using command.prems(1) unfolding ds(1) by (rule labelled_run_Cons)
  have "r = r' \<and> sim s1 t1"
    using sim_command [OF sim_internals [OF t(1) command.prems(2)] command.hyps(1) t(2)] .
  then show ?case using command.IH [OF t(3) _ ds(2)] ds(1) by simp
qed

end

end
