(* ===== verification/Tx_Pool_Spec.thy ===== *)
theory Tx_Pool_Spec
  imports Tx_Pool_Select Tx_Pool_Commit State_Machine
begin

text \<open>
  The transaction pool as a state machine, and the properties of its operations. The abstract state
  of a pool is the set of transactions it holds (\<open>pool_txs\<close>): a submission inserts one and may
  remove the one it replaces, a collection removes what it puts into the payload, a commit removes
  what has become stale. Every state reached by these operations satisfies \<open>pool_inv\<close>.
\<close>

section \<open>The state machine\<close>

inductive pool_step :: "tx_codec \<Rightarrow> 'st evm_tx_pool \<Rightarrow> 'st evm_tx_pool \<Rightarrow> bool"
  for C :: tx_codec where
  step_nonce_fn: "pool_step C pool (set_nonce_fn f pool)"
| step_submit: "pool_step C pool (snd (submit_tx C st pool raw))"
| step_collect: "iter_order (senders (pool_inner_of pool)) ks \<Longrightarrow>
     pool_step C pool (snd (collect_payload ks pool max_bytes max_gas))"
| step_commit: "iter_order (senders (pool_inner_of pool)) ks \<Longrightarrow>
     pool_step C pool (on_commit_pool ks f pool)"
| step_base_fee: "pool_step C pool (update_base_fee pool fee)"

inductive_cases pool_stepE: "pool_step C pool pool'"

definition pool_reachable :: "tx_codec \<Rightarrow> evm_tx_pool_config \<Rightarrow> 'st evm_tx_pool \<Rightarrow> bool" where
  "pool_reachable C cfg pool \<longleftrightarrow> (pool_step C)\<^sup>*\<^sup>* (new_tx_pool cfg) pool"

lemma config_new: "pool_config (new_tx_pool cfg) = cfg"
  by (simp add: new_tx_pool_def)

lemma config_touched [simp]: "pool_config (touched pool s) = pool_config pool"
  by (simp add: touched_def)

lemma config_admitted [simp]: "pool_config (admitted pool v old q) = pool_config pool"
  by (simp add: admitted_def)

lemma config_submit: "pool_config (snd (submit_tx C st pool raw)) = pool_config pool"
proof -
  obtain r pool' where eq: "submit_tx C st pool raw = (r, pool')" by fastforce
  then have "pool_config pool' = pool_config pool" by (cases rule: submit_tx_cases) simp_all
  with eq show ?thesis by simp
qed

lemma pool_step_inv: "pool_step C pool pool' \<Longrightarrow> pool_inv pool \<Longrightarrow> pool_inv pool'"
  by (erule pool_stepE)
    (simp_all add: pool_inv_set_nonce_fn submit_tx_inv collect_payload_removes(1) on_commit_inv
      update_base_fee_def)

lemma pool_step_config: "pool_step C pool pool' \<Longrightarrow> pool_config pool' = pool_config pool"
  by (erule pool_stepE)
    (simp_all add: set_nonce_fn_def config_submit collect_payload_def on_commit_pool_def
      update_base_fee_def Let_def split_beta)

interpretation pool: safe_machine "\<lambda>p. p = new_tx_pool cfg" "pool_step C"
  "\<lambda>p. pool_inv p \<and> pool_config p = cfg" for cfg C
  by unfold_locales (auto simp: pool_inv_new config_new pool_step_config intro: pool_step_inv)

lemma reachable_pool_inv: "pool_reachable C cfg pool \<Longrightarrow> pool_inv pool \<and> pool_config pool = cfg"
  unfolding pool_reachable_def by (rule pool.reachable_inv [OF refl])

text \<open>How the index and the queues of a pool that satisfies the invariant look from outside.\<close>

lemma pool_index_iff:
  assumes "pool_inv pool"
  shows "by_hash (pool_inner_of pool) h = Some s \<longleftrightarrow>
     (\<exists>e \<in> pool_txs pool. entry_hash e = h \<and> entry_sender e = s)"
proof -
  have "(n, e) \<in># queue_entries (queue_of pool s) \<Longrightarrow> entry_sender e = s \<and> entry_nonce e = n" for n e
    using queue_of_inv [OF assms, of s] by (auto simp: queue_inv_def filed_def)
  then show ?thesis
    unfolding index_of_queue [OF assms] hash_in_queue_iff Bex_def pool_txs_filed [OF assms] by metis
qed

lemma pool_contains_iff:
  "pool_inv pool \<Longrightarrow> pool_contains pool h \<longleftrightarrow> (\<exists>e \<in> pool_txs pool. entry_hash e = h)"
  using pool_index_iff [of pool h] by (auto simp: pool_contains_def)

lemma pool_hash_inj: "pool_inv pool \<Longrightarrow> inj_on entry_hash (pool_txs pool)"
proof (rule inj_onI)
  fix e x assume inv: "pool_inv pool" and mem: "e \<in> pool_txs pool" "x \<in> pool_txs pool"
    and eq: "entry_hash e = entry_hash x"
  have s: "entry_sender e = entry_sender x"
    using pool_index_iff [OF inv, of "entry_hash e"] mem eq by (metis option.inject)
  have idx: "index_ok (senders (pool_inner_of pool)) (by_hash (pool_inner_of pool))"
    using inv by (simp add: pool_inv_def)
  note ent = mem [unfolded pool_txs_filed [OF inv]]
  then obtain q where q: "senders (pool_inner_of pool) (entry_sender x) = Some q"
    by (cases "senders (pool_inner_of pool) (entry_sender x)")
      (auto simp: queue_of_def queue_entries_def empty_queue_def)
  from index_unique_entry [OF idx q] ent s eq show "e = x" by (auto simp: queue_of_def q)
qed

lemma size_unique:
  "\<forall>h. count (image_mset f M) h \<le> 1 \<Longrightarrow> size M = card (f ` set_mset M)"
proof (induction M)
  case (add x M)
  have "count (image_mset f M) h \<le> 1" for h
    using add.prems [rule_format, of h] by (simp split: if_splits)
  moreover have "f x \<notin> f ` set_mset M"
  proof
    assume "f x \<in> f ` set_mset M"
    then have "0 < count (image_mset f M) (f x)" by (simp only: count_greater_zero_iff) simp
    with add.prems [rule_format, of "f x"] show False by simp
  qed
  ultimately show ?case using add.IH by simp
qed simp

lemma pool_txs_union:
  assumes "iter_order (senders (pool_inner_of pool)) ks"
  shows "pool_txs pool = (\<Union>s \<in> set ks. snd ` set_mset (queue_entries (queue_of pool s)))"
proof -
  have at: "s \<in> set ks \<and> queue_of pool s = q" if "senders (pool_inner_of pool) s = Some q" for s q
    using assms that by (auto simp: iter_order_def queue_of_def)
  have "snd ` set_mset (queue_entries (queue_of pool s)) \<subseteq> pool_txs pool" for s
    unfolding pool_txs_split [of pool s] by simp
  moreover have "e \<in> (\<Union>s \<in> set ks. snd ` set_mset (queue_entries (queue_of pool s)))"
    if "e \<in> pool_txs pool" for e
  proof -
    obtain s q n where "senders (pool_inner_of pool) s = Some q" "(n, e) \<in># queue_entries q"
      using \<open>e \<in> pool_txs pool\<close> by (auto simp: txs_of_def)
    then show ?thesis using at by force
  qed
  ultimately show ?thesis by blast
qed

lemma pool_counts_card:
  assumes inv: "pool_inv pool" and ks: "iter_order (senders (pool_inner_of pool)) ks"
  shows "pending_count ks pool + queued_count ks pool = card (pool_txs pool)"
proof -
  let ?E = "\<lambda>s. queue_entries (queue_of pool s)"
  have d: "distinct ks" using ks by (simp add: iter_order_def)
  have "pending_count ks pool + queued_count ks pool = (\<Sum>s \<leftarrow> ks. size (?E s))"
    unfolding pending_count_def queued_count_def sum_list_addf [symmetric]
    by (intro arg_cong [where f = sum_list] map_cong refl)
      (simp add: queue_of_def queue_entries_def empty_queue_def split: option.splits)
  also have "\<dots> = (\<Sum>s \<in> set ks. card (snd ` set_mset (?E s)))"
  proof -
    have "size (?E s) = card (snd ` set_mset (?E s))" for s
    proof -
      have eq: "(\<lambda>(n, e). entry_hash e) ` set_mset (?E s) = entry_hash ` snd ` set_mset (?E s)"
        by force
      have "snd ` set_mset (?E s) \<subseteq> pool_txs pool" unfolding pool_txs_split [of pool s] by simp
      then have "inj_on entry_hash (snd ` set_mset (?E s))"
        using pool_hash_inj [OF inv] inj_on_subset by blast
      then show ?thesis
        using size_unique [of "\<lambda>(n, e). entry_hash e" "?E s"] count_queue_of [OF inv, of s]
        by (simp add: queue_hashes_def eq card_image)
    qed
    then show ?thesis using d by (simp add: sum_list_distinct_conv_sum_set)
  qed
  also have "\<dots> = card (\<Union>s \<in> set ks. snd ` set_mset (?E s))"
  proof (rule card_UN_disjoint [symmetric])
    have "entry_sender e = s" if "e \<in> snd ` set_mset (?E s)" for e s
      using that queue_of_inv [OF inv, of s] by (auto simp: queue_inv_def filed_def)
    then show "\<forall>s \<in> set ks. \<forall>t \<in> set ks. s \<noteq> t \<longrightarrow> snd ` set_mset (?E s) \<inter> snd ` set_mset (?E t) = {}"
      by blast
  qed simp_all
  finally show ?thesis by (simp add: pool_txs_union [OF ks])
qed

section \<open>A concrete codec and run\<close>

text \<open>
  For the concrete executions below: a transaction is four bytes, its sender, its nonce, its priority
  fee and its gas limit. The hash is the number the bytes spell, the base fee is that of the default
  configuration, so the tip is the third byte. Gas byte 255 stands for the largest gas limit.
\<close>

definition demo_decode :: "bytes \<Rightarrow> string + tx_envelope" where
  "demo_decode raw =
     (case raw of
        [s, n, t, g] \<Rightarrow>
          Inr (sample_envelope\<lparr>env_nonce := ucast n, env_gas_limit := (if g = 255 then - 1 else ucast g),
                 env_max_fee_per_gas := 1000000000 + ucast t,
                 env_max_priority_fee_per_gas := Some (ucast t), env_value := ucast s,
                 env_tx_hash := ucast s * 16777216 + ucast n * 65536 + ucast t * 256 + ucast g\<rparr>)
      | _ \<Rightarrow> Inl ''unexpected length'')"

definition demo_codec :: tx_codec where
  "demo_codec = \<lparr>decode_2718 = demo_decode, recover_signer = (\<lambda>env. Inr (ucast (env_value env)))\<rparr>"

definition demo_submit :: "bytes \<Rightarrow> unit evm_tx_pool \<Rightarrow> unit evm_tx_pool" where
  "demo_submit raw pool = snd (submit_tx demo_codec () pool raw)"

definition demo_pool :: "evm_tx_pool_config \<Rightarrow> bytes list \<Rightarrow> unit evm_tx_pool" where
  "demo_pool cfg raws = fold demo_submit raws (new_tx_pool cfg)"

lemma fold_demo_submit_steps: "(pool_step demo_codec)\<^sup>*\<^sup>* pool (fold demo_submit raws pool)"
proof (induction raws arbitrary: pool)
  case (Cons raw raws)
  have "pool_step demo_codec pool (demo_submit raw pool)"
    unfolding demo_submit_def by (rule step_submit)
  with Cons show ?case by (simp add: converse_rtranclp_into_rtranclp)
qed simp

lemma demo_pool_reachable: "pool_reachable demo_codec cfg (demo_pool cfg raws)"
  unfolding pool_reachable_def demo_pool_def by (rule fold_demo_submit_steps)

lemmas demo_defs = demo_pool_def demo_submit_def demo_codec_def demo_decode_def sample_envelope_def
  submit_tx_def decode_and_recover_def new_tx_pool_def default_tx_pool_config_def
  effective_gas_tip_def queue_admit_def promote_queued_static_def empty_queue_def bt_last_key_def
  saturating_sub_def saturating_mul_def hm_insert_def hm_remove_def

lemmas demo_run = demo_defs Let_def queue_of_def promote_loop.simps

section \<open>Properties of the whole machine\<close>

text \<open>
  C2: in every state the pool can reach, \<^verbatim>\<open>by_hash\<close> is exact: it maps a hash to a sender if and only
  if the pool holds a transaction with that hash and sender; no two transactions held share a hash;
  and every entry of a sender's maps, which are ordered by nonce, is a transaction of that sender
  with that nonce.
\<close>

theorem pool_reachable_index:
  assumes "pool_reachable C cfg pool"
  shows "(\<forall>h s. by_hash (pool_inner_of pool) h = Some s \<longleftrightarrow>
            (\<exists>e \<in> pool_txs pool. entry_hash e = h \<and> entry_sender e = s)) \<and>
         inj_on entry_hash (pool_txs pool) \<and>
         (\<forall>s q. senders (pool_inner_of pool) s = Some q \<longrightarrow>
            bt_ok (sq_pending q) \<and> bt_ok (sq_queued q) \<and>
            (\<forall>(n, e) \<in> set (sq_pending q) \<union> set (sq_queued q). entry_sender e = s \<and> entry_nonce e = n))"
proof -
  have inv: "pool_inv pool" using reachable_pool_inv [OF assms] by simp
  have "queue_inv (pool_config pool) s q" if "senders (pool_inner_of pool) s = Some q" for s q
    using inv that by (simp add: pool_inv_def)
  then have "bt_ok (sq_pending q) \<and> bt_ok (sq_queued q) \<and>
      (\<forall>(n, e) \<in> set (sq_pending q) \<union> set (sq_queued q). entry_sender e = s \<and> entry_nonce e = n)"
    if "senders (pool_inner_of pool) s = Some q" for s q
    using that by (simp add: queue_inv_def queue_wf_def filed_def queue_entries_def)
  then show ?thesis using pool_index_iff [OF inv] pool_hash_inj [OF inv] by blast
qed

theorem pool_reachable_index_witness:
  "let pool = demo_pool default_tx_pool_config [[1, 0, 7, 21]]
   in (\<exists>e \<in> pool_txs pool. entry_hash e = 16779029 \<and> entry_sender e = 1)"
proof -
  let ?pool = "demo_pool default_tx_pool_config [[1, 0, 7, 21]]"
  have "by_hash (pool_inner_of ?pool) 16779029 = Some 1" by (simp add: demo_run)
  with pool_reachable_index [OF demo_pool_reachable, of default_tx_pool_config "[[1, 0, 7, 21]]"]
  show ?thesis unfolding Let_def by blast
qed

text \<open>
  C28: in every reachable state a sender has at most \<^verbatim>\<open>max_queued_per_sender\<close> queued transactions and
  at most \<^verbatim>\<open>max_pending_per_sender + max_queued_per_sender\<close> pending ones.
\<close>

theorem pool_reachable_bounds:
  assumes "pool_reachable C cfg pool" and "senders (pool_inner_of pool) s = Some q"
  shows "length (sq_queued q) \<le> max_queued_per_sender cfg \<and>
         length (sq_pending q) \<le> max_pending_per_sender cfg + max_queued_per_sender cfg"
  using reachable_pool_inv [OF assms(1)] assms(2)
  by (auto simp: pool_inv_def queue_inv_def queue_bounded_def)

theorem pool_reachable_bounds_witness:
  "length (sq_pending (queue_of (demo_pool default_tx_pool_config [[1, 0, 7, 21]]) 1)) \<le> 64 + 64"
proof -
  let ?pool = "demo_pool default_tx_pool_config [[1, 0, 7, 21]]"
  have "senders (pool_inner_of ?pool) 1 = Some (queue_of ?pool 1)" by (simp add: demo_run)
  from pool_reachable_bounds [OF demo_pool_reachable this] show ?thesis
    by (simp add: default_tx_pool_config_def)
qed

text \<open>
  The pending bound is not \<^verbatim>\<open>max_pending_per_sender\<close>: promotion checks no limit. With both limits
  set to one, submitting nonce 1 and then nonce 0 leaves two pending transactions.
\<close>

theorem pending_limit_exceeded:
  "\<exists>pool :: unit evm_tx_pool. \<exists>q.
     pool_reachable demo_codec
       (default_tx_pool_config\<lparr>max_pending_per_sender := 1, max_queued_per_sender := 1\<rparr>) pool \<and>
     senders (pool_inner_of pool) 1 = Some q \<and> length (sq_pending q) = 2"
proof -
  let ?cfg = "default_tx_pool_config\<lparr>max_pending_per_sender := 1, max_queued_per_sender := 1\<rparr>"
  let ?pool = "demo_pool ?cfg [[1, 1, 5, 21], [1, 0, 7, 21]]"
  have "\<exists>q. senders (pool_inner_of ?pool) 1 = Some q \<and> length (sq_pending q) = 2"
    by (simp add: demo_run)
  with demo_pool_reachable [of ?cfg "[[1, 1, 5, 21], [1, 0, 7, 21]]"] show ?thesis by blast
qed

text \<open>
  \<^verbatim>\<open>pending_count\<close> and \<^verbatim>\<open>queued_count\<close> together count the transactions held, whatever order the
  hash map is traversed in, and that is the number of entries of the hash index.
\<close>

theorem pool_counts:
  assumes "pool_reachable C cfg pool" and "iter_order (senders (pool_inner_of pool)) ks"
  shows "pending_count ks pool + queued_count ks pool = card (pool_txs pool) \<and>
         card (pool_txs pool) = card (dom (by_hash (pool_inner_of pool)))"
proof -
  have inv: "pool_inv pool" using reachable_pool_inv [OF assms(1)] by simp
  have "dom (by_hash (pool_inner_of pool)) = entry_hash ` pool_txs pool"
    using pool_index_iff [OF inv] by (auto simp: dom_def)
  then show ?thesis
    using pool_counts_card [OF inv assms(2)] card_image [OF pool_hash_inj [OF inv]] by simp
qed

theorem pool_counts_witness:
  "pending_count [1] (demo_pool default_tx_pool_config [[1, 0, 7, 21]]) +
   queued_count [1] (demo_pool default_tx_pool_config [[1, 0, 7, 21]]) =
   card (pool_txs (demo_pool default_tx_pool_config [[1, 0, 7, 21]]))"
proof -
  let ?pool = "demo_pool default_tx_pool_config [[1, 0, 7, 21]]"
  have "iter_order (senders (pool_inner_of ?pool)) [1]" by (simp add: demo_run iter_order_def)
  from pool_counts [OF demo_pool_reachable this] show ?thesis by simp
qed

section \<open>Submission\<close>

text \<open>
  C8: a successful submission inserts exactly one transaction, the decoded one with its effective
  tip, and returns its hash. The pool did not hold that hash and the nonce is not below the
  account's. At most one transaction leaves: one of the same sender with the same nonce, whose tip
  the new one meets with the configured bump. Afterwards the pool contains the returned hash.
\<close>

theorem submit_tx_success:
  assumes inv: "pool_inv pool" and ok: "submit_tx C st pool raw = (Inr h, pool')"
  shows "\<exists>v gone. decode_and_recover C raw = Inr v \<and> vt_tx_hash v = h \<and>
     \<not> pool_contains pool h \<and> current_nonce_of st pool (vt_sender v) \<le> env_nonce (vt_envelope v) \<and>
     pool_txs pool' = insert (entry_for pool v) (pool_txs pool - gone) \<and>
     (gone = {} \<or> (\<exists>x. gone = {x} \<and> x \<in> pool_txs pool \<and> entry_sender x = vt_sender v \<and>
        entry_nonce x = env_nonce (vt_envelope v) \<and> bump_ok (pool_config pool) x (entry_for pool v))) \<and>
     pool_contains pool' h"
  using ok
proof (cases rule: submit_tx_cases)
  case (Admitted v old q)
  let ?s = "vt_sender v" and ?n = "env_nonce (vt_envelope v)"
  have txs: "pool_txs pool' = insert (entry_for pool v) {e \<in> pool_txs pool. old \<noteq> Some (entry_hash e)}"
    using admitted_txs [OF inv Admitted(5,4)] Admitted(6) by simp
  define gone where "gone = {e \<in> pool_txs pool. old = Some (entry_hash e)}"
  have "gone = {} \<or> (\<exists>x. gone = {x} \<and> x \<in> pool_txs pool \<and> entry_sender x = ?s \<and>
      entry_nonce x = ?n \<and> bump_ok (pool_config pool) x (entry_for pool v))"
  proof (cases old)
    case (Some k)
    have q0: "queue_inv (pool_config pool) ?s (queue_of pool ?s)" by (rule queue_of_inv [OF inv])
    then have wf: "queue_wf (queue_of pool ?s)" by (simp add: queue_inv_def)
    obtain x where x: "entry_hash x = k" "bump_ok (pool_config pool) x (entry_for pool v)"
      "(?n, x) \<in># queue_entries (queue_of pool ?s)"
      using Admitted(5) [unfolded Some] wf by (rule queue_admit_replace)
    then have at: "entry_sender x = ?s" "entry_nonce x = ?n"
      using q0 by (auto simp: queue_inv_def filed_def)
    then have mem: "x \<in> pool_txs pool" using x(3) by (simp add: pool_txs_filed [OF inv])
    have "gone = {x}"
      using pool_hash_inj [OF inv] mem x(1) Some by (auto simp: gone_def dest: inj_onD)
    with x(2) at mem show ?thesis by blast
  qed (simp add: gone_def)
  moreover have "pool_txs pool' = insert (entry_for pool v) (pool_txs pool - gone)"
    using txs by (auto simp: gone_def)
  moreover have "pool_contains pool' h" using Admitted(2,6) by (simp add: pool_contains_def admitted_def hm_insert_def)
  ultimately show ?thesis using Admitted by (auto simp: pool_contains_def)
qed simp_all

theorem submit_tx_success_witness:
  "let pool = demo_pool default_tx_pool_config [[1, 0, 100, 21]];
       pool' = snd (submit_tx demo_codec () pool [1, 0, 110, 21])
   in fst (submit_tx demo_codec () pool [1, 0, 110, 21]) = Inr 16805397 \<and> pool_contains pool' 16805397"
proof -
  let ?pool = "demo_pool default_tx_pool_config [[1, 0, 100, 21]]"
  have inv: "pool_inv ?pool" using reachable_pool_inv [OF demo_pool_reachable] by blast
  have ok: "fst (submit_tx demo_codec () ?pool [1, 0, 110, 21]) = Inr 16805397" by (simp add: demo_run)
  then have "submit_tx demo_codec () ?pool [1, 0, 110, 21] =
      (Inr 16805397, snd (submit_tx demo_codec () ?pool [1, 0, 110, 21]))"
    by (metis prod.collapse)
  from submit_tx_success [OF inv this] ok show ?thesis unfolding Let_def by blast
qed



lemma bumped_tip_default:
  assumes "unat (pe_effective_tip x) * 110 < 2 ^ 64"
  shows "unat (bumped_tip default_tx_pool_config x) =
           unat (pe_effective_tip x) + unat (pe_effective_tip x) div 10"
  using assms
  by (simp add: bumped_tip_def default_tx_pool_config_def unat_div_distrib unat_saturating_mul)

text \<open>
  With the default ten percent bump, a submission that replaces a transaction whose tip is at
  least ten, and small enough not to saturate, offers a strictly higher tip: higher by at least a
  tenth, rounded down.
\<close>

theorem replacement_raises_tip:
  assumes "queue_admit default_tx_pool_config q cur n e = Inr (Some h, q')" and "queue_wf q"
  shows "\<exists>x. (n, x) \<in># queue_entries q \<and> entry_hash x = h \<and>
     (10 \<le> unat (pe_effective_tip x) \<and> unat (pe_effective_tip x) * 110 < 2 ^ 64 \<longrightarrow>
        unat (pe_effective_tip x) + unat (pe_effective_tip x) div 10 \<le> unat (pe_effective_tip e) \<and>
        unat (pe_effective_tip x) < unat (pe_effective_tip e))"
proof -
  obtain x where x: "entry_hash x = h" "bump_ok default_tx_pool_config x e" "(n, x) \<in># queue_entries q"
    using assms by (rule queue_admit_replace)
  let ?t = "unat (pe_effective_tip x)"
  have "?t + ?t div 10 \<le> unat (pe_effective_tip e) \<and> ?t < unat (pe_effective_tip e)"
    if "10 \<le> ?t" "?t * 110 < 2 ^ 64"
  proof -
    have "?t + ?t div 10 \<le> unat (pe_effective_tip e)"
      using x(2) bumped_tip_default [OF that(2)] by (simp add: bump_ok_def word_le_nat_alt)
    with that(1) show ?thesis by linarith
  qed
  with x show ?thesis by blast
qed

definition entry_with_tip :: "u64 \<Rightarrow> pool_entry" where
  "entry_with_tip t = \<lparr>pe_verified = sample_tx, pe_effective_tip = t\<rparr>"

definition queue_with :: "pool_entry \<Rightarrow> sender_queue" where
  "queue_with e = \<lparr>sq_pending = [(0, e)], sq_queued = []\<rparr>"

theorem replacement_raises_tip_witness:
  "\<exists>x. (0, x) \<in># queue_entries (queue_with (entry_with_tip 100)) \<and> entry_hash x = 1 \<and>
     (10 \<le> unat (pe_effective_tip x) \<and> unat (pe_effective_tip x) * 110 < 2 ^ 64 \<longrightarrow>
        unat (pe_effective_tip x) + unat (pe_effective_tip x) div 10
          \<le> unat (pe_effective_tip (entry_with_tip 110)) \<and>
        unat (pe_effective_tip x) < unat (pe_effective_tip (entry_with_tip 110)))"
  by (rule replacement_raises_tip [where cur = 0 and q' = "queue_with (entry_with_tip 110)"])
    (simp_all add: queue_with_def entry_with_tip_def queue_admit_def default_tx_pool_config_def
      saturating_mul_def sample_tx_def queue_wf_def bt_ok_Cons)

text \<open>
  Outside those limits the rule fails. A tip below ten can be replaced by an equal one; and the
  product saturates before the division, so a transaction with the largest tip is replaced by one
  that offers a hundred times less.
\<close>

theorem replacement_rule_gaps:
  "queue_admit default_tx_pool_config (queue_with (entry_with_tip 9)) 0 0 (entry_with_tip 9) =
     Inr (Some 1, queue_with (entry_with_tip 9)) \<and>
   queue_admit default_tx_pool_config (queue_with (entry_with_tip (- 1))) 0 0
       (entry_with_tip 184467440737095516) =
     Inr (Some 1, queue_with (entry_with_tip 184467440737095516)) \<and>
   99 * unat (184467440737095516 :: u64) < unat (- 1 :: u64)"
  by (simp add: queue_with_def entry_with_tip_def queue_admit_def default_tx_pool_config_def
      saturating_mul_def sample_tx_def unat_max_word)

section \<open>Payload selection\<close>

text \<open>
  C9: the payload is the length-prefixed concatenation of the raw bytes of the \<open>selected\<close> entries and
  fits in \<^verbatim>\<open>max_bytes\<close>. They come in order of falling tip, at most one per sender, each the pending
  transaction of its sender with the lowest nonce; exactly these leave the pool.
\<close>

theorem collect_payload_spec:
  assumes inv: "pool_inv pool" and ks: "iter_order (senders (pool_inner_of pool)) ks"
    and run: "collect_payload ks pool max_bytes max_gas = (payload, pool')"
  shows "\<exists>es. es = selected ks pool max_bytes max_gas \<and>
     payload = concat (map (\<lambda>e. frame (entry_raw e)) es) \<and> length payload \<le> max_bytes \<and>
     sorted_wrt (\<lambda>a b. pe_effective_tip b \<le> pe_effective_tip a) es \<and>
     distinct (map entry_sender es) \<and>
     (\<forall>e \<in> set es. \<exists>q. senders (pool_inner_of pool) (entry_sender e) = Some q \<and>
        bt_get (sq_pending q) (entry_nonce e) = Some e \<and>
        (\<forall>n x. bt_get (sq_pending q) n = Some x \<longrightarrow> entry_nonce e \<le> n)) \<and>
     pool_txs pool' = pool_txs pool - set es"
proof -
  let ?es = "selected ks pool max_bytes max_gas" and ?S = "senders (pool_inner_of pool)"
  note basic = selected_basic [OF inv ks, of max_bytes max_gas]
  have payload: "payload = encode_frames (map entry_raw ?es)" using run collect_payload_eq [OF inv] by simp
  have "length payload \<le> max_bytes" using collect_payload_bytes [of ks pool max_bytes max_gas] run by simp
  moreover have "\<exists>q. ?S (entry_sender e) = Some q \<and> bt_get (sq_pending q) (entry_nonce e) = Some e \<and>
      (\<forall>n x. bt_get (sq_pending q) n = Some x \<longrightarrow> entry_nonce e \<le> n)" if mem: "e \<in> set ?es" for e
  proof -
    obtain q rest where q: "?S (entry_sender e) = Some q" "sq_pending q = (entry_nonce e, e) # rest"
      using bspec [OF basic(3) mem] unfolding head_of_def by blast
    have "bt_ok (sq_pending q)"
      using q(1) inv unfolding pool_inv_def queue_inv_def queue_wf_def by blast
    from bt.first_least [OF this q(2)] q show ?thesis by auto
  qed
  moreover have "pool_txs pool' = pool_txs pool - set ?es"
    using collect_payload_removes(2) [OF inv ks, of max_bytes max_gas] run by simp
  ultimately show ?thesis
    using payload basic(1,2) by (simp add: encode_frames_def comp_def)
qed


definition demo_two :: "unit evm_tx_pool" where
  "demo_two = demo_pool default_tx_pool_config [[1, 0, 9, 21], [2, 0, 5, 22]]"

lemma demo_two_inv: "pool_inv demo_two"
  unfolding demo_two_def using reachable_pool_inv [OF demo_pool_reachable] by blast

lemma demo_two_order: "iter_order (senders (pool_inner_of demo_two)) [1, 2]"
    "iter_order (senders (pool_inner_of demo_two)) [2, 1]"
  by (auto simp: demo_two_def demo_run iter_order_def)

lemmas selection_run = selected_def sort_candidates_def candidates_of_def first_pending_def
  candidate_gas_def cand_entry_def

lemma demo_two_payload:
  "fst (collect_payload [2, 1] demo_two 100 50) = [4, 0, 0, 0, 1, 0, 9, 21, 4, 0, 0, 0, 2, 0, 5, 22]"
  by (simp add: demo_two_def demo_run selection_run collect_payload_def frame_def to_le_bytes_u32_def
      be_bytes_numeral)

theorem collect_payload_spec_witness:
  "length (fst (collect_payload [2, 1] demo_two 100 50)) \<le> 100"
  using collect_payload_spec [OF demo_two_inv demo_two_order(2) prod.collapse [symmetric],
      where max_bytes = 100 and max_gas = 50] by blast

lemma pool_txs_two: "pool_txs demo_two = set (selected [1, 2] demo_two 100 0)"
  unfolding pool_txs_union [OF demo_two_order(1)]
  by (simp add: demo_two_def demo_run selection_run queue_entries_def insert_commute)


text \<open>
  Without that proviso the limit does not hold. The sum \<^verbatim>\<open>total_gas + gas\<close> wraps, so a transaction
  with the largest gas limit is selected into a block with a limit of thirty.
\<close>

theorem collect_payload_gas_wraps:
  "let pool = demo_pool default_tx_pool_config [[1, 0, 9, 21], [2, 0, 5, 255]]
   in map entry_gas (selected [1, 2] pool 100 30) = [21, - 1] \<and>
      fst (collect_payload [1, 2] pool 100 30) = concat (map (\<lambda>e. frame (entry_raw e)) (selected [1, 2] pool 100 30))"
  by (simp add: demo_run selection_run collect_payload_def)

lemma candidates_of_perm: "mset ks = mset ks' \<Longrightarrow> mset (candidates_of ks S) = mset (candidates_of ks' S)"
  unfolding candidates_of_def mset_concat sum_mset_sum_list [symmetric] by simp

text \<open>
  C30: when no two senders offer the same tip with their first pending transaction, the payload and
  the pool afterwards do not depend on the order in which the hash map yields the senders.
\<close>

theorem collect_payload_deterministic:
  assumes "iter_order (senders (pool_inner_of pool)) ks" "iter_order (senders (pool_inner_of pool)) ks'"
    and tips: "\<forall>s s' n n' e e'. head_of (senders (pool_inner_of pool)) s n e \<and>
       head_of (senders (pool_inner_of pool)) s' n' e' \<and> pe_effective_tip e = pe_effective_tip e' \<longrightarrow> s = s'"
  shows "collect_payload ks pool max_bytes max_gas = collect_payload ks' pool max_bytes max_gas"
proof -
  let ?S = "senders (pool_inner_of pool)"
  have m: "mset (candidates_of ks ?S) = mset (candidates_of ks' ?S)"
    by (rule candidates_of_perm [OF iter_order_perm [OF assms(1,2)]])
  have "inj_on (\<lambda>(_, _, tip, _). - uint (tip :: u64)) (set (candidates_of ks ?S))"
  proof (rule inj_onI)
    fix c d :: candidate
    assume cd: "c \<in> set (candidates_of ks ?S)" "d \<in> set (candidates_of ks ?S)"
      and eq: "(case c of (_, _, tip, _) \<Rightarrow> - uint tip) = (case d of (_, _, tip, _) \<Rightarrow> - uint tip)"
    have "cand_tip c = cand_tip d" using eq by (cases c; cases d) (simp add: word_uint_eq_iff)
    moreover obtain e where e: "head_of ?S (cand_sender c) (cand_nonce c) e"
      "cand_tip c = pe_effective_tip e" "cand_raw c = entry_raw e" using cd(1) by (auto simp: candidates_of_iff)
    moreover obtain e' where e': "head_of ?S (cand_sender d) (cand_nonce d) e'"
      "cand_tip d = pe_effective_tip e'" "cand_raw d = entry_raw e'" using cd(2) by (auto simp: candidates_of_iff)
    ultimately have "cand_sender c = cand_sender d" using tips by metis
    with e e' show "c = d" by (auto simp: head_of_def prod_eq_iff)
  qed
  then have "sort_candidates (candidates_of ks ?S) = sort_candidates (candidates_of ks' ?S)"
    unfolding sort_candidates_def by (rule sort_key_eq_sort_key [OF m])
  then show ?thesis by (simp add: collect_payload_def)
qed

theorem collect_payload_deterministic_witness:
  "collect_payload [1, 2] demo_two 100 50 = collect_payload [2, 1] demo_two 100 50"
  by (rule collect_payload_deterministic [OF demo_two_order])
    (auto simp: demo_two_def demo_run head_of_def split: if_splits)

section \<open>Commit\<close>

text \<open>
  C10: a commit keeps exactly the transactions whose nonce is not below their sender's account nonce,
  leaves the hash index exact, and leaves no sender with empty maps.
\<close>

theorem on_commit_spec:
  assumes inv: "pool_inv pool" and ks: "iter_order (senders (pool_inner_of pool)) ks"
  shows "pool_txs (on_commit_pool ks f pool) = {e \<in> pool_txs pool. f (entry_sender e) \<le> entry_nonce e} \<and>
     (\<forall>h. pool_contains (on_commit_pool ks f pool) h \<longleftrightarrow>
        (\<exists>e \<in> pool_txs pool. entry_hash e = h \<and> f (entry_sender e) \<le> entry_nonce e)) \<and>
     (\<forall>s q. senders (pool_inner_of (on_commit_pool ks f pool)) s = Some q \<longrightarrow> \<not> queue_empty q)"
  using on_commit_txs [OF inv ks, of f] pool_contains_iff [OF on_commit_inv [OF inv ks, of f]]
    on_commit_no_empty [OF ks, of f] by auto

theorem on_commit_spec_witness:
  "pool_txs (on_commit_pool [1, 2] (\<lambda>s. if s = 1 then 1 else 0) demo_two) =
     {e \<in> pool_txs demo_two. (if entry_sender e = 1 then 1 else 0) \<le> entry_nonce e}"
  using on_commit_spec [OF demo_two_inv demo_two_order(1), of "\<lambda>s. if s = 1 then 1 else 0"] by blast

text \<open>
  The pool after a commit does not depend on the order in which the hash map yields the senders.
\<close>

theorem on_commit_deterministic:
  assumes "iter_order (senders (pool_inner_of pool)) ks" "iter_order (senders (pool_inner_of pool)) ks'"
  shows "on_commit_pool ks f pool = on_commit_pool ks' f pool"
  by (simp only: on_commit_pool_eq [OF assms(1)] on_commit_pool_eq [OF assms(2)])

theorem on_commit_deterministic_witness:
  "on_commit_pool [1, 2] (\<lambda>_. 1) demo_two = on_commit_pool [2, 1] (\<lambda>_. 1) demo_two"
  by (rule on_commit_deterministic [OF demo_two_order])

lemma commit_queue_current:
  assumes "queue_wf q" "\<forall>(n, x) \<in> set (sq_pending q). n < c" "bt_get (sq_queued q) c = Some e"
  shows "\<exists>rest. sq_pending (snd (commit_queue c q)) = (c, e) # rest"
proof -
  let ?keep = "filter (\<lambda>(n, _). \<not> n < c) :: (u64, pool_entry) btree \<Rightarrow> _"
  have ok: "bt_ok (sq_pending q)" "bt_ok (sq_queued q)" using assms(1) by (simp_all add: queue_wf_def)
  have none: "?keep (sq_pending q) = []" using assms(2) by (auto simp: filter_empty_conv)
  let ?q = "q\<lparr>sq_pending := [], sq_queued := ?keep (sq_queued q)\<rparr>"
  have "snd (commit_queue c q) = promote_queued_static ?q c"
    by (simp add: commit_queue_def evict_spec ok none)
  moreover have "bt_ok ([] :: (u64, pool_entry) btree)" by (simp add: bt_ok_def)
  then have "queue_wf ?q"
    using assms(1) by (simp add: queue_wf_def bt_ok_filter bt_get_filter_key)
  moreover have "bt_get (sq_queued ?q) c = Some e" using assms(3) by (simp add: bt_get_filter_key ok)
  ultimately show ?thesis using promote_takes_current [of ?q c e] by simp
qed

text \<open>
  C31: once everything a sender has pending is stale, a commit makes its queued transaction with the
  account nonce the first pending one, ready for the next payload.
\<close>

theorem on_commit_promotes:
  assumes inv: "pool_inv pool" and ks: "iter_order (senders (pool_inner_of pool)) ks"
    and q: "senders (pool_inner_of pool) s = Some q"
    and stale: "\<forall>(n, x) \<in> set (sq_pending q). n < f s"
    and wait: "bt_get (sq_queued q) (f s) = Some e"
  shows "\<exists>q' rest. senders (pool_inner_of (on_commit_pool ks f pool)) s = Some q' \<and>
           sq_pending q' = (f s, e) # rest"
proof -
  have "queue_inv (pool_config pool) s q" using inv q by (simp add: pool_inv_def)
  then obtain rest where r: "sq_pending (snd (commit_queue (f s) q)) = (f s, e) # rest"
    using commit_queue_current [OF _ stale wait] by (auto simp: queue_inv_def)
  then have "commit_senders f (senders (pool_inner_of pool)) s = Some (snd (commit_queue (f s) q))"
    using q by (auto simp: commit_senders_Some queue_empty_def)
  with r show ?thesis by (simp add: on_commit_pool_eq [OF ks])
qed

definition demo_waiting :: "unit evm_tx_pool" where
  "demo_waiting = demo_pool default_tx_pool_config [[1, 3, 7, 21]]"

theorem on_commit_promotes_witness:
  "\<exists>e q rest. senders (pool_inner_of (on_commit_pool [1] (\<lambda>_. 3) demo_waiting)) 1 = Some q \<and>
     sq_pending q = (3, e) # rest"
proof -
  have inv: "pool_inv demo_waiting"
    unfolding demo_waiting_def using reachable_pool_inv [OF demo_pool_reachable] by blast
  have ks: "iter_order (senders (pool_inner_of demo_waiting)) [1]"
    by (simp add: demo_waiting_def demo_run iter_order_def)
  obtain q e where "senders (pool_inner_of demo_waiting) 1 = Some q" "sq_pending q = []"
    "bt_get (sq_queued q) 3 = Some e"
    by (simp add: demo_waiting_def demo_run)
  then show ?thesis using on_commit_promotes [OF inv ks, of 1 q "\<lambda>_. 3" e] by auto
qed

definition demo_gap1 :: "unit evm_tx_pool" where
  "demo_gap1 = demo_pool default_tx_pool_config [[1, 0, 7, 21], [1, 1, 7, 21], [1, 2, 7, 21]]"

definition demo_gap2 :: "unit evm_tx_pool" where
  "demo_gap2 = snd (collect_payload [1] demo_gap1 100 0)"

definition demo_gap3 :: "unit evm_tx_pool" where
  "demo_gap3 = snd (collect_payload [1] demo_gap2 100 0)"

definition demo_gap :: "unit evm_tx_pool" where
  "demo_gap = fold demo_submit [[1, 1, 7, 21], [1, 0, 7, 21]] demo_gap3"

lemmas gap_run = demo_run selection_run collect_payload_def remove_pending_def frame_def

lemma demo_gap_order: "iter_order (senders (pool_inner_of demo_gap1)) [1]"
    "iter_order (senders (pool_inner_of demo_gap2)) [1]"
  by (simp_all add: demo_gap2_def demo_gap1_def gap_run iter_order_def)

lemma demo_gap_reachable: "pool_reachable demo_codec default_tx_pool_config demo_gap"
proof -
  have "(pool_step demo_codec)\<^sup>*\<^sup>* (new_tx_pool default_tx_pool_config) demo_gap1"
    using demo_pool_reachable unfolding pool_reachable_def demo_gap1_def by blast
  also have "(pool_step demo_codec)\<^sup>*\<^sup>* demo_gap1 demo_gap2"
    unfolding demo_gap2_def by (intro r_into_rtranclp step_collect demo_gap_order)
  also have "(pool_step demo_codec)\<^sup>*\<^sup>* demo_gap2 demo_gap3"
    unfolding demo_gap3_def by (intro r_into_rtranclp step_collect demo_gap_order)
  also have "(pool_step demo_codec)\<^sup>*\<^sup>* demo_gap3 demo_gap"
    unfolding demo_gap_def by (rule fold_demo_submit_steps)
  finally show ?thesis unfolding pool_reachable_def .
qed

lemma demo_gap_state:
  "\<exists>q. senders (pool_inner_of demo_gap) 1 = Some q \<and>
     map fst (sq_pending q) = [0, 2] \<and> map fst (sq_queued q) = [1]"
  by (simp add: demo_gap_def demo_gap3_def demo_gap2_def demo_gap1_def gap_run)

lemma demo_gap_submit:
  "\<exists>q. senders (pool_inner_of (snd (submit_tx demo_codec () demo_gap [1, 1, 3, 21]))) 1 = Some q \<and>
     map fst (sq_pending q) = [0, 1, 2] \<and> map fst (sq_queued q) = [1]"
  by (simp add: demo_gap_def demo_gap3_def demo_gap2_def demo_gap1_def gap_run)

text \<open>
  Pending nonces need not be continuous. Three transactions with nonces 0, 1 and 2 are submitted
  and two collections put 0 and 1 into payloads that are not committed; when 1 and 0 are submitted
  again, 1 waits in the queued map and 0 and 2 are pending. A further submission with nonce 1 then
  goes to the pending map, and the pool holds two transactions of one sender with the same nonce,
  although the second one does not pay the replacement bump.
\<close>

theorem pending_nonce_gap:
  "\<exists>pool :: unit evm_tx_pool. pool_reachable demo_codec default_tx_pool_config pool \<and>
     (\<exists>q. senders (pool_inner_of pool) 1 = Some q \<and>
        map fst (sq_pending q) = [0, 2] \<and> map fst (sq_queued q) = [1]) \<and>
     (\<exists>q. senders (pool_inner_of (snd (submit_tx demo_codec () pool [1, 1, 3, 21]))) 1 = Some q \<and>
        map fst (sq_pending q) = [0, 1, 2] \<and> map fst (sq_queued q) = [1])"
  by (intro exI [of _ demo_gap] conjI demo_gap_reachable demo_gap_state demo_gap_submit)

end
