(* ===== verification/Precompile_Spec.thy ===== *)
theory Precompile_Spec
  imports Precompile
begin

text \<open>
  What the staking ledger and the two precompiles guarantee: the ledger's arithmetic, the effect of
  each call, and solvency, i.e. that the staking account holds at least the sum of all delegations.
  The laws of revm's journal that this rests on are the predicate \<open>journal_ok\<close>.
\<close>

section \<open>The ledger\<close>

lemma get_stake_slot: "get_stake s d v = stake_slot s (d, v)"
  by (simp add: get_stake_def stake_slot_def)

lemma stake_slot_put [simp]:
  "stake_slot (s\<lparr>delegations := hm_insert k v (delegations s)\<rparr>) k' = (if k' = k then v else stake_slot s k')"
  by (simp add: stake_slot_def hm_insert_def)

lemma stake_slot_delegate:
  "stake_slot (delegate d v amount s) k =
     (if k = (d, v) then saturating_add (stake_slot s (d, v)) amount else stake_slot s k)"
  by (simp add: delegate_def)

lemma unbond_cases [consumes 1, case_names Refused Done]:
  assumes "unbond d v amount s = (r, s')"
  obtains "stake_slot s (d, v) < amount" "r = Inl ''insufficient delegation''"
      "s' = s\<lparr>delegations := hm_insert (d, v) (stake_slot s (d, v)) (delegations s)\<rparr>"
  | "amount \<le> stake_slot s (d, v)" "r = Inr ()"
      "s' = s\<lparr>delegations := hm_insert (d, v) (stake_slot s (d, v) - amount) (delegations s)\<rparr>"
  using assms by (auto simp: unbond_def Let_def saturating_sub_def not_less split: if_splits)

text \<open>The sum of all delegations, as an unbounded number.\<close>

definition ledger_total :: "staking_state \<Rightarrow> nat" where
  "ledger_total s = (\<Sum>k \<in> dom (delegations s). unat (stake_slot s k))"

definition ledger_finite :: "staking_state \<Rightarrow> bool" where
  "ledger_finite s \<longleftrightarrow> finite (dom (delegations s))"

lemma ledger_finite_put [simp]:
  "ledger_finite (s\<lparr>delegations := hm_insert k v (delegations s)\<rparr>) \<longleftrightarrow> ledger_finite s"
  by (simp add: ledger_finite_def hm_insert_def)

lemma ledger_total_put:
  assumes "ledger_finite s"
  shows "ledger_total (s\<lparr>delegations := hm_insert k v (delegations s)\<rparr>) + unat (stake_slot s k) =
         ledger_total s + unat v"
proof -
  let ?D = "dom (delegations s)" and ?f = "\<lambda>k. unat (stake_slot s k)"
  have fin: "finite ?D" using assms by (simp add: ledger_finite_def)
  have dom: "dom (hm_insert k v (delegations s)) = insert k ?D" by (simp add: hm_insert_def)
  have "sum ?f (insert k ?D) = sum ?f ?D"
    by (cases "k \<in> ?D") (simp_all add: insert_absorb fin stake_slot_def domIff)
  moreover have "sum ?f (insert k ?D) = ?f k + sum ?f (?D - {k})"
    using fin by (simp add: sum.insert_remove)
  moreover have "(\<Sum>j \<in> insert k ?D. unat (if j = k then v else stake_slot s j)) =
      unat v + sum ?f (?D - {k})"
    using fin by (simp add: sum.insert_remove)
  ultimately show ?thesis by (simp add: ledger_total_def dom)
qed

lemma slot_le_total:
  assumes "ledger_finite s"
  shows "unat (stake_slot s k) \<le> ledger_total s"
proof (cases "k \<in> dom (delegations s)")
  case True
  then show ?thesis unfolding ledger_total_def
    using assms by (intro member_le_sum) (simp_all add: ledger_finite_def)
qed (simp add: stake_slot_def domIff)

text \<open>
  Recording a delegation adds the amount to the one pair named and to no other, capped at the
  largest 256-bit value; unbonding subtracts it from that pair alone, and fails, changing no stake,
  exactly when the stake is too small.
\<close>

theorem staking_ledger:
  "get_stake (delegate d v amount s) d' v' =
     (if d' = d \<and> v' = v then saturating_add (get_stake s d v) amount else get_stake s d' v') \<and>
   (fst (unbond d v amount s) = Inl ''insufficient delegation'' \<longleftrightarrow> get_stake s d v < amount) \<and>
   get_stake (snd (unbond d v amount s)) d' v' =
     (if get_stake s d v < amount \<or> (d', v') \<noteq> (d, v) then get_stake s d' v'
      else get_stake s d v - amount)"
  by (auto simp: get_stake_slot unbond_def Let_def stake_slot_delegate not_less saturating_sub_def)

lemma saturating_add_sub:
  fixes x a :: "'a::len word"
  assumes "unat x + unat a < 2 ^ LENGTH('a)"
  shows "a \<le> saturating_add x a" and "saturating_add x a - a = x"
  using assms
  by (simp_all add: saturating_add_def word_le_nat_alt unat_word_ariths)

text \<open>
  Unbonding what has just been delegated succeeds and restores every stake, unless the addition
  was capped.
\<close>

theorem delegate_unbond_roundtrip:
  assumes "unat (get_stake s d v) + unat amount < 2 ^ 256"
  shows "fst (unbond d v amount (delegate d v amount s)) = Inr () \<and>
         get_stake (snd (unbond d v amount (delegate d v amount s))) d' v' = get_stake s d' v'"
proof -
  have "unat (stake_slot s (d, v)) + unat amount < 2 ^ LENGTH(256)"
    using assms by (simp add: get_stake_slot)
  note fits = saturating_add_sub [OF this]
  have "unbond d v amount (delegate d v amount s) = (Inr (), (delegate d v amount s)\<lparr>delegations :=
      hm_insert (d, v) (stake_slot s (d, v)) (delegations (delegate d v amount s))\<rparr>)"
    using fits by (simp add: unbond_def Let_def stake_slot_delegate saturating_sub_def not_less)
  then show ?thesis by (simp add: get_stake_slot stake_slot_delegate)
qed

theorem delegate_unbond_roundtrip_witness:
  "get_stake (snd (unbond 1 9 70 (delegate 1 9 70 staking_new))) 1 9 = get_stake staking_new 1 9"
  using delegate_unbond_roundtrip [of staking_new 1 9 70 1 9]
  by (simp add: get_stake_def staking_new_def)

text \<open>
  \<^verbatim>\<open>total_stake\<close> is the sum of the validator's delegations, capped once at the largest 256-bit
  value, in whatever order the hash map is iterated.
\<close>

theorem total_stake_sum:
  assumes "iter_order (delegations s) ks"
  shows "unat (total_stake ks s v) =
    min (\<Sum>k \<in> {k \<in> dom (delegations s). snd k = v}. unat (stake_slot s k)) (2 ^ 256 - 1)"
proof -
  let ?l = "filter (\<lambda>(_, x). x = v) ks"
  have "distinct ?l" "set ?l = {k \<in> dom (delegations s). snd k = v}"
    using assms by (auto simp: iter_order_def)
  then have "(\<Sum>k \<leftarrow> ?l. unat (stake_slot s k)) =
      (\<Sum>k \<in> {k \<in> dom (delegations s). snd k = v}. unat (stake_slot s k))"
    using sum_list_distinct_conv_sum_set [of ?l "\<lambda>k. unat (stake_slot s k)"] by simp
  moreover have "unat (total_stake ks s v) =
      min (unat (0 :: u256) + (\<Sum>k \<leftarrow> ?l. unat (stake_slot s k))) (2 ^ LENGTH(256) - 1)"
    unfolding total_stake_def by (rule unat_foldl_saturating_add)
  ultimately show ?thesis by (simp only: unat_0 add_0 len_of_numeral_defs) simp
qed

definition demo_ledger :: staking_state where
  "demo_ledger = delegate 1 9 70 (delegate 2 9 30 staking_new)"

theorem total_stake_sum_witness:
  "unat (total_stake [(2, 9), (1, 9)] demo_ledger 9) =
     min (\<Sum>k \<in> {k \<in> dom (delegations demo_ledger). snd k = 9}. unat (stake_slot demo_ledger k)) (2 ^ 256 - 1)"
  by (rule total_stake_sum)
    (auto simp: iter_order_def demo_ledger_def delegate_def staking_new_def hm_insert_def)

section \<open>The journal\<close>

text \<open>
  What the precompiles rely on of revm's journal, for a view \<open>bal\<close> of the balances in a context: a
  load changes no balance and reports the one there; a transfer that succeeds was covered, did not
  overflow the receiver and moved exactly the amount; one that fails gives nobody anything and takes
  at most the amount from the payer.
\<close>

definition journal_ok :: "('c, 'g, 'e) revm_ops \<Rightarrow> ('c \<Rightarrow> address \<Rightarrow> u256) \<Rightarrow> bool" where
  "journal_ok ops bal \<longleftrightarrow>
     (\<forall>c a. bal (snd (load_account ops c a)) = bal c \<and>
            (fst (load_account ops c a) = Some (bal c a) \<or> fst (load_account ops c a) = None)) \<and>
     (\<forall>c from to amt c'. transfer ops c from to amt = (TransferOk, c') \<longrightarrow>
        amt \<le> bal c from \<and>
        (if from = to then bal c' = bal c
         else unat (bal c to) + unat amt < 2 ^ 256 \<and>
              bal c' = (bal c)(from := bal c from - amt, to := bal c to + amt))) \<and>
     (\<forall>c from to amt t c'. transfer ops c from to amt = (t, c') \<and> t \<noteq> TransferOk \<longrightarrow>
        (\<forall>a. a \<noteq> from \<longrightarrow> bal c' a = bal c a) \<and>
        unat (bal c from) \<le> unat (bal c' from) + unat amt)"

lemma journal_load: "journal_ok ops bal \<Longrightarrow> bal (snd (load_account ops c a)) = bal c"
  by (simp add: journal_ok_def)

lemma journal_transfer_ok:
  assumes "journal_ok ops bal" "transfer ops c from to amt = (TransferOk, c')" "from \<noteq> to"
  shows "amt \<le> bal c from" "unat (bal c to) + unat amt < 2 ^ 256"
    and "unat (bal c' to) = unat (bal c to) + unat amt"
    and "unat (bal c' from) + unat amt = unat (bal c from)"
    and "a \<noteq> from \<Longrightarrow> a \<noteq> to \<Longrightarrow> bal c' a = bal c a"
proof -
  have laws: "amt \<le> bal c from" "unat (bal c to) + unat amt < 2 ^ 256"
      "bal c' = (bal c)(from := bal c from - amt, to := bal c to + amt)"
    using assms unfolding journal_ok_def by (metis (no_types, lifting))+
  then show "amt \<le> bal c from" "unat (bal c to) + unat amt < 2 ^ 256" by blast+
  show "unat (bal c' to) = unat (bal c to) + unat amt"
    using laws(2) by (simp add: laws(3) unat_word_ariths)
  show "unat (bal c' from) + unat amt = unat (bal c from)"
    using laws(1) assms(3) by (simp add: laws(3) unat_sub word_le_nat_alt)
  show "a \<noteq> from \<Longrightarrow> a \<noteq> to \<Longrightarrow> bal c' a = bal c a" by (simp add: laws(3))
qed

lemma journal_transfer_fail:
  assumes "journal_ok ops bal" "transfer ops c from to amt = (t, c')" "t \<noteq> TransferOk"
  shows "a \<noteq> from \<Longrightarrow> bal c' a = bal c a" and "unat (bal c from) \<le> unat (bal c' from) + unat amt"
  using assms unfolding journal_ok_def by blast+

section \<open>The effect of a call\<close>

lemmas run_staking_unfold = run_staking_def [unfolded Let_def]

lemma run_staking_cases [consumes 1, case_names Same DelegateOk DelegateFail UnbondRefused UnbondOk UnbondFail]:
  assumes run: "run_staking ops ks staking c inputs = (r, staking', c')"
  obtains "staking' = staking" "c' = c" "ir_result r \<noteq> Revert"
  | v amount where "transfer ops c (ci_caller inputs) STAKING_ADDR amount = (TransferOk, c')"
      "staking' = delegate (ci_caller inputs) v amount staking" "ir_result r = Return"
  | amount t where "transfer ops c (ci_caller inputs) STAKING_ADDR amount = (t, c')" "t \<noteq> TransferOk"
      "staking' = staking" "ir_result r = Revert"
  | v amount e where "unbond (ci_caller inputs) v amount staking = (Inl e, staking')"
      "c' = c" "ir_result r = Revert"
  | v amount where "unbond (ci_caller inputs) v amount staking = (Inr (), staking')"
      "transfer ops c STAKING_ADDR (ci_caller inputs) amount = (TransferOk, c')" "ir_result r = Return"
  | v amount t where "unbond (ci_caller inputs) v amount staking = (Inr (), staking')"
      "transfer ops c STAKING_ADDR (ci_caller inputs) amount = (t, c')" "t \<noteq> TransferOk"
      "ir_result r = Revert"
  using run unfolding run_staking_unfold
  by (auto split: if_splits prod.splits bool.splits sum.splits)

section \<open>Solvency\<close>

definition solvent :: "('c \<Rightarrow> address \<Rightarrow> u256) \<Rightarrow> staking_state \<Rightarrow> 'c \<Rightarrow> bool" where
  "solvent bal s c \<longleftrightarrow> ledger_finite s \<and> ledger_total s \<le> unat (bal c STAKING_ADDR)"

lemma delegate_total:
  assumes fin: "ledger_finite s" and fits: "ledger_total s + unat amount < 2 ^ 256"
  shows "ledger_finite (delegate d v amount s)"
    and "ledger_total (delegate d v amount s) = ledger_total s + unat amount"
    and "unat (stake_slot (delegate d v amount s) (d, v)) = unat (stake_slot s (d, v)) + unat amount"
proof -
  let ?x = "stake_slot s (d, v)"
  have "unat ?x + unat amount < 2 ^ 256" using slot_le_total [OF fin, of "(d, v)"] fits by linarith
  then have exact: "unat (saturating_add ?x amount) = unat ?x + unat amount"
    by (simp add: unat_saturating_add)
  show "ledger_finite (delegate d v amount s)" using fin by (simp add: delegate_def)
  show "ledger_total (delegate d v amount s) = ledger_total s + unat amount"
    using ledger_total_put [OF fin, of "(d, v)" "saturating_add ?x amount"] exact
    by (simp add: delegate_def)
  show "unat (stake_slot (delegate d v amount s) (d, v)) = unat ?x + unat amount"
    by (simp add: stake_slot_delegate exact)
qed

lemma unbond_total:
  assumes fin: "ledger_finite s" and run: "unbond d v amount s = (r, s')"
  shows "ledger_finite s'"
    and "r = Inr () \<Longrightarrow> ledger_total s' + unat amount = ledger_total s"
    and "r = Inl e \<Longrightarrow> ledger_total s' = ledger_total s"
  using run
proof (atomize (full), cases rule: unbond_cases)
  case Refused
  then show "ledger_finite s' \<and> (r = Inr () \<longrightarrow> ledger_total s' + unat amount = ledger_total s) \<and>
      (r = Inl e \<longrightarrow> ledger_total s' = ledger_total s)"
    using fin ledger_total_put [OF fin, of "(d, v)" "stake_slot s (d, v)"] by simp
next
  case Done
  have "unat (stake_slot s (d, v) - amount) + unat amount = unat (stake_slot s (d, v))"
    using Done(1) by (simp add: unat_sub word_le_nat_alt)
  with Done show "ledger_finite s' \<and> (r = Inr () \<longrightarrow> ledger_total s' + unat amount = ledger_total s) \<and>
      (r = Inl e \<longrightarrow> ledger_total s' = ledger_total s)"
    using fin ledger_total_put [OF fin, of "(d, v)" "stake_slot s (d, v) - amount"] by simp
qed

lemma run_staking_solvent:
  assumes j: "journal_ok ops bal" and caller: "ci_caller inputs \<noteq> STAKING_ADDR"
    and sol: "solvent bal staking c"
    and run: "run_staking ops ks staking c inputs = (r, staking', c')"
  shows "solvent bal staking' c'"
proof -
  have fin: "ledger_finite staking" and le: "ledger_total staking \<le> unat (bal c STAKING_ADDR)"
    using sol by (simp_all add: solvent_def)
  from run show ?thesis
  proof (cases rule: run_staking_cases)
    case Same
    with sol show ?thesis by simp
  next
    case (DelegateOk v amount)
    note moved = journal_transfer_ok [OF j DelegateOk(1) caller]
    then have "ledger_total staking + unat amount < 2 ^ 256" using le by linarith
    note total = delegate_total [OF fin this]
    show ?thesis using le by (simp add: solvent_def DelegateOk(2) total moved(3))
  next
    case (DelegateFail amount t)
    with sol caller journal_transfer_fail(1) [OF j DelegateFail(1,2)] show ?thesis
      by (simp add: solvent_def)
  next
    case (UnbondRefused v amount e)
    with unbond_total [OF fin UnbondRefused(1)] le show ?thesis by (simp add: solvent_def)
  next
    case (UnbondOk v amount)
    note moved = journal_transfer_ok [OF j UnbondOk(2) caller [symmetric]]
    show ?thesis using unbond_total(1,2) [OF fin UnbondOk(1)] moved(4) le by (simp add: solvent_def)
  next
    case (UnbondFail v amount t)
    show ?thesis
      using unbond_total(1,2) [OF fin UnbondFail(1)] journal_transfer_fail(2) [OF j UnbondFail(2,3)] le
      by (simp add: solvent_def)
  qed
qed

lemma run_balances_keeps:
  assumes j: "journal_ok ops bal" and caller: "ci_caller inputs \<noteq> a"
    and run: "run_balances ops c inputs = (r, c')"
  shows "unat (bal c a) \<le> unat (bal c' a)"
proof -
  have tr: "unat (bal c a) \<le> unat (bal c'' a)"
    if "transfer ops c (ci_caller inputs) to amount = (t, c'')" for to amount t c''
  proof (cases "t = TransferOk")
    case True
    show ?thesis
    proof (cases "ci_caller inputs = to")
      case same: True
      then show ?thesis using j that True unfolding journal_ok_def by (metis order_refl)
    next
      case False
      note moved = journal_transfer_ok [OF j that [unfolded True] False]
      show ?thesis
        using moved(3,5) caller by (cases "a = to") (auto simp: moved(3))
    qed
  next
    case False
    with journal_transfer_fail(1) [OF j that False, of a] caller show ?thesis by simp
  qed
  have ld: "bal c'' = bal c" if "load_account ops c x = (acc, c'')" for x acc c''
    using journal_load [OF j, of c x] that by simp
  show ?thesis
    using run unfolding run_balances_def Let_def
    by (auto split: if_splits prod.splits bool.splits transfer_result.splits dest: tr ld)
qed


text \<open>A concrete journal: the context is the table of balances, the gas counter a number.\<close>

definition bank_transfer ::
    "(address \<Rightarrow> u256) \<Rightarrow> address \<Rightarrow> address \<Rightarrow> u256 \<Rightarrow> transfer_result \<times> (address \<Rightarrow> u256)" where
  "bank_transfer c from to amt =
     (if from = to then (if amt \<le> c from then TransferOk else TransferRefused, c)
      else if amt \<le> c from \<and> c to \<le> - 1 - amt
      then (TransferOk, c(from := c from - amt, to := c to + amt))
      else (TransferRefused, c))"

definition bank_ops :: "(address \<Rightarrow> u256, nat, unit) revm_ops" where
  "bank_ops =
     \<lparr>gas_new = unat,
      record_cost = (\<lambda>g n. if unat n \<le> g then (True, g - unat n) else (False, g)),
      load_account = (\<lambda>c a. (Some (c a), c)),
      transfer = bank_transfer,
      shared_memory_buffer_slice = (\<lambda>_ _ _. None),
      eth_run = (\<lambda>e c _. (Inr None, e, c)),
      eth_warm_addresses = (\<lambda>_. [1]),
      eth_contains = (\<lambda>_ a. a = 1)\<rparr>"

lemma no_overflow_iff: "b \<le> - 1 - a \<longleftrightarrow> unat b + unat a < 2 ^ 256" for a b :: u256
proof -
  have "unat (- 1 - a :: u256) = 2 ^ 256 - 1 - unat a"
  proof -
    have "a \<le> - 1" using unat_le_max [of a] by (simp only: word_le_nat_alt unat_max_word)
    then have "unat (- 1 - a :: u256) = unat (- 1 :: u256) - unat a" by (rule unat_sub)
    then show ?thesis by (simp add: unat_max_word)
  qed
  then show ?thesis using unat_le_max [of a] unat_le_max [of b] by (simp add: word_le_nat_alt) linarith
qed

lemma bank_journal_ok: "journal_ok bank_ops (\<lambda>c. c)"
  unfolding journal_ok_def bank_ops_def revm_ops.simps bank_transfer_def no_overflow_iff
  by (auto split: if_splits)

section \<open>Calls with encoded arguments\<close>

definition abi_call2 :: "bytes \<Rightarrow> address \<Rightarrow> u256 \<Rightarrow> bytes" where
  "abi_call2 sel a x = sel @ word_bytes (ucast a) @ word_bytes x"

lemma drop_be_bytes: "drop k (be_bytes (k + n) x) = be_bytes n x"
  by (induction k) simp_all

lemma word_at_first:
  assumes "length sel = 4"
  shows "word_at 16 36 (abi_call2 sel a x) = a"
proof -
  have "take 20 (drop 16 (abi_call2 sel a x)) = drop 12 (word_bytes (ucast a))"
    using assms by (simp add: abi_call2_def)
  also have "\<dots> = be_bytes 20 (ucast a :: u256)" using drop_be_bytes [of 12 20] by simp
  finally have "(word_at 16 36 (abi_call2 sel a x) :: address) = of_nat (unat (ucast a :: u256) mod 256 ^ 20)"
    by (simp add: word_at_def from_be_bytes_def be_nat_be_bytes)
  also have "unat (ucast a :: u256) = unat a" by (rule unat_ucast_wider) simp
  also have "unat a mod 256 ^ 20 = unat a" using unsigned_less [of a, where 'a = nat] by simp
  finally show ?thesis by simp
qed

lemma word_at_second:
  assumes "length sel = 4"
  shows "word_at 36 68 (abi_call2 sel a x) = x"
proof -
  have "take 32 (drop 36 (abi_call2 sel a x)) = word_bytes x"
    using assms by (simp add: abi_call2_def)
  then show ?thesis by (simp add: word_at_def from_be_bytes_be_bytes)
qed

lemma abi_call2_shape: "length sel = 4 \<Longrightarrow> length (abi_call2 sel a x) = 68"
    "length sel = 4 \<Longrightarrow> take 4 (abi_call2 sel a x) = sel"
  by (simp_all add: abi_call2_def)

lemmas selectors = SEL_BALANCE_OF_def SEL_TRANSFER_def SEL_DELEGATE_def SEL_UNBOND_def
  SEL_GET_STAKE_def SEL_TOTAL_STAKE_def

lemma run_delegate:
  assumes "extract_input ops c inputs = abi_call2 SEL_DELEGATE v amount"
    and "record_cost ops (gas_new ops (ci_gas_limit inputs)) PRECOMPILE_WRITE_GAS = (True, g)"
    and "transfer ops c (ci_caller inputs) STAKING_ADDR amount = (TransferOk, c')"
  shows "run_staking ops ks s c inputs =
     (\<lparr>ir_result = Return, ir_gas = g, ir_output = word_bytes 1\<rparr>,
      delegate (ci_caller inputs) v amount s, c')"
proof -
  have "length SEL_DELEGATE = 4" by (simp add: selectors)
  note abi = abi_call2_shape [OF this] word_at_first [OF this] word_at_second [OF this]
  show ?thesis unfolding run_staking_unfold by (simp add: assms abi)
qed

lemma run_unbond:
  assumes "extract_input ops c inputs = abi_call2 SEL_UNBOND v amount"
    and "record_cost ops (gas_new ops (ci_gas_limit inputs)) PRECOMPILE_WRITE_GAS = (True, g)"
    and "unbond (ci_caller inputs) v amount s = (Inr (), s')"
    and "transfer ops c STAKING_ADDR (ci_caller inputs) amount = (t, c')"
  shows "run_staking ops ks s c inputs =
     (if t = TransferOk then \<lparr>ir_result = Return, ir_gas = g, ir_output = word_bytes 1\<rparr>
      else \<lparr>ir_result = Revert, ir_gas = g, ir_output = word_bytes 0\<rparr>, s', c')"
proof -
  have "length SEL_UNBOND = 4" by (simp add: selectors)
  note abi = abi_call2_shape [OF this] word_at_first [OF this] word_at_second [OF this]
  have "SEL_UNBOND \<noteq> SEL_DELEGATE" by (simp add: selectors)
  then show ?thesis unfolding run_staking_unfold by (simp add: assms abi)
qed

text \<open>
  A delegate call whose gas suffices and whose transfer succeeds returns one, raises the caller's
  stake with that validator by exactly the amount (in a solvent state the addition is never capped),
  and takes the amount from the caller's balance into the staking account.
\<close>

theorem delegate_call:
  assumes j: "journal_ok ops bal" and sol: "solvent bal s c" and caller: "ci_caller inputs \<noteq> STAKING_ADDR"
    and inp: "extract_input ops c inputs = abi_call2 SEL_DELEGATE v amount"
    and gas: "record_cost ops (gas_new ops (ci_gas_limit inputs)) PRECOMPILE_WRITE_GAS = (True, g)"
    and tr: "transfer ops c (ci_caller inputs) STAKING_ADDR amount = (TransferOk, c')"
    and run: "run_staking ops ks s c inputs = (r, s', c'')"
  shows "ir_result r = Return \<and> ir_output r = word_bytes 1 \<and> ir_gas r = g \<and>
     unat (get_stake s' (ci_caller inputs) v) = unat (get_stake s (ci_caller inputs) v) + unat amount \<and>
     (\<forall>d w. (d, w) \<noteq> (ci_caller inputs, v) \<longrightarrow> get_stake s' d w = get_stake s d w) \<and>
     unat (bal c'' (ci_caller inputs)) + unat amount = unat (bal c (ci_caller inputs)) \<and>
     unat (bal c'' STAKING_ADDR) = unat (bal c STAKING_ADDR) + unat amount"
proof -
  have eq: "r = \<lparr>ir_result = Return, ir_gas = g, ir_output = word_bytes 1\<rparr>"
    "s' = delegate (ci_caller inputs) v amount s" "c'' = c'"
    using run run_delegate [OF inp gas tr] by simp_all
  note moved = journal_transfer_ok [OF j tr caller]
  have fin: "ledger_finite s" and "ledger_total s + unat amount < 2 ^ 256"
    using sol moved(2) by (auto simp: solvent_def)
  note total = delegate_total(3) [OF this]
  show ?thesis using total moved(3,4) by (auto simp: eq get_stake_slot stake_slot_delegate)
qed

definition staking_call :: "address \<Rightarrow> bytes \<Rightarrow> call_inputs" where
  "staking_call caller input =
     \<lparr>ci_input = CallBytes input, ci_gas_limit = 1000, ci_bytecode_address = STAKING_ADDR,
      ci_caller = caller\<rparr>"

definition bank_start :: "address \<Rightarrow> u256" where
  "bank_start = (\<lambda>a. if a = 1 then 100 else 0)"

lemma bank_gas:
  "record_cost bank_ops (gas_new bank_ops (ci_gas_limit (staking_call a i))) PRECOMPILE_WRITE_GAS = (True, 500)"
  by (simp add: bank_ops_def staking_call_def PRECOMPILE_WRITE_GAS_def)

lemma bank_extract: "extract_input bank_ops c (staking_call a i) = i"
  by (simp add: extract_input_def staking_call_def)

lemma staking_new_solvent: "solvent bal staking_new c"
  by (simp add: solvent_def ledger_finite_def ledger_total_def staking_new_def)

lemma bank_start_transfer:
  "transfer bank_ops bank_start 1 STAKING_ADDR 60 =
     (TransferOk, bank_start(1 := 40, STAKING_ADDR := 60))"
  by (simp add: bank_ops_def bank_transfer_def bank_start_def STAKING_ADDR_def)


theorem delegate_call_witness:
  "case run_staking bank_ops [] staking_new bank_start (staking_call 1 (abi_call2 SEL_DELEGATE 9 60)) of
     (r, s, c) \<Rightarrow> unat (get_stake s 1 9) = unat (get_stake staking_new 1 9) + unat (60 :: u256)"
proof -
  obtain r s c where run: "run_staking bank_ops [] staking_new bank_start
      (staking_call 1 (abi_call2 SEL_DELEGATE 9 60)) = (r, s, c)"
    by (metis prod_cases3)
  have caller: "ci_caller (staking_call 1 (abi_call2 SEL_DELEGATE 9 60)) = 1" by (simp add: staking_call_def)
  from delegate_call [OF bank_journal_ok staking_new_solvent _ bank_extract bank_gas _ run,
      where c' = "bank_start(1 := 40, STAKING_ADDR := 60)"]
  have "unat (get_stake s 1 9) = unat (get_stake staking_new 1 9) + unat (60 :: u256)"
    by (simp add: caller bank_start_transfer) (simp add: STAKING_ADDR_def)
  then show ?thesis by (simp add: run)
qed

text \<open>The journal lets a covered transfer through, which it does unless the database fails.\<close>

definition journal_live :: "('c, 'g, 'e) revm_ops \<Rightarrow> ('c \<Rightarrow> address \<Rightarrow> u256) \<Rightarrow> bool" where
  "journal_live ops bal \<longleftrightarrow>
     (\<forall>c from to amt. amt \<le> bal c from \<and> unat (bal c to) + unat amt < 2 ^ 256 \<longrightarrow>
        fst (transfer ops c from to amt) = TransferOk)"

lemma bank_journal_live: "journal_live bank_ops (\<lambda>c. c)"
  by (simp add: journal_live_def bank_ops_def bank_transfer_def no_overflow_iff del: power_numeral)

text \<open>
  C32: no stake is stuck. In a solvent state a caller that unbonds no more than it has delegated, with
  enough gas and room in its balance, gets exactly the amount back: the staking account can always
  pay, the call returns one and the stake falls by the amount.
\<close>

theorem unbond_call:
  assumes j: "journal_ok ops bal" and live: "journal_live ops bal" and sol: "solvent bal s c"
    and caller: "ci_caller inputs \<noteq> STAKING_ADDR"
    and inp: "extract_input ops c inputs = abi_call2 SEL_UNBOND v amount"
    and gas: "record_cost ops (gas_new ops (ci_gas_limit inputs)) PRECOMPILE_WRITE_GAS = (True, g)"
    and has: "amount \<le> get_stake s (ci_caller inputs) v"
    and room: "unat (bal c (ci_caller inputs)) + unat amount < 2 ^ 256"
    and run: "run_staking ops ks s c inputs = (r, s', c')"
  shows "ir_result r = Return \<and> ir_output r = word_bytes 1 \<and>
     unat (bal c' (ci_caller inputs)) = unat (bal c (ci_caller inputs)) + unat amount \<and>
     unat (get_stake s' (ci_caller inputs) v) + unat amount = unat (get_stake s (ci_caller inputs) v)"
proof -
  let ?d = "ci_caller inputs"
  obtain ru su where u: "unbond ?d v amount s = (ru, su)" by fastforce
  then have ok: "ru = Inr ()" "su = s\<lparr>delegations := hm_insert (?d, v) (stake_slot s (?d, v) - amount) (delegations s)\<rparr>"
    using has by (cases rule: unbond_cases; simp add: get_stake_slot)+
  have "unat (stake_slot s (?d, v)) \<le> unat (bal c STAKING_ADDR)"
    using sol slot_le_total [of s "(?d, v)"] by (auto simp: solvent_def)
  then have "amount \<le> bal c STAKING_ADDR"
    using has by (simp add: get_stake_slot word_le_nat_alt)
  then have "fst (transfer ops c STAKING_ADDR ?d amount) = TransferOk"
    using live room by (simp add: journal_live_def)
  then obtain c2 where tr: "transfer ops c STAKING_ADDR ?d amount = (TransferOk, c2)"
    by (metis prod.collapse)
  have eq: "r = \<lparr>ir_result = Return, ir_gas = g, ir_output = word_bytes 1\<rparr>" "s' = su" "c' = c2"
    using run run_unbond [OF inp gas u [unfolded ok(1)] tr] by simp_all
  note moved = journal_transfer_ok [OF j tr caller [symmetric]]
  have "unat (stake_slot s (?d, v) - amount) + unat amount = unat (stake_slot s (?d, v))"
    using has by (simp add: get_stake_slot unat_sub word_le_nat_alt)
  then show ?thesis using moved(3) by (simp add: eq ok(2) get_stake_slot)
qed

definition bank_staked :: "address \<Rightarrow> u256" where
  "bank_staked = (\<lambda>a. if a = 1 then 100 else if a = STAKING_ADDR then 60 else 0)"

definition ledger_two :: staking_state where
  "ledger_two = delegate 2 9 60 staking_new"

lemma ledger_two_stake: "get_stake ledger_two 2 9 = 60" "get_stake ledger_two 1 9 = 0"
  by (simp_all add: ledger_two_def get_stake_def delegate_def staking_new_def stake_slot_def hm_insert_def)

lemma ledger_two_solvent: "solvent (\<lambda>c. c) ledger_two bank_staked"
proof -
  have fin: "ledger_finite staking_new" by (simp add: ledger_finite_def staking_new_def)
  have "ledger_total staking_new = 0" by (simp add: ledger_total_def staking_new_def)
  with delegate_total [OF fin, of 60 2 9] show ?thesis
    by (simp add: solvent_def ledger_two_def bank_staked_def STAKING_ADDR_def)
qed

lemma bank_transfer_back:
  "transfer bank_ops bank_staked STAKING_ADDR a 60 =
     (TransferOk, bank_staked(STAKING_ADDR := 0, a := bank_staked a + 60))" if "a = 1 \<or> a = 2"
  using that by (auto simp: bank_ops_def bank_transfer_def bank_staked_def STAKING_ADDR_def)

theorem unbond_call_witness:
  "case run_staking bank_ops [] ledger_two bank_staked (staking_call 2 (abi_call2 SEL_UNBOND 9 60)) of
     (r, s, c) \<Rightarrow> unat (c 2) = unat (bank_staked 2) + unat (60 :: u256)"
proof -
  obtain r s c where run: "run_staking bank_ops [] ledger_two bank_staked
      (staking_call 2 (abi_call2 SEL_UNBOND 9 60)) = (r, s, c)"
    by (metis prod_cases3)
  have caller: "ci_caller (staking_call 2 (abi_call2 SEL_UNBOND 9 60)) = 2" by (simp add: staking_call_def)
  from unbond_call [OF bank_journal_ok bank_journal_live ledger_two_solvent _ bank_extract bank_gas _ _ run]
  have "unat (c 2) = unat (bank_staked 2) + unat (60 :: u256)"
    by (simp add: caller ledger_two_stake bank_staked_def) (simp add: STAKING_ADDR_def)
  then show ?thesis by (simp add: run)
qed


text \<open>
  A call that ends in a precompile error or runs out of gas changes neither the ledger nor the
  context.
\<close>

theorem run_staking_errors_inert:
  assumes "run_staking ops ks s c inputs = (r, s', c')"
    and "ir_result r = PrecompileError \<or> ir_result r = PrecompileOOG"
  shows "s' = s \<and> c' = c"
  using assms(1)
proof (cases rule: run_staking_cases)
  case Same
  then show ?thesis by simp
qed (use assms(2) in simp_all)

theorem run_staking_errors_inert_witness:
  "case run_staking bank_ops [] ledger_two bank_staked (staking_call 1 [1, 2, 3]) of
     (r, s, c) \<Rightarrow> ir_result r = PrecompileError \<and> s = ledger_two \<and> c = bank_staked"
proof -
  obtain r s c where run: "run_staking bank_ops [] ledger_two bank_staked (staking_call 1 [1, 2, 3]) = (r, s, c)"
    by (metis prod_cases3)
  then have err: "ir_result r = PrecompileError"
    by (auto simp: run_staking_def bank_extract)
  with run_staking_errors_inert [OF run] show ?thesis by (simp add: run)
qed

text \<open>
  Dispatch. A call to 0x0800 or 0x0801 is always answered here and never by the standard
  precompiles, any other call only by them, with the ledger untouched; both addresses are reported
  as present and as warm.
\<close>

theorem precompiles_dispatch:
  "precompiles_run ops ks self c inputs =
     (if ci_bytecode_address inputs = BALANCES_ADDR
      then (Inr (Some (fst (run_balances ops c inputs))), self, snd (run_balances ops c inputs))
      else if ci_bytecode_address inputs = STAKING_ADDR
      then (Inr (Some (fst (run_staking ops ks (hp_staking self) c inputs))),
            self\<lparr>hp_staking := fst (snd (run_staking ops ks (hp_staking self) c inputs))\<rparr>,
            snd (snd (run_staking ops ks (hp_staking self) c inputs)))
      else (fst (eth_run ops (hp_eth self) c inputs),
            self\<lparr>hp_eth := fst (snd (eth_run ops (hp_eth self) c inputs))\<rparr>,
            snd (snd (eth_run ops (hp_eth self) c inputs)))) \<and>
   precompiles_contains ops self BALANCES_ADDR \<and> precompiles_contains ops self STAKING_ADDR \<and>
   {BALANCES_ADDR, STAKING_ADDR} \<subseteq> set (precompiles_warm_addresses ops self) \<and>
   BALANCES_ADDR \<noteq> STAKING_ADDR"
  by (simp add: precompiles_run_def Let_def precompiles_contains_def precompiles_warm_addresses_def
      BALANCES_ADDR_def STAKING_ADDR_def split_beta)

end
