(* ===== verification/Executor_Spec.thy ===== *)
theory Executor_Spec
  imports Executor World_State_Spec Tx_Pool_Spec Precompile_Spec
begin

text \<open>
  Block execution: gas accounting of the receipts, the order and uniqueness of what is executed, and
  the effect on the account nonces. What is assumed of the EVM is stated in \<open>evm_gas_ok\<close> (a
  transaction uses at most its gas limit) and \<open>evm_nonce_ok\<close> (an executed transaction raises its
  sender's nonce by one and lowers no nonce; one that is refused changes none).
\<close>

section \<open>The EVM\<close>

definition evm_gas_ok :: "('b, 'a, 'k, 's) evm_fns \<Rightarrow> bool" where
  "evm_gas_ok F \<longleftrightarrow>
     (\<forall>db s blk tx r db' s'. transact_commit F db s blk tx = (Inr r, db', s') \<longrightarrow>
        exec_gas_used r \<le> te_gas_limit tx)"

definition nonce_in ::
    "('b, 'a, 'k, 's, 't) state_ops \<Rightarrow> ('b, 'a, 'k, 's) cache_db \<Rightarrow> address \<Rightarrow> u64" where
  "nonce_in ops db a =
     (case cache_accounts db a of
        Some acc \<Rightarrow> ai_nonce (da_info acc) | None \<Rightarrow> vsdb_get_nonce ops (cache_inner db) a)"

definition evm_nonce_ok :: "('b, 'a, 'k, 's, 't) state_ops \<Rightarrow> ('b, 'a, 'k, 's) evm_fns \<Rightarrow> bool" where
  "evm_nonce_ok ops F \<longleftrightarrow>
     (\<forall>db s blk tx r db' s'. transact_commit F db s blk tx = (r, db', s') \<longrightarrow>
        (\<forall>a. nonce_in ops db a \<le> nonce_in ops db' a) \<and>
        (case r of Inl _ \<Rightarrow> (\<forall>a. nonce_in ops db' a = nonce_in ops db a)
                 | Inr _ \<Rightarrow> unat (nonce_in ops db' (te_caller tx)) = Suc (unat (nonce_in ops db (te_caller tx)))))"

lemma es_get_nonce_in: "es_get_nonce ops st a = nonce_in ops (es_db st) a"
  by (simp add: es_get_nonce_def nonce_in_def)

lemma tx_env_of_simps [simp]:
  "te_caller (tx_env_of F v) = vt_sender v" "te_gas_limit (tx_env_of F v) = env_gas_limit (vt_envelope v)"
  by (simp_all add: tx_env_of_def Let_def)

lemma receipt_of_simps [simp]:
  "rc_tx_hash (receipt_of F cfg ctx i v c r) = vt_tx_hash v"
  "rc_from (receipt_of F cfg ctx i v c r) = vt_sender v"
  "rc_cumulative_gas_used (receipt_of F cfg ctx i v c r) = c"
  "rc_gas_used (receipt_of F cfg ctx i v c r) = exec_gas_used r"
  "rc_block_number (receipt_of F cfg ctx i v c r) = ctx_height ctx"
  by (simp_all add: receipt_of_def Let_def split_beta)

section \<open>Gas accounting\<close>

definition gas_sum :: "evm_receipt list \<Rightarrow> nat" where
  "gas_sum rs = (\<Sum>r \<leftarrow> rs. unat (rc_gas_used r))"

text \<open>Each receipt carries the gas used up to and including it.\<close>

definition gas_trace :: "evm_receipt list \<Rightarrow> bool" where
  "gas_trace rs \<longleftrightarrow> (\<forall>i < length rs. unat (rc_cumulative_gas_used (rs ! i)) = gas_sum (take (Suc i) rs))"

lemma gas_trace_snoc:
  "gas_trace (rs @ [r]) \<longleftrightarrow> gas_trace rs \<and> unat (rc_cumulative_gas_used r) = gas_sum rs + unat (rc_gas_used r)"
  by (auto simp: gas_trace_def gas_sum_def nth_append less_Suc_eq)

lemma gas_fits:
  fixes cum g u limit :: u64
  assumes "\<not> limit < saturating_add cum g" "u \<le> g" "limit \<noteq> - 1"
  shows "unat (saturating_add cum u) = unat cum + unat u" and "unat cum + unat u \<le> unat limit"
proof -
  let ?M = "2 ^ LENGTH(64) - 1 :: nat"
  have "unat limit \<noteq> unat (- 1 :: u64)" using assms(3) unfolding word_unat_eq_iff .
  then have ne: "unat limit \<noteq> ?M" unfolding unat_max_word .
  have le: "unat limit \<le> ?M" by (rule unat_le_max)
  have "unat (saturating_add cum g) \<le> unat limit" using assms(1) by (simp only: not_less word_le_nat_alt)
  then have g: "min (unat cum + unat g) ?M \<le> unat limit" unfolding unat_saturating_add .
  have u: "unat u \<le> unat g" using assms(2) by (simp only: word_le_nat_alt)
  show sum: "unat cum + unat u \<le> unat limit" using ne le g u by linarith
  have "unat (saturating_add cum u) = min (unat cum + unat u) ?M" by (rule unat_saturating_add)
  then show "unat (saturating_add cum u) = unat cum + unat u" using sum le by linarith
qed

text \<open>The four ways an iteration of the loop can go.\<close>

lemma exec_loop_cases [consumes 1, case_names Skip Stop Err Exec]:
  assumes run: "exec_loop ops F cfg ctx i (v # vs) (st, s, cum, rs) = R"
  obtains "env_nonce (vt_envelope v) \<noteq> es_get_nonce ops st (vt_sender v)"
      "exec_loop ops F cfg ctx (Suc i) vs (st, s, cum, rs) = R"
  | "R = (st, s, cum, rs)"
  | e db s2 where
      "transact_commit F (es_db st) s (block_env_of F cfg ctx) (tx_env_of F v) = (Inl e, db, s2)"
      "exec_loop ops F cfg ctx (Suc i) vs (st\<lparr>es_db := db\<rparr>, s2, cum, rs) = R"
  | x db s2 where "env_nonce (vt_envelope v) = es_get_nonce ops st (vt_sender v)"
      "\<not> block_gas_limit cfg < saturating_add cum (env_gas_limit (vt_envelope v))"
      "transact_commit F (es_db st) s (block_env_of F cfg ctx) (tx_env_of F v) = (Inr x, db, s2)"
      "exec_loop ops F cfg ctx (Suc i) vs (st\<lparr>es_db := db\<rparr>, s2, saturating_add cum (exec_gas_used x),
         rs @ [receipt_of F cfg ctx i v (saturating_add cum (exec_gas_used x)) x]) = R"
proof (cases "env_nonce (vt_envelope v) = es_get_nonce ops st (vt_sender v)")
  case False
  then show ?thesis using that(1) run by simp
next
  case same: True
  show ?thesis
  proof (cases "block_gas_limit cfg < saturating_add cum (env_gas_limit (vt_envelope v))")
    case True
    then show ?thesis using that(2) run same by simp
  next
    case fits: False
    obtain r db s2 where t: "transact_commit F (es_db st) s (block_env_of F cfg ctx) (tx_env_of F v) = (r, db, s2)"
      by (metis prod_cases3)
    show ?thesis
    proof (cases r)
      case (Inl e)
      then show ?thesis using that(3) t run same fits by simp
    next
      case (Inr x)
      then show ?thesis using that(4) t run same fits by (simp add: Let_def)
    qed
  qed
qed

lemma exec_loop_gas:
  assumes ok: "evm_gas_ok F" and lim: "block_gas_limit cfg \<noteq> - 1"
    and "exec_loop ops F cfg ctx i vs (st, s, cum, rs) = (st', s', cum', rs')"
    and "gas_trace rs" "unat cum = gas_sum rs" "unat cum \<le> unat (block_gas_limit cfg)"
  shows "gas_trace rs' \<and> unat cum' = gas_sum rs' \<and> unat cum' \<le> unat (block_gas_limit cfg)"
  using assms(3-)
proof (induction vs arbitrary: i st s cum rs)
  case (Cons v vs)
  note keep = Cons.prems(2-4)
  from Cons.prems(1) show ?case
  proof (cases rule: exec_loop_cases)
    case Skip
    show ?thesis by (rule Cons.IH [OF Skip(2) keep])
  next
    case Stop
    then show ?thesis using keep by simp
  next
    case (Err e db s2)
    show ?thesis by (rule Cons.IH [OF Err(2) keep])
  next
    case (Exec x db s2)
    have "exec_gas_used x \<le> te_gas_limit (tx_env_of F v)"
      using ok Exec(3) unfolding evm_gas_ok_def by blast
    then have "exec_gas_used x \<le> env_gas_limit (vt_envelope v)" by simp
    note fits = gas_fits [OF Exec(2) this lim]
    show ?thesis
      by (rule Cons.IH [OF Exec(4)]) (use keep fits in \<open>simp_all add: gas_trace_snoc gas_sum_def\<close>)
  qed
qed simp

section \<open>What a block executes\<close>

lemma nonce_step:
  assumes "evm_nonce_ok ops F" "transact_commit F db s blk tx = (r, db', s')"
  shows "unat (nonce_in ops db a) \<le> unat (nonce_in ops db' a)"
    and "r = Inl e \<Longrightarrow> nonce_in ops db' a = nonce_in ops db a"
    and "r = Inr x \<Longrightarrow> unat (nonce_in ops db' (te_caller tx)) = Suc (unat (nonce_in ops db (te_caller tx)))"
proof -
  have law: "(\<forall>a. nonce_in ops db a \<le> nonce_in ops db' a) \<and>
        (case r of Inl _ \<Rightarrow> (\<forall>a. nonce_in ops db' a = nonce_in ops db a)
                 | Inr _ \<Rightarrow> unat (nonce_in ops db' (te_caller tx)) = Suc (unat (nonce_in ops db (te_caller tx))))"
    using assms unfolding evm_nonce_ok_def by blast
  then show "unat (nonce_in ops db a) \<le> unat (nonce_in ops db' a)" by (simp add: word_le_nat_alt)
  show "r = Inl e \<Longrightarrow> nonce_in ops db' a = nonce_in ops db a" using law by simp
  show "r = Inr x \<Longrightarrow> unat (nonce_in ops db' (te_caller tx)) = Suc (unat (nonce_in ops db (te_caller tx)))"
    using law by simp
qed

abbreviation tx_nonce_of :: "verified_tx \<Rightarrow> nat" where
  "tx_nonce_of v \<equiv> unat (env_nonce (vt_envelope v))"

text \<open>
  \<open>executed ops db vs db'\<close>: the transactions \<open>vs\<close> can have been executed, in this order, between \<open>db\<close>
  and \<open>db'\<close>: none has a nonce below its sender's at the start, each raises it above its own, and the
  nonces of one sender increase.
\<close>

definition executed ::
    "('b, 'a, 'k, 's, 't) state_ops \<Rightarrow> ('b, 'a, 'k, 's) cache_db \<Rightarrow> verified_tx list \<Rightarrow>
     ('b, 'a, 'k, 's) cache_db \<Rightarrow> bool" where
  "executed ops db vs db' \<longleftrightarrow>
     (\<forall>v \<in> set vs. unat (nonce_in ops db (vt_sender v)) \<le> tx_nonce_of v \<and>
                   tx_nonce_of v < unat (nonce_in ops db' (vt_sender v))) \<and>
     sorted_wrt (\<lambda>v w. vt_sender v = vt_sender w \<longrightarrow> tx_nonce_of v < tx_nonce_of w) vs \<and>
     (\<forall>a. unat (nonce_in ops db a) \<le> unat (nonce_in ops db' a))"

lemma executed_nil: "(\<forall>a. unat (nonce_in ops db a) \<le> unat (nonce_in ops db' a)) \<Longrightarrow> executed ops db [] db'"
  by (simp add: executed_def)

lemma executed_later:
  assumes "executed ops db1 vs db'" "\<forall>a. unat (nonce_in ops db a) \<le> unat (nonce_in ops db1 a)"
  shows "executed ops db vs db'"
  using assms unfolding executed_def by (meson le_trans)

lemma executed_cons:
  assumes ex: "executed ops db1 vs db'" and mono: "\<forall>a. unat (nonce_in ops db a) \<le> unat (nonce_in ops db1 a)"
    and v: "tx_nonce_of v = unat (nonce_in ops db (vt_sender v))"
    and up: "unat (nonce_in ops db1 (vt_sender v)) = Suc (unat (nonce_in ops db (vt_sender v)))"
  shows "executed ops db (v # vs) db'"
proof -
  have later: "executed ops db vs db'" by (rule executed_later [OF ex mono])
  have "tx_nonce_of v < tx_nonce_of w" if "w \<in> set vs" "vt_sender v = vt_sender w" for w
    using ex that v up by (fastforce simp: executed_def)
  moreover have "tx_nonce_of v < unat (nonce_in ops db' (vt_sender v))"
    using ex v up by (metis executed_def less_eq_Suc_le)
  ultimately show ?thesis using later v by (simp add: executed_def)
qed

lemma exec_loop_executed:
  assumes ok: "evm_nonce_ok ops F"
    and "exec_loop ops F cfg ctx i vs (st, s, cum, rs) = (st', s', cum', rs')"
  shows "\<exists>ran news. subseq ran vs \<and> rs' = rs @ news \<and> executed ops (es_db st) ran (es_db st') \<and>
     map rc_tx_hash news = map vt_tx_hash ran \<and> map rc_from news = map vt_sender ran \<and>
     (\<forall>r \<in> set news. rc_block_number r = ctx_height ctx)"
  using assms(2)
proof (induction vs arbitrary: i st s cum rs)
  case Nil
  then show ?case by (intro exI [of _ "[]"]) (simp add: executed_nil)
next
  case (Cons v vs)
  from Cons.prems show ?case
  proof (cases rule: exec_loop_cases)
    case Skip
    from Cons.IH [OF Skip(2)] obtain ran news where "subseq ran vs" "rs' = rs @ news"
      "executed ops (es_db st) ran (es_db st')" "map rc_tx_hash news = map vt_tx_hash ran"
      "map rc_from news = map vt_sender ran" "\<forall>r \<in> set news. rc_block_number r = ctx_height ctx" by auto
    then show ?thesis by (intro exI [of _ ran] exI [of _ news]) (simp add: list_emb_Cons)
  next
    case Stop
    then show ?thesis by (intro exI [of _ "[]"]) (simp add: executed_nil)
  next
    case (Err e db s2)
    have "\<forall>a. unat (nonce_in ops (es_db st) a) \<le> unat (nonce_in ops db a)"
      using nonce_step(1) [OF ok Err(1)] by blast
    note later = executed_later [OF _ this]
    from Cons.IH [OF Err(2)] obtain ran news where "subseq ran vs" "rs' = rs @ news"
      "executed ops db ran (es_db st')" "map rc_tx_hash news = map vt_tx_hash ran"
      "map rc_from news = map vt_sender ran" "\<forall>r \<in> set news. rc_block_number r = ctx_height ctx" by auto
    then show ?thesis by (intro exI [of _ ran] exI [of _ news]) (simp add: list_emb_Cons later)
  next
    case (Exec x db s2)
    have mono: "\<forall>a. unat (nonce_in ops (es_db st) a) \<le> unat (nonce_in ops db a)"
      using nonce_step(1) [OF ok Exec(3)] by blast
    have up: "unat (nonce_in ops db (vt_sender v)) = Suc (unat (nonce_in ops (es_db st) (vt_sender v)))"
      using nonce_step(3) [OF ok Exec(3)] by simp
    have now: "tx_nonce_of v = unat (nonce_in ops (es_db st) (vt_sender v))"
      using Exec(1) by (simp add: es_get_nonce_in)
    let ?r = "receipt_of F cfg ctx i v (saturating_add cum (exec_gas_used x)) x"
    obtain ran news where IH: "subseq ran vs" "rs' = (rs @ [?r]) @ news" "executed ops db ran (es_db st')"
      "map rc_tx_hash news = map vt_tx_hash ran" "map rc_from news = map vt_sender ran"
      "\<forall>r \<in> set news. rc_block_number r = ctx_height ctx"
      using Cons.IH [OF Exec(4)] by auto
    show ?thesis
      by (rule exI [of _ "v # ran"], rule exI [of _ "?r # news"])
        (use IH executed_cons [OF IH(3) mono now up] in simp)
  qed
qed

section \<open>The whole block\<close>

definition block_start ::
    "('b, 'a, 'k, 's, 't) state_ops \<Rightarrow> block_context \<Rightarrow> ('b, 'a, 'k, 's, 't) evm_executor \<Rightarrow>
     ('b, 'a, 'k, 's, 't) evm_state" where
  "block_start ops ctx ex =
     (if ctx_height ctx > 0 then record_block_hash ops (saturating_sub (ctx_height ctx) 1) 0 (ex_state ex)
      else ex_state ex)"

lemma execute_block_unfold:
  assumes "execute_block ops F C ks ord txs ctx ex = (root, ex')"
  obtains st s cum rs where
    "exec_loop ops F (es_config (ex_state ex)) ctx 0 (decode_all C txs)
       (block_start ops ctx ex, ex_staking ex, 0, []) = (st, s, cum, rs)"
    "root = fst (state_root ops (flush_cache_to_vsdb ops ks ord st))"
    "ex' = ex\<lparr>ex_state := snd (state_root ops (flush_cache_to_vsdb ops ks ord st)), ex_staking := s,
              ex_receipts := ex_receipts ex @ [rs]\<rparr>"
proof -
  obtain st s cum rs where loop: "exec_loop ops F (es_config (ex_state ex)) ctx 0 (decode_all C txs)
       (block_start ops ctx ex, ex_staking ex, 0, []) = (st, s, cum, rs)"
    by (metis prod_cases4)
  show thesis
    by (rule that [OF loop]) (use assms loop in \<open>auto simp: execute_block_def Let_def block_start_def split_beta\<close>)
qed

lemma block_start_nonce: "nonce_in ops (es_db (block_start ops ctx ex)) a = es_get_nonce ops (ex_state ex) a"
  by (simp add: block_start_def es_get_nonce_in nonce_in_def record_block_hash_def Let_def
      insert_block_hash_def vsdb_get_nonce_def stored_at_def split: option.split)

lemma after_block_nonce:
  assumes "state_ok ops"
  shows "es_get_nonce ops (snd (state_root ops (flush_cache_to_vsdb ops ks ord st))) a = nonce_in ops (es_db st) a"
  using assms
  by (cases "cache_accounts (es_db st) a")
    (simp_all add: state_root_def Let_def split_beta flush_cache_to_vsdb_def es_get_nonce_in nonce_in_def
      vsdb_get_nonce_def flush_accounts_at)

text \<open>
  C14: a block adds one list of receipts, and their gas accounts are right: each cumulative figure is
  the sum of the gas used by the receipts up to it, and the total is within the block gas limit,
  for any block whose limit is below the largest \<^verbatim>\<open>u64\<close> (at that value the saturating sum could
  hide an excess).
\<close>

theorem execute_block_gas:
  assumes "evm_gas_ok F" and "block_gas_limit (es_config (ex_state ex)) \<noteq> - 1"
    and "execute_block ops F C ks ord txs ctx ex = (root, ex')"
  shows "\<exists>rs. ex_receipts ex' = ex_receipts ex @ [rs] \<and>
     (\<forall>i < length rs. unat (rc_cumulative_gas_used (rs ! i)) = (\<Sum>r \<leftarrow> take (Suc i) rs. unat (rc_gas_used r))) \<and>
     (\<Sum>r \<leftarrow> rs. unat (rc_gas_used r)) \<le> unat (block_gas_limit (es_config (ex_state ex)))"
  using assms(3)
proof (rule execute_block_unfold)
  fix st s cum rs
  assume loop: "exec_loop ops F (es_config (ex_state ex)) ctx 0 (decode_all C txs)
       (block_start ops ctx ex, ex_staking ex, 0, []) = (st, s, cum, rs)"
    and ex': "ex' = ex\<lparr>ex_state := snd (state_root ops (flush_cache_to_vsdb ops ks ord st)), ex_staking := s,
              ex_receipts := ex_receipts ex @ [rs]\<rparr>"
  have "gas_trace rs \<and> unat cum = gas_sum rs \<and> unat cum \<le> unat (block_gas_limit (es_config (ex_state ex)))"
    by (rule exec_loop_gas [OF assms(1,2) loop]) (simp_all add: gas_trace_def gas_sum_def)
  then show ?thesis using ex' by (auto simp: gas_trace_def gas_sum_def)
qed

text \<open>
  The receipts of a block belong, in order, to a subsequence \<open>ran\<close> of its decodable transactions. None of
  these has a nonce below its sender's account nonce before the block, each account nonce afterwards
  is above every nonce it ran, and no two of them share sender and nonce.
\<close>

lemma execute_block_ran:
  assumes ok: "state_ok ops" and evm: "evm_nonce_ok ops F"
    and run: "execute_block ops F C ks ord txs ctx ex = (root, ex')"
  shows "\<exists>rs ran. ex_receipts ex' = ex_receipts ex @ [rs] \<and> subseq ran (decode_all C txs) \<and>
     map rc_tx_hash rs = map vt_tx_hash ran \<and> map rc_from rs = map vt_sender ran \<and>
     (\<forall>v \<in> set ran. es_get_nonce ops (ex_state ex) (vt_sender v) \<le> env_nonce (vt_envelope v) \<and>
        env_nonce (vt_envelope v) < es_get_nonce ops (ex_state ex') (vt_sender v)) \<and>
     distinct (map (\<lambda>v. (vt_sender v, env_nonce (vt_envelope v))) ran) \<and>
     (\<forall>r \<in> set rs. rc_block_number r = ctx_height ctx) \<and>
     (\<forall>a. es_get_nonce ops (ex_state ex) a \<le> es_get_nonce ops (ex_state ex') a)"
  using run
proof (rule execute_block_unfold)
  fix st s cum rs
  assume loop: "exec_loop ops F (es_config (ex_state ex)) ctx 0 (decode_all C txs)
       (block_start ops ctx ex, ex_staking ex, 0, []) = (st, s, cum, rs)"
    and ex': "ex' = ex\<lparr>ex_state := snd (state_root ops (flush_cache_to_vsdb ops ks ord st)), ex_staking := s,
              ex_receipts := ex_receipts ex @ [rs]\<rparr>"
  obtain ran where r: "subseq ran (decode_all C txs)"
    "executed ops (es_db (block_start ops ctx ex)) ran (es_db st)"
    "map rc_tx_hash rs = map vt_tx_hash ran" "map rc_from rs = map vt_sender ran"
    "\<forall>r \<in> set rs. rc_block_number r = ctx_height ctx"
    using exec_loop_executed [OF evm loop] by auto
  have "sorted_wrt (\<lambda>v w. (vt_sender v, env_nonce (vt_envelope v)) \<noteq> (vt_sender w, env_nonce (vt_envelope w))) ran"
    by (rule sorted_wrt_mono_rel [rotated,
          where P = "\<lambda>v w. vt_sender v = vt_sender w \<longrightarrow> tx_nonce_of v < tx_nonce_of w"])
      (use r(2) in \<open>auto simp: executed_def\<close>)
  then have "distinct (map (\<lambda>v. (vt_sender v, env_nonce (vt_envelope v))) ran)"
    by (simp add: distinct_conv_sorted_wrt)
  moreover have "es_get_nonce ops (ex_state ex) (vt_sender v) \<le> env_nonce (vt_envelope v) \<and>
        env_nonce (vt_envelope v) < es_get_nonce ops (ex_state ex') (vt_sender v)" if "v \<in> set ran" for v
    using r(2) that
    by (simp add: executed_def block_start_nonce ex' after_block_nonce [OF ok] word_le_nat_alt word_less_nat_alt)
  moreover have "es_get_nonce ops (ex_state ex) a \<le> es_get_nonce ops (ex_state ex') a" for a
    using r(2) by (simp add: executed_def block_start_nonce ex' after_block_nonce [OF ok] word_le_nat_alt)
  moreover have "ex_receipts ex' = ex_receipts ex @ [rs]" by (simp add: ex')
  ultimately show ?thesis using r(1,3-5) by blast
qed

section \<open>A concrete EVM\<close>

text \<open>It charges 21000 gas or the limit and raises the sender's nonce, unless that is exhausted.\<close>

definition demo_commit ::
    "('b, 'a, 'k, 's, 't) state_ops \<Rightarrow> ('b, 'a, 'k, 's) evm_run" where
  "demo_commit ops db s blk tx =
     (let n = nonce_in ops db (te_caller tx)
      in if n = - 1 then (Inl ''nonce overflow'', db, s)
         else (Inr (ExecSuccess (min 21000 (te_gas_limit tx)) [] []),
               db\<lparr>cache_accounts := hm_insert (te_caller tx)
                    \<lparr>da_info = (default_info ops)\<lparr>ai_nonce := n + 1\<rparr>, da_storage = Map.empty\<rparr>
                    (cache_accounts db)\<rparr>, s))"

definition demo_evm :: "(bytes, bytes \<rightharpoonup> stored_account, bytes \<rightharpoonup> bytes, bytes \<rightharpoonup> bytes) evm_fns" where
  "demo_evm =
     \<lparr>transact_commit = demo_commit demo_ops, transact_one = (\<lambda>db s blk tx. (fst (demo_commit demo_ops db s blk tx), db, s)),
      create_address = (\<lambda>a n. a + ucast n), hex_string = hex_encode,
      default_tx_env = \<lparr>te_tx_type = 0, te_caller = 0, te_gas_limit = 0, te_gas_price = 0,
        te_gas_priority_fee = None, te_kind = TxCreate, te_value = 0, te_data = [], te_nonce = 0,
        te_chain_id = None\<rparr>,
      default_block_env = \<lparr>be_chain_id = 1, be_number = 0, be_beneficiary = 0, be_timestamp = 0,
        be_gas_limit = 0, be_basefee = 0\<rparr>\<rparr>"

lemma demo_evm_gas: "evm_gas_ok demo_evm"
  by (auto simp: evm_gas_ok_def demo_evm_def demo_commit_def Let_def split: if_splits)

lemma unat_inc: "x \<noteq> - 1 \<Longrightarrow> unat (x + 1) = Suc (unat x)" for x :: u64
  using unatSuc [of x] eq_neg_iff_add_eq_0 [of x 1] by (simp add: add.commute)

lemma demo_commit_nonce:
  assumes F: "transact_commit F = demo_commit ops"
  shows "evm_nonce_ok ops F"
proof -
  have step: "nonce_in ops db' a = (if a = te_caller tx \<and> (\<exists>x. r = Inr x) then nonce_in ops db a + 1
        else nonce_in ops db a) \<and> ((\<exists>x. r = Inr x) \<longrightarrow> nonce_in ops db (te_caller tx) \<noteq> - 1)"
    if "transact_commit F db s blk tx = (r, db', s')" for db s blk tx r db' s' a
    using that
    by (auto simp: F demo_commit_def Let_def nonce_in_def [of ops db'] hm_insert_def
        split: if_splits option.split) (auto simp: nonce_in_def)
  show ?thesis unfolding evm_nonce_ok_def
  proof (intro allI impI conjI)
    fix db s blk tx r db' s' a
    assume t: "transact_commit F db s blk tx = (r, db', s')"
    show "nonce_in ops db a \<le> nonce_in ops db' a"
      using step [OF t, of a] unat_inc [of "nonce_in ops db a"]
      by (cases "a = te_caller tx \<and> (\<exists>x. r = Inr x)") (auto simp: word_le_nat_alt)
    show "case r of Inl _ \<Rightarrow> (\<forall>a. nonce_in ops db' a = nonce_in ops db a)
        | Inr _ \<Rightarrow> unat (nonce_in ops db' (te_caller tx)) = Suc (unat (nonce_in ops db (te_caller tx)))"
      using step [OF t] unat_inc [of "nonce_in ops db (te_caller tx)"] by (cases r) simp_all
  qed
qed

lemma demo_evm_nonce: "evm_nonce_ok demo_ops demo_evm"
  by (rule demo_commit_nonce) (simp add: demo_evm_def)

definition demo_ctx :: block_context where
  "demo_ctx = \<lparr>ctx_height = 1, ctx_proposer = 3, ctx_timestamp = 1700000000\<rparr>"

definition demo_executor ::
    "(bytes, bytes \<rightharpoonup> stored_account, bytes \<rightharpoonup> bytes, bytes \<rightharpoonup> bytes, (bytes \<times> bytes) list) evm_executor" where
  "demo_executor = executor_from_genesis demo_ops demo_genesis"

lemma demo_limit: "block_gas_limit (es_config (ex_state demo_executor)) = 30000000"
  by (simp add: demo_executor_def executor_from_genesis_def Let_def from_genesis_def split_beta
      demo_genesis_def default_gas_limit_def)

theorem execute_block_gas_witness:
  "\<exists>rs. ex_receipts (snd (execute_block demo_ops demo_evm demo_codec [1] (\<lambda>_. []) [[1, 2, 9, 50]] demo_ctx demo_executor))
      = ex_receipts demo_executor @ [rs] \<and> (\<Sum>r \<leftarrow> rs. unat (rc_gas_used r)) \<le> 30000000"
proof -
  have "block_gas_limit (es_config (ex_state demo_executor)) \<noteq> - 1" by (simp add: demo_limit)
  from execute_block_gas [OF demo_evm_gas this prod.collapse [symmetric],
      of demo_ops demo_codec "[1]" "\<lambda>_. []" "[[1, 2, 9, 50]]" demo_ctx]
  show ?thesis by (auto simp: demo_limit)
qed

section \<open>Queries and receipts\<close>

text \<open>
  A query answers with the state it reads: the reply to a balance, nonce or storage query for an
  encoded address (and slot) decodes to the stored value, the block number to the committed height,
  and a query with a payload of another length, or an unknown path, gets an empty reply.
\<close>

theorem query_roundtrip:
  "from_be_bytes (qr_data (app_query ops ex ''eth_getBalance'' (addr_slice a))) = es_get_balance ops (ex_state ex) a \<and>
   from_be_bytes (qr_data (app_query ops ex ''eth_getTransactionCount'' (addr_slice a))) = es_get_nonce ops (ex_state ex) a \<and>
   qr_data (app_query ops ex ''eth_getCode'' (addr_slice a)) = es_get_code ops (ex_state ex) a \<and>
   from_be_bytes (qr_data (app_query ops ex ''eth_getStorageAt'' (storage_key a t))) = es_get_storage ops (ex_state ex) a t \<and>
   from_be_bytes (qr_data (app_query ops ex ''eth_blockNumber'' [])) = ex_block_height ex \<and>
   qr_data (app_query ops ex ''eth_getBalance'' (addr_slice a @ [b])) = [] \<and>
   qr_data (app_query ops ex ''eth_chainId'' []) = []"
  by (simp add: app_query_def Let_def storage_key_def)

lemma find_receipt_spec:
  "case find_receipt h rs of None \<Rightarrow> h \<notin> rc_tx_hash ` set rs | Some r \<Rightarrow> r \<in> set rs \<and> rc_tx_hash r = h"
  by (induction rs) (auto split: option.splits)

lemma find_in_blocks_spec:
  "case find_in_blocks h bs of
     None \<Rightarrow> h \<notin> rc_tx_hash ` set (concat bs)
   | Some r \<Rightarrow> \<exists>newer b older. bs = newer @ b # older \<and> r \<in> set b \<and> rc_tx_hash r = h \<and>
                 h \<notin> rc_tx_hash ` set (concat newer)"
proof (induction bs)
  case (Cons b bs)
  show ?case
  proof (cases "find_receipt h b")
    case None
    then have fresh: "h \<notin> rc_tx_hash ` set b" using find_receipt_spec [of h b] by simp
    show ?thesis
    proof (cases "find_in_blocks h bs")
      case (Some r)
      with Cons obtain newer c older where "bs = newer @ c # older" "r \<in> set c" "rc_tx_hash r = h"
        "h \<notin> rc_tx_hash ` set (concat newer)" by auto
      then have "\<exists>newer' c older. b # bs = newer' @ c # older \<and> r \<in> set c \<and> rc_tx_hash r = h \<and>
          h \<notin> rc_tx_hash ` set (concat newer')"
        using fresh by (intro exI [of _ "b # newer"] exI [of _ c] exI [of _ older]) (simp add: image_Un)
      then show ?thesis using None Some by simp
    qed (use None Cons fresh in auto)
  next
    case (Some r)
    then have "\<exists>newer' c older. b # bs = newer' @ c # older \<and> r \<in> set c \<and> rc_tx_hash r = h \<and>
        h \<notin> rc_tx_hash ` set (concat newer')"
      using find_receipt_spec [of h b]
      by (intro exI [of _ "[]"] exI [of _ b] exI [of _ bs]) simp
    then show ?thesis using Some by simp
  qed
qed simp

text \<open>
  Looking a receipt up by transaction hash finds one exactly when some block has one, and it is one
  of the newest block that has.
\<close>

theorem get_receipt_by_tx_hash_newest:
  "case get_receipt_by_tx_hash ex h of
     None \<Rightarrow> h \<notin> rc_tx_hash ` set (concat (ex_receipts ex))
   | Some r \<Rightarrow> \<exists>older b newer. ex_receipts ex = older @ b # newer \<and> r \<in> set b \<and> rc_tx_hash r = h \<and>
                 h \<notin> rc_tx_hash ` set (concat newer)"
proof (cases "find_in_blocks h (rev (ex_receipts ex))")
  case None
  then show ?thesis
    using find_in_blocks_spec [of h "rev (ex_receipts ex)"] by (simp add: get_receipt_by_tx_hash_def)
next
  case (Some r)
  then obtain newer b older where n: "rev (ex_receipts ex) = newer @ b # older" "r \<in> set b" "rc_tx_hash r = h"
    "h \<notin> rc_tx_hash ` set (concat newer)"
    using find_in_blocks_spec [of h "rev (ex_receipts ex)"] by auto
  have "ex_receipts ex = rev older @ b # rev newer"
    using arg_cong [OF n(1), of rev] by simp
  moreover have "h \<notin> rc_tx_hash ` set (concat (rev newer))" using n(4) by simp
  ultimately have "\<exists>older b newer. ex_receipts ex = older @ b # newer \<and> r \<in> set b \<and> rc_tx_hash r = h \<and>
      h \<notin> rc_tx_hash ` set (concat newer)" using n(2,3) by blast
  then show ?thesis using Some by (simp add: get_receipt_by_tx_hash_def)
qed

section \<open>Prices and dry runs\<close>

text \<open>
  The effective gas price of a receipt is the base fee plus the tip, never above the fee cap of a
  transaction whose cap covers the base fee; and it is the bare base fee for an envelope without a
  priority fee, although the transaction is run at its full gas price.
\<close>

theorem effective_gas_price_bounds:
  "unat (effective_gas_price base env) =
     min (unat base + min (unat (env_max_fee_per_gas env) - unat base)
            (case env_max_priority_fee_per_gas env of None \<Rightarrow> 0 | Some p \<Rightarrow> unat p)) (2 ^ 128 - 1) \<and>
   unat (effective_gas_price base env) \<le> max (unat base) (unat (env_max_fee_per_gas env)) \<and>
   unat (effective_gas_price base (env\<lparr>env_max_priority_fee_per_gas := None\<rparr>)) = unat base \<and>
   te_gas_price (tx_env_of F v) = env_max_fee_per_gas (vt_envelope v)"
proof -
  have price: "unat (effective_gas_price base e) =
     min (unat base + min (unat (env_max_fee_per_gas e) - unat base)
            (case env_max_priority_fee_per_gas e of None \<Rightarrow> 0 | Some p \<Rightarrow> unat p)) (2 ^ 128 - 1)" for e
    by (simp add: effective_gas_price_def Let_def unat_ucast_wider unat_saturating_add unat_saturating_sub
        unat_min split: option.split)
  have "unat base < 2 ^ 128 - 1" using unat_le_max [of base] by simp
  then have "unat (effective_gas_price base (env\<lparr>env_max_priority_fee_per_gas := None\<rparr>)) = unat base"
    unfolding price by simp
  moreover have "unat (effective_gas_price base env) \<le> max (unat base) (unat (env_max_fee_per_gas env))"
    unfolding price by linarith
  ultimately show ?thesis using price [of env] by (simp add: tx_env_of_def Let_def)
qed

text \<open>
  A dry run leaves the pool, the receipts, the height, the trie and the configuration as they are.
  It keeps whatever the EVM did to the cache and to the staking ledger: nothing restores the ledger,
  so a dry run of a delegation records it.
\<close>

theorem eth_call_effect:
  "let ex' = snd (eth_call F ex from to data v gas) in
     ex_txpool ex' = ex_txpool ex \<and> ex_receipts ex' = ex_receipts ex \<and>
     ex_block_height ex' = ex_block_height ex \<and> es_trie (ex_state ex') = es_trie (ex_state ex) \<and>
     ex_config ex' = ex_config ex \<and>
     (\<exists>blk tx. te_caller tx = from \<and> te_data tx = data \<and> te_value tx = v \<and> te_kind tx = kind_of to \<and>
        be_basefee blk = base_fee_per_gas (ex_config ex) \<and>
        (es_db (ex_state ex'), ex_staking ex') =
          snd (transact_one F (es_db (ex_state ex)) (ex_staking ex) blk tx))"
proof -
  let ?tx = "(default_tx_env F)\<lparr>te_caller := from,
      te_gas_limit := (case gas of Some g \<Rightarrow> g | None \<Rightarrow> block_gas_limit (ex_config ex)),
      te_gas_price := ucast (base_fee_per_gas (ex_config ex)), te_kind := kind_of to,
      te_value := v, te_data := data\<rparr>"
  let ?blk = "(default_block_env F)\<lparr>be_chain_id := chain_id (ex_config ex),
      be_number := ucast (ex_block_height ex), be_gas_limit := block_gas_limit (ex_config ex),
      be_basefee := base_fee_per_gas (ex_config ex)\<rparr>"
  obtain r db s where t: "transact_one F (es_db (ex_state ex)) (ex_staking ex) ?blk ?tx = (r, db, s)"
    by (metis prod_cases3)
  then have ex': "snd (eth_call F ex from to data v gas) =
      ex\<lparr>ex_state := (ex_state ex)\<lparr>es_db := db\<rparr>, ex_staking := s\<rparr>"
    by (simp add: eth_call_def Let_def)
  show ?thesis unfolding Let_def ex'
    by (intro conjI exI [of _ ?blk] exI [of _ ?tx]) (simp_all add: t, simp_all add: ex_config_def)
qed

end
