(* ===== verification/Rpc_Spec.thy ===== *)
theory Rpc_Spec
  imports Rpc Executor_Spec
begin

text \<open>
  What the JSON-RPC server promises: every response is well formed, values read through it are those
  of the executor's state, a submitted transaction is broadcast exactly when the pool took it, and
  \<^verbatim>\<open>eth_getLogs\<close> is the filter over all receipts that it should be.

  Hypotheses on the third-party text conversions: \<open>hex_ok\<close> (the hex crate decodes what it encodes) and
  \<open>u256_text_ok\<close> (ruint parses the hexadecimal text it prints).
\<close>

section \<open>Text conversions\<close>

definition hex_ok :: "('b, 'a, 'k, 's) evm_fns \<Rightarrow> 'n rpc_fns \<Rightarrow> bool" where
  "hex_ok F R \<longleftrightarrow> (\<forall>bs. hex_decode_str R (hex_string F bs) = Inr bs)"

definition u256_text_ok :: "'n rpc_fns \<Rightarrow> bool" where
  "u256_text_ok R \<longleftrightarrow> (\<forall>v. u256_from_str_radix16 R (u256_lower_hex R v) = Inr v)"

text \<open>What a client writes for an address or hash: the text that the server itself prints.\<close>

definition addr_json :: "('b, 'a, 'k, 's) evm_fns \<Rightarrow> address \<Rightarrow> 'n json" where
  "addr_json F a = JString (hex_0x F (addr_slice a))"

definition hash_json :: "('b, 'a, 'k, 's) evm_fns \<Rightarrow> b256 \<Rightarrow> 'n json" where
  "hash_json F h = JString (hex_0x F (be_bytes 32 h))"

lemma strip_hex_0x [simp]: "strip_0x (hex_0x F bs) = hex_string F bs"
  by (simp add: hex_0x_def)

lemma parse_address_json: "hex_ok F R \<Longrightarrow> parse_address R (addr_json F a) = Inr a"
  by (simp add: parse_address_def parse_address_str_def addr_json_def hex_ok_def)

lemma parse_hash_json: "hex_ok F R \<Longrightarrow> parse_hash_param R (JArray (hash_json F h # rest)) = Inr h"
  by (simp add: parse_hash_param_def parse_b256_str_def hash_json_def hex_ok_def)

lemma parse_addr_block_json:
  "hex_ok F R \<Longrightarrow> \<exists>block. parse_addr_block R (JArray (addr_json F a # rest)) = Inr (a, block)"
  by (simp add: parse_addr_block_def parse_address_json Let_def)

lemma parse_u256_to_hex: "u256_text_ok R \<Longrightarrow> parse_u256 R (to_hex_u256 R v) = Inr v"
  by (simp add: parse_u256_def to_hex_u256_def u256_text_ok_def)

lemma parse_to_hex_u64: "\<exists>s. to_hex_u64 v = JString s \<and> from_str_radix16 (strip_0x s) = Inr v"
  by (simp add: to_hex_u64_def from_str_radix16_show_hex)

lemma queries_read_state [simp]:
  "query_balance ops ex a = es_get_balance ops (ex_state ex) a"
  "query_nonce ops ex a = es_get_nonce ops (ex_state ex) a"
  "query_block_number ops ex = ex_block_height ex"
  "query_code ops ex a = es_get_code ops (ex_state ex) a"
  "query_storage ops ex a t = es_get_storage ops (ex_state ex) a t"
  by (simp_all add: query_balance_def query_nonce_def query_block_number_def query_code_def
      query_storage_def app_query_def Let_def)

text \<open>Concrete conversions, for the examples: the decoder of the genesis document, and the printer of
  the standard library.\<close>

definition demo_rpc :: "unit rpc_fns" where
  "demo_rpc =
     \<lparr>hex_decode_str = (\<lambda>s. case hex_decode s of Done bs \<Rightarrow> Inr bs | Fail e \<Rightarrow> Inl (show_hex_error e)
        | Panic \<Rightarrow> Inl ''invalid character''),
      u256_from_str_radix16 = (\<lambda>s. map_err show_parse_int_error (from_str_radix16 s)),
      u256_lower_hex = show_hex, json_zero = ()\<rparr>"

lemma demo_hex_ok: "hex_ok demo_evm demo_rpc"
  by (simp add: hex_ok_def demo_evm_def demo_rpc_def hex_decode_encode)

lemma demo_u256_ok: "u256_text_ok demo_rpc"
  by (simp add: u256_text_ok_def demo_rpc_def from_str_radix16_show_hex)

definition demo_server ::
    "(bytes, bytes \<rightharpoonup> stored_account, bytes \<rightharpoonup> bytes, bytes \<rightharpoonup> bytes, (bytes \<times> bytes) list) evm_rpc_state" where
  "demo_server = \<lparr>rpc_executor = demo_executor, rpc_chain_id = 1337, rpc_network_sink = Some []\<rparr>"

section \<open>Responses\<close>

definition rpc_methods :: "string list" where
  "rpc_methods =
     [''eth_chainId'', ''net_version'', ''web3_clientVersion'', ''eth_blockNumber'', ''eth_getBalance'',
      ''eth_getTransactionCount'', ''eth_getCode'', ''eth_getStorageAt'', ''eth_gasPrice'',
      ''eth_estimateGas'', ''eth_maxPriorityFeePerGas'', ''eth_sendRawTransaction'', ''eth_call'',
      ''eth_getTransactionReceipt'', ''eth_getTransactionByHash'', ''eth_getLogs'',
      ''eth_getBlockByNumber'', ''eth_getBlockByHash'', ''eth_feeHistory'', ''eth_syncing'',
      ''eth_accounts'']"

text \<open>A well-formed answer to \<open>req\<close> of a method that exists.\<close>

definition answers :: "'n json_rpc_request \<Rightarrow> 'n json_rpc_response \<Rightarrow> bool" where
  "answers req r \<longleftrightarrow>
     resp_jsonrpc r = ''2.0'' \<and> resp_id r = req_id req \<and>
     (case resp_error r of
        None \<Rightarrow> resp_result r \<noteq> None
      | Some e \<Rightarrow> resp_result r = None \<and> err_code e \<in> {- 32602, - 32000, 3})"

lemma answers_ok [simp]: "answers req (response_ok (req_id req) v)"
  by (simp add: answers_def response_ok_def)

lemma answers_err [simp]:
  "answers req (response_err (req_id req) c msg) \<longleftrightarrow> c \<in> {- 32602, - 32000, 3}"
  by (simp add: answers_def response_err_def)

lemma answers_invalid [simp]: "answers req (invalid_params req e)"
  by (simp add: invalid_params_def)

lemma answers_read:
  "answers req (rpc_get_balance ops R ex req)" "answers req (rpc_get_transaction_count ops R ex req)"
  "answers req (rpc_get_code ops F R ex req)" "answers req (rpc_get_storage_at ops R ex req)"
  "answers req (rpc_get_transaction_receipt F R ex req)" "answers req (rpc_get_transaction_by_hash F R ex req)"
  "answers req (rpc_get_block_by_number ops F ex req)" "answers req (rpc_fee_history R ex req)"
  by (simp_all add: rpc_get_balance_def rpc_get_transaction_count_def rpc_get_code_def rpc_get_storage_at_def
      rpc_get_transaction_receipt_def rpc_get_transaction_by_hash_def rpc_get_block_by_number_def
      rpc_fee_history_def Let_def split: sum.split option.split prod.split)

lemma answers_write:
  "answers req (fst (rpc_estimate_gas F R st req))" "answers req (fst (rpc_eth_call F R st req))"
  "answers req (fst (rpc_send_raw_transaction F R C st req))"
  by (simp_all add: rpc_estimate_gas_def rpc_eth_call_def rpc_send_raw_transaction_def Let_def
      split: sum.split prod.split)

text \<open>A request for an unknown method, and which methods the reader knows.\<close>

lemma dispatch_read_cases:
  "case dispatch_read ops F R st req of
     Some r \<Rightarrow> answers req r \<and> req_method req \<in> set rpc_methods
   | None \<Rightarrow> req_method req \<in> set rpc_methods \<longleftrightarrow>
       req_method req \<in> {''eth_estimateGas'', ''eth_sendRawTransaction'', ''eth_call''}"
  unfolding dispatch_read_def Let_def rpc_methods_def
  by (simp add: answers_read)

text \<open>
  C22: every request gets exactly one response. It carries the version and the id of the request, and
  either a result or an error, never both. The code is method-not-found exactly for the names that
  are not served; for the others it is invalid-params, a server error or the execution error 3.
\<close>

theorem dispatch_well_formed:
  "let r = fst (dispatch ops F R C st req) in
     resp_jsonrpc r = ''2.0'' \<and> resp_id r = req_id req \<and>
     (case resp_error r of
        None \<Rightarrow> resp_result r \<noteq> None \<and> req_method req \<in> set rpc_methods
      | Some e \<Rightarrow> resp_result r = None \<and>
          (if req_method req \<in> set rpc_methods then err_code e \<in> {- 32602, - 32000, 3}
           else err_code e = - 32601))"
proof -
  have known: "?thesis" if "answers req (fst (dispatch ops F R C st req))" "req_method req \<in> set rpc_methods"
    using that by (auto simp: answers_def Let_def split: option.splits)
  consider "req_method req = ''eth_estimateGas''" | "req_method req = ''eth_sendRawTransaction''"
    | "req_method req = ''eth_call''"
    | (read) "req_method req \<notin> {''eth_estimateGas'', ''eth_sendRawTransaction'', ''eth_call''}" by blast
  then show ?thesis
  proof cases
    case read
    then have d: "dispatch ops F R C st req = (case dispatch_read ops F R st req of
              Some r \<Rightarrow> (r, st)
            | None \<Rightarrow> (response_err (req_id req) (- 32601) (''method not found: '' @ req_method req), st))"
      by (simp add: dispatch_def)
    show ?thesis
    proof (cases "dispatch_read ops F R st req")
      case None
      then have "req_method req \<notin> set rpc_methods"
        using dispatch_read_cases [of req ops F R st] read by auto
      then show ?thesis by (simp add: d None response_err_def)
    next
      case (Some r)
      then show ?thesis
        using dispatch_read_cases [of req ops F R st] by (intro known) (simp_all add: d)
    qed
  qed (rule known; simp add: dispatch_def answers_write rpc_methods_def)+
qed

section \<open>Reading the state\<close>

text \<open>
  C23: what a client reads is the executor's state. For an address in the server's own notation the
  balance, nonce, code and storage answers print the values of the current state, whatever block the
  request names; parsing the printed number gives the value back; and the server is unchanged.
\<close>

theorem rpc_reads_state:
  assumes hex: "hex_ok F R" and u256: "u256_text_ok (R :: 'n rpc_fns)"
    and req: "req_params req = JArray (addr_json F a # rest)"
  shows "let s = ex_state (rpc_executor st) in
    dispatch ops F R C st (req\<lparr>req_method := ''eth_getBalance''\<rparr>) =
      (response_ok (req_id req) (to_hex_u256 R (es_get_balance ops s a)), st) \<and>
    dispatch ops F R C st (req\<lparr>req_method := ''eth_getTransactionCount''\<rparr>) =
      (response_ok (req_id req) (to_hex_u64 (es_get_nonce ops s a)), st) \<and>
    dispatch ops F R C st (req\<lparr>req_method := ''eth_getCode''\<rparr>) =
      (response_ok (req_id req) (JString (hex_0x F (es_get_code ops s a))), st) \<and>
    dispatch ops F R C st (req\<lparr>req_method := ''eth_getStorageAt'',
        req_params := JArray [addr_json F a, to_hex_u256 R t]\<rparr>) =
      (response_ok (req_id req) (to_hex_u256 R (es_get_storage ops s a t)), st) \<and>
    parse_u256 R (to_hex_u256 R (es_get_balance ops s a)) = Inr (es_get_balance ops s a) \<and>
    (\<exists>txt. (to_hex_u64 (es_get_nonce ops s a) :: 'n json) = JString txt \<and>
       from_str_radix16 (strip_0x txt) = Inr (es_get_nonce ops s a))"
proof -
  obtain block where block: "parse_addr_block R (req_params req) = Inr (a, block)"
    using parse_addr_block_json [OF hex] req by metis
  have "dispatch ops F R C st (req\<lparr>req_method := ''eth_getStorageAt'',
        req_params := JArray [addr_json F a, to_hex_u256 R t]\<rparr>) =
      (response_ok (req_id req) (to_hex_u256 R (es_get_storage ops (ex_state (rpc_executor st)) a t)), st)"
    by (simp add: dispatch_def dispatch_read_def rpc_get_storage_at_def parse_address_json [OF hex]
        parse_u256_to_hex [OF u256] Let_def)
  then show ?thesis
    by (simp add: dispatch_def dispatch_read_def rpc_get_balance_def rpc_get_transaction_count_def
        rpc_get_code_def block Let_def parse_u256_to_hex [OF u256] parse_to_hex_u64)
qed

theorem rpc_reads_state_witness:
  "\<exists>v. dispatch demo_ops demo_evm demo_rpc demo_codec demo_server
     \<lparr>req_jsonrpc = None, req_method = ''eth_getBalance'', req_params = JArray [addr_json demo_evm 1], req_id = JNull\<rparr> =
       (response_ok JNull v, demo_server) \<and> parse_u256 demo_rpc v = Inr 50"
proof -
  let ?req = "\<lparr>req_jsonrpc = None, req_method = ''eth_getBalance'', req_params = JArray [addr_json demo_evm 1],
    req_id = JNull\<rparr> :: unit json_rpc_request"
  have "es_get_balance demo_ops (ex_state demo_executor) 1 = 50"
    using from_genesis_stored(1) [OF demo_ops_ok demo_genesis_ok, of 1]
      from_genesis_stored(3) [OF demo_ops_ok demo_genesis_ok]
    by (simp add: demo_executor_def executor_from_genesis_def Let_def es_get_balance_def vsdb_get_balance_def)
      (simp add: demo_genesis_def)
  with rpc_reads_state [OF demo_hex_ok demo_u256_ok, where req = ?req and a = 1 and rest = "[]" and st = demo_server
      and ops = demo_ops and C = demo_codec and t = 0]
  show ?thesis by (intro exI [of _ "to_hex_u256 demo_rpc 50"]) (simp add: demo_server_def Let_def)
qed

section \<open>Logs\<close>

text \<open>The filter, and the logs of all receipts in order, each with its position in its receipt.\<close>

definition matches :: "address option \<times> b256 option \<Rightarrow> evm_log \<Rightarrow> bool" where
  "matches fl log \<longleftrightarrow>
     (case fst fl of None \<Rightarrow> True | Some a \<Rightarrow> log_address log = a) \<and>
     (case snd fl of None \<Rightarrow> True | Some t \<Rightarrow> t \<in> set (log_topics log))"

definition all_logs :: "evm_receipt list list \<Rightarrow> (evm_receipt \<times> nat \<times> evm_log) list" where
  "all_logs blocks = [(r, i, l). rs \<leftarrow> blocks, r \<leftarrow> rs, (i, l) \<leftarrow> enumerate 0 (rc_logs r)]"

lemma log_loop_eq:
  "log_loop F fl r i ls logs =
     logs @ map (\<lambda>(i, l). log_json F r i l) (filter (\<lambda>(i, l). matches fl l) (enumerate i ls))"
proof (induction ls arbitrary: i logs)
  case Nil
  show ?case by (cases fl) simp
next
  case (Cons l ls)
  then show ?case by (cases fl) (auto simp: matches_def split: option.splits)
qed

lemma receipt_loop_eq:
  "receipt_loop F fl rs logs =
     logs @ concat (map (\<lambda>r. map (\<lambda>(i, l). log_json F r i l)
       (filter (\<lambda>(i, l). matches fl l) (enumerate 0 (rc_logs r)))) rs)"
  by (induction rs arbitrary: logs) (simp_all add: log_loop_eq)

lemma get_logs_blocks:
  "height_loop F fl ex [m..<n] logs =
     logs @ concat (map (\<lambda>rs. receipt_loop F fl rs []) (take (n - m) (drop m (ex_receipts ex))))"
proof (induction "n - m" arbitrary: m logs)
  case 0
  then show ?case by simp
next
  case (Suc k)
  then have "[m..<n] = m # [Suc m..<n]" and k: "k = n - Suc m" by (simp_all add: upt_rec)
  moreover have "take (n - m) (drop m (ex_receipts ex)) =
      (if m < length (ex_receipts ex) then ex_receipts ex ! m # take (n - Suc m) (drop (Suc m) (ex_receipts ex))
       else [])"
    using Suc.hyps(2) k by (auto simp: Cons_nth_drop_Suc [symmetric] simp flip: Suc.hyps(2))
  ultimately show ?case
    using Suc.hyps(1) [OF k]
    by (simp add: get_receipts_def receipt_loop_eq [where logs = logs] receipt_loop_eq [where logs = "[]"])
qed

lemma logs_of_receipt:
  "map (\<lambda>(r, i, l). log_json F r i l) (filter (\<lambda>(r, i, l). matches fl l) (map (Pair r) xs)) =
     map (\<lambda>(i, l). log_json F r i l) (filter (\<lambda>(i, l). matches fl l) xs)"
  by (induction xs) auto

lemma all_logs_blocks:
  "map (\<lambda>(r, i, l). log_json F r i l) (filter (\<lambda>(r, i, l). matches fl l) (all_logs bs)) =
     concat (map (\<lambda>rs. receipt_loop F fl rs []) bs)"
  by (simp add: all_logs_def receipt_loop_eq map_concat filter_concat comp_def logs_of_receipt)

text \<open>
  C20: \<^verbatim>\<open>eth_getLogs\<close> returns the logs of all receipts of the blocks 0 to the current height, in the order
  of execution, that match the filter, each once and with its position in its receipt: the triple
  loop with its early exits is this list comprehension. There must be no more blocks with receipts
  than heights in the range, which holds in every state a node reaches.
\<close>

theorem get_logs_filter:
  assumes "length (ex_receipts ex) \<le> Suc (unat (ex_block_height ex))"
  shows "get_logs F R ex params =
     map (\<lambda>(r, i, l). log_json F r i l)
       (filter (\<lambda>(r, i, l). matches (log_filter R params) l) (all_logs (ex_receipts ex)))"
  using assms by (simp add: get_logs_def get_logs_blocks all_logs_blocks del: upt_Suc)

theorem get_logs_filter_witness:
  "get_logs demo_evm demo_rpc demo_executor JNull = []"
proof -
  have "ex_receipts demo_executor = []" by (simp add: demo_executor_def executor_from_genesis_def Let_def)
  then show ?thesis
    using get_logs_filter [of demo_executor demo_evm demo_rpc JNull] by (simp add: all_logs_def)
qed

text \<open>
  Two liberties of the filter. A topic matches at any position of the log, not only the first; and an
  address that does not parse filters nothing out.
\<close>

theorem get_logs_filter_quirks:
  assumes "parse_b256_str R tt = Inr t" and "parse_address_str R at = Inl e"
  shows "let f = log_filter R (JArray [JObject [(''address'', JString at), (''topics'', JArray [JString tt])]])
    in matches f \<lparr>log_address = a, log_topics = [u, t], log_data = d\<rparr>"
  using assms by (simp add: log_filter_def matches_def)

section \<open>Submission\<close>

text \<open>
  C21: a transaction sent to a server with a network sink is handed to it exactly when the pool took it.
  Either the pool did not hold the transaction before and holds it afterwards, the answer is its hash
  and the raw bytes are broadcast; or the answer is a server error, nothing is broadcast and the pool
  holds what it held. Nothing else of the server changes.
\<close>

theorem send_raw_broadcasts:
  assumes inv: "pool_inv (ex_txpool (rpc_executor st))" and sink: "rpc_network_sink st = Some sent"
    and m: "req_method req = ''eth_sendRawTransaction''" and raw: "raw_tx_param R (req_params req) = Inr raw"
  shows "\<exists>resp pool' sent'.
     dispatch ops F R C st req =
       (resp, st\<lparr>rpc_executor := (rpc_executor st)\<lparr>ex_txpool := pool'\<rparr>, rpc_network_sink := Some sent'\<rparr>) \<and>
     pool_inv pool' \<and>
     ((\<exists>v. decode_and_recover C raw = Inr v \<and> resp = response_ok (req_id req) (hash_json F (vt_tx_hash v)) \<and>
        \<not> pool_contains (ex_txpool (rpc_executor st)) (vt_tx_hash v) \<and> pool_contains pool' (vt_tx_hash v) \<and>
        sent' = sent @ [raw]) \<or>
      (\<exists>msg. resp = response_err (req_id req) (- 32000) msg \<and> sent' = sent \<and>
        pool_txs pool' = pool_txs (ex_txpool (rpc_executor st))))"
proof -
  let ?ex = "rpc_executor st"
  obtain r pool' where sub: "submit_tx C (ex_state ?ex) (ex_txpool ?ex) raw = (r, pool')" by fastforce
  have inv': "pool_inv pool'" using submit_tx_inv [OF inv, of C "ex_state ?ex" raw] sub by simp
  have d: "dispatch ops F R C st req = (let st' = st\<lparr>rpc_executor := ?ex\<lparr>ex_txpool := pool'\<rparr>\<rparr> in
      case r of
        Inr hash \<Rightarrow> (response_ok (req_id req) (hash_json F hash), st'\<lparr>rpc_network_sink := Some (sent @ [raw])\<rparr>)
      | Inl e \<Rightarrow> (response_err (req_id req) (- 32000) (show_pool_error e), st'))"
    by (simp add: dispatch_def m rpc_send_raw_transaction_def raw submit_raw_tx_def sub sink hash_json_def Let_def
        split: sum.split)
  have same: "st\<lparr>rpc_executor := ex, rpc_network_sink := Some sent\<rparr> = st\<lparr>rpc_executor := ex\<rparr>" for ex
    using sink by simp
  show ?thesis
  proof (cases r)
    case (Inl e)
    have "pool_txs pool' = pool_txs (ex_txpool ?ex)"
      using sub by (cases rule: submit_tx_cases) (simp_all add: Inl touched_txs)
    then show ?thesis
      by (intro exI [of _ "response_err (req_id req) (- 32000) (show_pool_error e)"] exI [of _ pool'] exI [of _ sent])
        (auto simp: d Inl inv' same)
  next
    case (Inr h)
    from sub obtain v where "decode_and_recover C raw = Inr v" "h = vt_tx_hash v"
      "\<not> pool_contains (ex_txpool ?ex) h" "pool_contains pool' h"
      by (cases rule: submit_tx_cases) (auto simp: Inr pool_contains_def admitted_def hm_insert_def)
    then show ?thesis
      by (intro exI [of _ "response_ok (req_id req) (hash_json F h)"] exI [of _ pool'] exI [of _ "sent @ [raw]"])
        (auto simp: d Inr inv' Let_def)
  qed
qed

theorem send_raw_broadcasts_witness:
  "\<exists>resp pool'. dispatch demo_ops demo_evm demo_rpc demo_codec demo_server
     \<lparr>req_jsonrpc = None, req_method = ''eth_sendRawTransaction'', req_params = JArray [JString (hex_0x demo_evm [1, 2, 9, 50])], req_id = JNull\<rparr> =
       (resp, demo_server\<lparr>rpc_executor := demo_executor\<lparr>ex_txpool := pool'\<rparr>, rpc_network_sink := Some [[1, 2, 9, 50]]\<rparr>)"
proof -
  let ?req = "\<lparr>req_jsonrpc = None, req_method = ''eth_sendRawTransaction'',
    req_params = JArray [JString (hex_0x demo_evm [1, 2, 9, 50])], req_id = JNull\<rparr> :: unit json_rpc_request"
  have inv: "pool_inv (ex_txpool (rpc_executor demo_server))"
    by (simp add: demo_server_def demo_executor_def executor_from_genesis_def Let_def pool_inv_new)
  have raw: "raw_tx_param demo_rpc (req_params ?req) = Inr [1, 2, 9, 50]"
    using demo_hex_ok by (simp add: raw_tx_param_def hex_ok_def)
  have "\<exists>h pool'. submit_tx demo_codec (ex_state demo_executor) (ex_txpool demo_executor) [1, 2, 9, 50] = (Inr h, pool')"
    by (simp add: demo_executor_def executor_from_genesis_def demo_run)
  then have "\<exists>resp st'. dispatch demo_ops demo_evm demo_rpc demo_codec demo_server ?req = (resp, st') \<and>
      rpc_network_sink st' = Some [[1, 2, 9, 50]]"
    by (auto simp: dispatch_def rpc_send_raw_transaction_def raw [simplified] submit_raw_tx_def demo_server_def)
  with send_raw_broadcasts [OF inv _ _ raw, of "[]" demo_ops demo_evm demo_codec] show ?thesis
    by (auto simp: demo_server_def)
qed

end
