(* ===== verification/Chain_Machine.thy ===== *)
theory Chain_Machine
  imports Rpc_Spec
begin

text \<open>
  The life of a node as a state machine: the executor between consensus, which proposes, executes and
  commits blocks, and the RPC server and the gossip, which submit transactions and run calls at any
  moment, also between the execution of a block and its commit.

  Consensus executes the blocks in order: the block after height \<open>h\<close> has height \<open>h + 1\<close>, the first is 1,
  and a block that was executed is committed before the next. \<open>ch_open\<close> is the context of a block that
  is executed and not yet committed. The EVM's hypotheses are those of \<open>Executor_Spec\<close>, and for dry
  runs that they leave all nonces alone.
\<close>

section \<open>The machine\<close>

record ('b, 'a, 'k, 's, 't) chain =
  ch_ex :: "('b, 'a, 'k, 's, 't) evm_executor"
  ch_open :: "block_context option"

inductive chain_step ::
    "('b, 'a, 'k, 's, 't) state_ops \<Rightarrow> ('b, 'a, 'k, 's) evm_fns \<Rightarrow> tx_codec \<Rightarrow>
     ('b, 'a, 'k, 's, 't) chain \<Rightarrow> ('b, 'a, 'k, 's, 't) chain \<Rightarrow> bool"
  for ops :: "('b, 'a, 'k, 's, 't) state_ops" and F :: "('b, 'a, 'k, 's) evm_fns" and C :: tx_codec where
  submit: "chain_step ops F C c (c\<lparr>ch_ex := snd (submit_raw_tx C (ch_ex c) raw)\<rparr>)"
| call: "chain_step ops F C c (c\<lparr>ch_ex := snd (eth_call F (ch_ex c) caller to data v gas)\<rparr>)"
| propose: "iter_order (senders (pool_inner_of (ex_txpool (ch_ex c)))) ks \<Longrightarrow>
     chain_step ops F C c (c\<lparr>ch_ex := snd (create_payload ks (ch_ex c))\<rparr>)"
| execute: "ch_open c = None \<Longrightarrow> ex_block_height (ch_ex c) \<noteq> - 1 \<Longrightarrow>
     ctx_height ctx = ex_block_height (ch_ex c) + 1 \<Longrightarrow>
     chain_step ops F C c
       (c\<lparr>ch_ex := snd (execute_block ops F C ks ord txs ctx (ch_ex c)), ch_open := Some ctx\<rparr>)"
| commit: "ch_open c = Some ctx \<Longrightarrow> iter_order (senders (pool_inner_of (ex_txpool (ch_ex c)))) ks \<Longrightarrow>
     chain_step ops F C c (c\<lparr>ch_ex := app_on_commit ops ks ctx (ch_ex c), ch_open := None\<rparr>)"

inductive_cases chain_stepE: "chain_step ops F C c c'"

text \<open>A node starts from genesis with the pool connected to the state.\<close>

definition chain_start ::
    "('b, 'a, 'k, 's, 't) state_ops \<Rightarrow> evm_genesis \<Rightarrow> ('b, 'a, 'k, 's, 't) chain" where
  "chain_start ops g = \<lparr>ch_ex = setup_nonce_fn ops (executor_from_genesis ops g), ch_open = None\<rparr>"

definition chain_reachable where
  "chain_reachable ops F C g c \<longleftrightarrow> (chain_step ops F C)\<^sup>*\<^sup>* (chain_start ops g) c"

definition dry_nonce_ok :: "('b, 'a, 'k, 's, 't) state_ops \<Rightarrow> ('b, 'a, 'k, 's) evm_fns \<Rightarrow> bool" where
  "dry_nonce_ok ops F \<longleftrightarrow>
     (\<forall>db s blk tx r db' s' a. transact_one F db s blk tx = (r, db', s') \<longrightarrow>
        nonce_in ops db' a = nonce_in ops db a)"

section \<open>The invariant\<close>

abbreviation sender_nonce :: "verified_tx \<Rightarrow> address \<times> u64" where
  "sender_nonce v \<equiv> (vt_sender v, env_nonce (vt_envelope v))"

text \<open>
  \<open>vs\<close> lists the transactions whose receipts the chain holds, in order: no sender and nonce occurs
  twice, and every nonce lies below the sender's committed nonce.
\<close>

definition history ::
    "('b, 'a, 'k, 's, 't) state_ops \<Rightarrow> ('b, 'a, 'k, 's, 't) evm_executor \<Rightarrow> verified_tx list \<Rightarrow> bool" where
  "history ops ex vs \<longleftrightarrow>
     map rc_tx_hash (concat (ex_receipts ex)) = map vt_tx_hash vs \<and>
     map rc_from (concat (ex_receipts ex)) = map vt_sender vs \<and>
     distinct (map sender_nonce vs) \<and>
     (\<forall>v \<in> set vs. env_nonce (vt_envelope v) < es_get_nonce ops (ex_state ex) (vt_sender v))"

definition blocks_numbered :: "evm_receipt list list \<Rightarrow> bool" where
  "blocks_numbered bs \<longleftrightarrow> (\<forall>i < length bs. \<forall>r \<in> set (bs ! i). unat (rc_block_number r) = Suc i)"

definition chain_inv ::
    "('b, 'a, 'k, 's, 't) state_ops \<Rightarrow> ('b, 'a, 'k, 's, 't) chain \<Rightarrow> bool" where
  "chain_inv ops c \<longleftrightarrow>
     pool_inv (ex_txpool (ch_ex c)) \<and>
     nonce_fn (pool_inner_of (ex_txpool (ch_ex c))) = Some (es_get_nonce ops) \<and>
     blocks_numbered (ex_receipts (ch_ex c)) \<and>
     length (ex_receipts (ch_ex c)) =
       (case ch_open c of None \<Rightarrow> unat (ex_block_height (ch_ex c)) | Some ctx \<Rightarrow> unat (ctx_height ctx)) \<and>
     (case ch_open c of None \<Rightarrow> True
        | Some ctx \<Rightarrow> unat (ctx_height ctx) = Suc (unat (ex_block_height (ch_ex c)))) \<and>
     (\<exists>vs. history ops (ch_ex c) vs)"

lemma blocks_numbered_snoc:
  "blocks_numbered (bs @ [rs]) \<longleftrightarrow>
     blocks_numbered bs \<and> (\<forall>r \<in> set rs. unat (rc_block_number r) = Suc (length bs))"
  by (auto simp: blocks_numbered_def nth_append less_Suc_eq)

text \<open>The pool's operations keep the lookup that was installed.\<close>

lemma pool_ops_nonce_fn:
  "nonce_fn (pool_inner_of (snd (submit_tx C st pool raw))) = nonce_fn (pool_inner_of pool)"
  "nonce_fn (pool_inner_of (snd (collect_payload ks pool mb mg))) = nonce_fn (pool_inner_of pool)"
  "nonce_fn (pool_inner_of (on_commit_pool ks f pool)) = nonce_fn (pool_inner_of pool)"
proof -
  obtain r pool' where eq: "submit_tx C st pool raw = (r, pool')" by fastforce
  then have "nonce_fn (pool_inner_of pool') = nonce_fn (pool_inner_of pool)"
    by (cases rule: submit_tx_cases) (simp_all add: touched_def admitted_def)
  then show "nonce_fn (pool_inner_of (snd (submit_tx C st pool raw))) = nonce_fn (pool_inner_of pool)"
    by (simp add: eq)
  have "nonce_fn (fold remove_pending inc I) = nonce_fn I" for inc I
    by (induction inc arbitrary: I) (auto simp: remove_pending_def Let_def split: option.splits)
  then show "nonce_fn (pool_inner_of (snd (collect_payload ks pool mb mg))) = nonce_fn (pool_inner_of pool)"
    by (simp add: collect_payload_def Let_def split_beta)
  show "nonce_fn (pool_inner_of (on_commit_pool ks f pool)) = nonce_fn (pool_inner_of pool)"
    by (simp add: on_commit_pool_def Let_def split_beta)
qed

lemma chain_inv_start: "chain_inv ops (chain_start ops g)"
proof -
  let ?ex = "setup_nonce_fn ops (executor_from_genesis ops g)"
  have "history ops ?ex []"
    by (simp add: history_def setup_nonce_fn_def executor_from_genesis_def Let_def)
  moreover have "pool_inv (ex_txpool ?ex)"
    by (simp add: setup_nonce_fn_def executor_from_genesis_def Let_def pool_inv_set_nonce_fn pool_inv_new)
  moreover have "nonce_fn (pool_inner_of (ex_txpool ?ex)) = Some (es_get_nonce ops)"
    by (simp add: setup_nonce_fn_def set_nonce_fn_def)
  moreover have "ex_receipts ?ex = []" "ex_block_height ?ex = 0"
    by (simp_all add: setup_nonce_fn_def executor_from_genesis_def Let_def)
  ultimately show ?thesis by (auto simp: chain_inv_def chain_start_def blocks_numbered_def)
qed

text \<open>A step that changes neither receipts, height nor nonces, and keeps the pool invariant.\<close>

lemma chain_inv_quiet:
  assumes "chain_inv ops c" "pool_inv (ex_txpool ex')"
    "nonce_fn (pool_inner_of (ex_txpool ex')) = nonce_fn (pool_inner_of (ex_txpool (ch_ex c)))"
    "ex_receipts ex' = ex_receipts (ch_ex c)"
    "ex_block_height ex' = ex_block_height (ch_ex c)"
    "\<And>a. es_get_nonce ops (ex_state ex') a = es_get_nonce ops (ex_state (ch_ex c)) a"
  shows "chain_inv ops (c\<lparr>ch_ex := ex'\<rparr>)"
  using assms by (simp add: chain_inv_def history_def split: option.splits)

lemma eth_call_shape:
  "\<exists>db s blk tx r. transact_one F (es_db (ex_state ex)) (ex_staking ex) blk tx = (r, db, s) \<and>
     snd (eth_call F ex caller to data v gas) =
       ex\<lparr>ex_state := (ex_state ex)\<lparr>es_db := db\<rparr>, ex_staking := s\<rparr>"
  by (simp add: eth_call_def Let_def split_beta) (metis prod.collapse)

lemma eth_call_quiet:
  "ex_txpool (snd (eth_call F ex caller to data v gas)) = ex_txpool ex"
  "ex_receipts (snd (eth_call F ex caller to data v gas)) = ex_receipts ex"
  "ex_block_height (snd (eth_call F ex caller to data v gas)) = ex_block_height ex"
  "dry_nonce_ok ops F \<Longrightarrow>
     es_get_nonce ops (ex_state (snd (eth_call F ex caller to data v gas))) a = es_get_nonce ops (ex_state ex) a"
proof -
  obtain db s blk tx r where t: "transact_one F (es_db (ex_state ex)) (ex_staking ex) blk tx = (r, db, s)"
    "snd (eth_call F ex caller to data v gas) =
       ex\<lparr>ex_state := (ex_state ex)\<lparr>es_db := db\<rparr>, ex_staking := s\<rparr>"
    using eth_call_shape by metis
  show "ex_txpool (snd (eth_call F ex caller to data v gas)) = ex_txpool ex"
    "ex_receipts (snd (eth_call F ex caller to data v gas)) = ex_receipts ex"
    "ex_block_height (snd (eth_call F ex caller to data v gas)) = ex_block_height ex"
    by (simp_all add: t(2))
  assume "dry_nonce_ok ops F"
  then have "nonce_in ops db a = nonce_in ops (es_db (ex_state ex)) a"
    using t(1) unfolding dry_nonce_ok_def by blast
  then show "es_get_nonce ops (ex_state (snd (eth_call F ex caller to data v gas))) a = es_get_nonce ops (ex_state ex) a"
    by (simp add: t(2) es_get_nonce_in)
qed

text \<open>Executing a block extends the history.\<close>

lemma history_execute:
  assumes ok: "state_ok ops" and evm: "evm_nonce_ok ops F" and hist: "history ops ex vs"
    and run: "execute_block ops F C ks ord txs ctx ex = (root, ex')"
  obtains rs new where "ex_receipts ex' = ex_receipts ex @ [rs]" "history ops ex' (vs @ new)"
    "\<forall>r \<in> set rs. rc_block_number r = ctx_height ctx"
proof -
  obtain rs and new :: "verified_tx list" where r: "ex_receipts ex' = ex_receipts ex @ [rs]"
    "map rc_tx_hash rs = map vt_tx_hash new" "map rc_from rs = map vt_sender new"
    "\<forall>v \<in> set new. es_get_nonce ops (ex_state ex) (vt_sender v) \<le> env_nonce (vt_envelope v) \<and>
        env_nonce (vt_envelope v) < es_get_nonce ops (ex_state ex') (vt_sender v)"
    "distinct (map sender_nonce new)" "\<forall>r \<in> set rs. rc_block_number r = ctx_height ctx"
    "\<forall>a. es_get_nonce ops (ex_state ex) a \<le> es_get_nonce ops (ex_state ex') a"
    using execute_block_ran [OF ok evm run] by blast
  have old: "env_nonce (vt_envelope v) < es_get_nonce ops (ex_state ex) (vt_sender v)" if "v \<in> set vs" for v
    using hist that by (simp add: history_def)
  have "sender_nonce v \<noteq> sender_nonce w" if "v \<in> set vs" "w \<in> set new" for v w
    using old [OF that(1)] r(4) that(2) by fastforce
  then have "distinct (map sender_nonce (vs @ new))"
    using hist r(5) by (auto simp: history_def)
  moreover have "env_nonce (vt_envelope v) < es_get_nonce ops (ex_state ex') (vt_sender v)"
    if "v \<in> set (vs @ new)" for v
    using that old [of v] r(4,7) by (auto intro: order_less_le_trans)
  ultimately have "history ops ex' (vs @ new)"
    using hist r(1-3) unfolding history_def by simp
  then show ?thesis using r(1,6) by (intro that)
qed

lemma execute_block_keeps:
  "execute_block ops F C ks ord txs ctx ex = (root, ex') \<Longrightarrow>
     ex_txpool ex' = ex_txpool ex \<and> ex_block_height ex' = ex_block_height ex"
  by (erule execute_block_unfold) simp

lemma chain_inv_execute:
  assumes ok: "state_ok ops" and evm: "evm_nonce_ok ops F" and inv: "chain_inv ops c"
    and opn: "ch_open c = None" "ex_block_height (ch_ex c) \<noteq> - 1" "ctx_height ctx = ex_block_height (ch_ex c) + 1"
  shows "chain_inv ops (c\<lparr>ch_ex := snd (execute_block ops F C ks ord txs ctx (ch_ex c)), ch_open := Some ctx\<rparr>)"
proof -
  obtain root ex' where run: "execute_block ops F C ks ord txs ctx (ch_ex c) = (root, ex')" by fastforce
  obtain vs where "history ops (ch_ex c) vs" using inv by (auto simp: chain_inv_def)
  then obtain rs new where r: "ex_receipts ex' = ex_receipts (ch_ex c) @ [rs]" "history ops ex' (vs @ new)"
    "\<forall>r \<in> set rs. rc_block_number r = ctx_height ctx" using history_execute [OF ok evm _ run] by blast
  have h: "unat (ctx_height ctx) = Suc (unat (ex_block_height (ch_ex c)))" using opn(2,3) by (simp add: unat_inc)
  moreover have len: "length (ex_receipts (ch_ex c)) = unat (ex_block_height (ch_ex c))"
    using inv opn(1) by (simp add: chain_inv_def)
  moreover have "blocks_numbered (ex_receipts ex')"
    using inv r(1,3) h len by (simp add: chain_inv_def blocks_numbered_snoc)
  ultimately show ?thesis
    using inv r(1,2) execute_block_keeps [OF run] run by (auto simp: chain_inv_def)
qed

lemma chain_inv_commit:
  assumes inv: "chain_inv ops c" and opn: "ch_open c = Some ctx"
    and ks: "iter_order (senders (pool_inner_of (ex_txpool (ch_ex c)))) ks"
  shows "chain_inv ops (c\<lparr>ch_ex := app_on_commit ops ks ctx (ch_ex c), ch_open := None\<rparr>)"
  using inv opn on_commit_inv [OF _ ks]
  by (auto simp: chain_inv_def app_on_commit_def history_def pool_ops_nonce_fn)

lemma chain_inv_step:
  assumes ok: "state_ok ops" and evm: "evm_nonce_ok ops F" and dry: "dry_nonce_ok ops F"
    and inv: "chain_inv ops c" and step: "chain_step ops F C c c'"
  shows "chain_inv ops c'"
  using step
proof (rule chain_stepE)
  have pool: "pool_inv (ex_txpool (ch_ex c))" using inv by (simp add: chain_inv_def)
  fix raw caller to data v gas ks ctx ord txs
  show "c' = c\<lparr>ch_ex := snd (submit_raw_tx C (ch_ex c) raw)\<rparr> \<Longrightarrow> chain_inv ops c'"
    using submit_tx_inv [OF pool, of C "ex_state (ch_ex c)" raw]
    by (auto intro!: chain_inv_quiet [OF inv] simp: submit_raw_tx_def split_beta pool_ops_nonce_fn)
  show "c' = c\<lparr>ch_ex := snd (eth_call F (ch_ex c) caller to data v gas)\<rparr> \<Longrightarrow> chain_inv ops c'"
    using pool by (auto intro!: chain_inv_quiet [OF inv] simp: eth_call_quiet(1-3) eth_call_quiet(4) [OF dry])
  show "c' = c\<lparr>ch_ex := snd (create_payload ks (ch_ex c))\<rparr> \<Longrightarrow>
      iter_order (senders (pool_inner_of (ex_txpool (ch_ex c)))) ks \<Longrightarrow> chain_inv ops c'"
    using collect_payload_removes(1) [OF pool]
    by (auto intro!: chain_inv_quiet [OF inv] simp: create_payload_def split_beta pool_ops_nonce_fn)
qed (auto intro: chain_inv_execute [OF ok evm inv] chain_inv_commit [OF inv])

text \<open>The laws of the third-party code, and the contract of a safe machine under them.\<close>

definition chain_env_ok :: "('b, 'a, 'k, 's, 't) state_ops \<Rightarrow> ('b, 'a, 'k, 's) evm_fns \<Rightarrow> bool" where
  "chain_env_ok ops F \<longleftrightarrow> state_ok ops \<and> evm_nonce_ok ops F \<and> dry_nonce_ok ops F"

interpretation life: safe_machine "\<lambda>c. \<exists>g. c = chain_start ops g" "chain_step ops F C"
  "\<lambda>c. chain_env_ok ops F \<longrightarrow> chain_inv ops c" for ops F C
  by unfold_locales (auto simp: chain_env_ok_def chain_inv_start intro: chain_inv_step)

lemma reachable_chain_inv: "chain_env_ok ops F \<Longrightarrow> chain_reachable ops F C g c \<Longrightarrow> chain_inv ops c"
  unfolding chain_reachable_def using life.reachable_inv by blast

section \<open>A concrete run\<close>

lemma demo_chain_env: "chain_env_ok demo_ops demo_evm"
proof -
  have "dry_nonce_ok demo_ops demo_evm" by (simp add: dry_nonce_ok_def demo_evm_def)
  then show ?thesis by (simp add: chain_env_ok_def demo_ops_ok demo_evm_nonce)
qed

text \<open>One block with one transaction: executed, and then committed.\<close>

type_synonym demo_chain_type =
  "(bytes, bytes \<rightharpoonup> stored_account, bytes \<rightharpoonup> bytes, bytes \<rightharpoonup> bytes, (bytes \<times> bytes) list) chain"

definition demo_tx :: verified_tx where
  "demo_tx = projr (decode_and_recover demo_codec [1, 2, 9, 50])"

definition demo_executed :: demo_chain_type where
  "demo_executed =
     (let c = chain_start demo_ops demo_genesis
      in c\<lparr>ch_ex := snd (execute_block demo_ops demo_evm demo_codec [1] (\<lambda>_. []) [[1, 2, 9, 50]] demo_ctx (ch_ex c)),
           ch_open := Some demo_ctx\<rparr>)"

definition demo_committed :: demo_chain_type where
  "demo_committed =
     demo_executed\<lparr>ch_ex := app_on_commit demo_ops [] demo_ctx (ch_ex demo_executed), ch_open := None\<rparr>"

lemma demo_start_simps:
  "ex_block_height (ch_ex (chain_start ops g)) = 0" "ch_open (chain_start ops g) = None"
  "senders (pool_inner_of (ex_txpool (ch_ex (chain_start ops g)))) = Map.empty"
  "ex_receipts (ch_ex (chain_start ops g)) = []"
  "ex_state (ch_ex (chain_start ops g)) = from_genesis ops g"
  by (simp_all add: chain_start_def setup_nonce_fn_def set_nonce_fn_def executor_from_genesis_def Let_def
      new_tx_pool_def)

lemma demo_executed_reachable: "chain_reachable demo_ops demo_evm demo_codec demo_genesis demo_executed"
proof -
  have "chain_step demo_ops demo_evm demo_codec (chain_start demo_ops demo_genesis) demo_executed"
    unfolding demo_executed_def Let_def
    by (rule chain_step.execute) (simp_all add: demo_start_simps demo_ctx_def)
  then show ?thesis unfolding chain_reachable_def by (rule r_into_rtranclp)
qed

lemma demo_committed_reachable: "chain_reachable demo_ops demo_evm demo_codec demo_genesis demo_committed"
proof -
  obtain root ex' where run: "execute_block demo_ops demo_evm demo_codec [1] (\<lambda>_. []) [[1, 2, 9, 50]] demo_ctx
      (ch_ex (chain_start demo_ops demo_genesis)) = (root, ex')" by fastforce
  then have "senders (pool_inner_of (ex_txpool (ch_ex demo_executed))) = Map.empty"
    using execute_block_keeps [OF run] by (simp add: demo_executed_def Let_def demo_start_simps)
  then have "chain_step demo_ops demo_evm demo_codec demo_executed demo_committed"
    unfolding demo_committed_def
    by (intro chain_step.commit) (simp_all add: demo_executed_def Let_def iter_order_def)
  then show ?thesis
    using demo_executed_reachable unfolding chain_reachable_def by (rule rtranclp.rtrancl_into_rtrancl [rotated])
qed

lemma demo_tx_simps:
  "decode_and_recover demo_codec [1, 2, 9, 50] = Inr demo_tx" "vt_sender demo_tx = 1"
  "env_nonce (vt_envelope demo_tx) = 2" "env_gas_limit (vt_envelope demo_tx) = 50"
  by (simp_all add: demo_tx_def decode_and_recover_def demo_codec_def demo_decode_def sample_envelope_def)

lemma demo_history: "history demo_ops (ch_ex demo_executed) [demo_tx]"
proof -
  let ?ex = "ch_ex (chain_start demo_ops demo_genesis)"
  obtain root ex' where run: "execute_block demo_ops demo_evm demo_codec [1] (\<lambda>_. []) [[1, 2, 9, 50]] demo_ctx ?ex =
      (root, ex')" by fastforce
  have ex': "ch_ex demo_executed = ex'" by (simp add: demo_executed_def Let_def run)
  have start: "es_get_nonce demo_ops (block_start demo_ops demo_ctx ?ex) 1 = 2"
    by (simp add: es_get_nonce_in [of demo_ops "block_start demo_ops demo_ctx ?ex"] block_start_nonce demo_start_simps
        demo_genesis_nonce [OF demo_ops_ok])
  have limit: "block_gas_limit (es_config (ex_state ?ex)) = 30000000"
    using demo_limit by (simp add: demo_start_simps demo_executor_def executor_from_genesis_def Let_def)
  show ?thesis using run
  proof (rule execute_block_unfold)
    fix st s cum rs
    assume loop: "exec_loop demo_ops demo_evm (es_config (ex_state ?ex)) demo_ctx 0 (decode_all demo_codec [[1, 2, 9, 50]])
       (block_start demo_ops demo_ctx ?ex, ex_staking ?ex, 0, []) = (st, s, cum, rs)"
      and e: "ex' = ?ex\<lparr>ex_state := snd (state_root demo_ops (flush_cache_to_vsdb demo_ops [1] (\<lambda>_. []) st)),
              ex_staking := s, ex_receipts := ex_receipts ?ex @ [rs]\<rparr>"
    have rs: "\<exists>r. rs = [r] \<and> rc_tx_hash r = vt_tx_hash demo_tx \<and> rc_from r = 1 \<and> nonce_in demo_ops (es_db st) 1 = 3"
      using loop start
      by (auto simp: demo_tx_simps limit demo_evm_def demo_commit_def Let_def es_get_nonce_in nonce_in_def
          hm_insert_def split: if_splits)
    then show ?thesis
      unfolding ex' history_def e by (auto simp: demo_start_simps demo_tx_simps after_block_nonce [OF demo_ops_ok])
  qed
qed

section \<open>Properties of a running node\<close>





text \<open>
  C19: receipts are filed by height. In every reachable state with no block waiting for its commit there
  is one list of receipts per committed block, and the receipts of the block at height \<open>h\<close> are those
  at index \<open>h - 1\<close> and carry the number \<open>h\<close>.
\<close>

theorem receipts_by_height:
  assumes "chain_env_ok ops F" and "chain_reachable ops F C g c" and "ch_open c = None"
  shows "length (ex_receipts (ch_ex c)) = unat (ex_block_height (ch_ex c)) \<and>
     (\<forall>h rs. get_receipts (ch_ex c) h = Some rs \<longleftrightarrow>
        h < unat (ex_block_height (ch_ex c)) \<and> rs = ex_receipts (ch_ex c) ! h \<and>
        (\<forall>r \<in> set rs. unat (rc_block_number r) = h + 1))"
  using reachable_chain_inv [OF assms(1,2)] assms(3)
  by (auto simp: chain_inv_def blocks_numbered_def get_receipts_def)

theorem receipts_by_height_witness:
  "length (ex_receipts (ch_ex demo_committed)) = 1"
proof -
  have "ch_open demo_committed = None" "ex_block_height (ch_ex demo_committed) = 1"
    by (simp_all add: demo_committed_def app_on_commit_def demo_ctx_def)
  with receipts_by_height [OF demo_chain_env demo_committed_reachable] show ?thesis by simp
qed

text \<open>
  \<^verbatim>\<open>eth_getBlockByNumber\<close> uses the height itself as index. In every reachable state between blocks
  it therefore reports a block without transactions, whatever the block executed.
\<close>

theorem block_by_number_empty:
  assumes "chain_env_ok ops F" and "chain_reachable ops F C g c" and "ch_open c = None"
    and "req_method req = ''eth_getBlockByNumber''"
  shows "\<exists>block. dispatch ops F R C (server\<lparr>rpc_executor := ch_ex c\<rparr>) req =
       (response_ok (req_id req) block, server\<lparr>rpc_executor := ch_ex c\<rparr>) \<and>
     json_index block ''number'' = to_hex_u64 (ex_block_height (ch_ex c)) \<and>
     json_index block ''transactions'' = JArray []"
proof -
  have "get_receipts (ch_ex c) (unat (ex_block_height (ch_ex c))) = None"
    using reachable_chain_inv [OF assms(1,2)] assms(3) by (simp add: chain_inv_def get_receipts_def)
  then show ?thesis
    by (simp add: dispatch_def dispatch_read_def assms(4) rpc_get_block_by_number_def Let_def)
      (intro exI conjI, rule refl, simp_all)
qed

theorem block_by_number_empty_witness:
  "\<exists>block. fst (dispatch demo_ops demo_evm demo_rpc demo_codec (demo_server\<lparr>rpc_executor := ch_ex demo_committed\<rparr>)
       \<lparr>req_jsonrpc = None, req_method = ''eth_getBlockByNumber'', req_params = JNull, req_id = JNull\<rparr>) =
       response_ok JNull block \<and> json_index block ''transactions'' = JArray []"
proof -
  have "ch_open demo_committed = None" by (simp add: demo_committed_def)
  from block_by_number_empty [OF demo_chain_env demo_committed_reachable this,
      of "\<lparr>req_jsonrpc = None, req_method = ''eth_getBlockByNumber'', req_params = JNull, req_id = JNull\<rparr>"
        demo_rpc demo_server]
  show ?thesis by auto
qed

section \<open>Clients of the machine\<close>

lemma dispatch_executor:
  "rpc_executor (snd (dispatch ops F R C st req)) = rpc_executor st \<or>
   (\<exists>caller to data v gas. rpc_executor (snd (dispatch ops F R C st req)) =
      snd (eth_call F (rpc_executor st) caller to data v gas)) \<or>
   (\<exists>raw. rpc_executor (snd (dispatch ops F R C st req)) = snd (submit_raw_tx C (rpc_executor st) raw))"
proof -
  have "rpc_executor (snd (rpc_estimate_gas F R st req)) = rpc_executor st \<or>
      (\<exists>caller to data v gas. rpc_executor (snd (rpc_estimate_gas F R st req)) =
         snd (eth_call F (rpc_executor st) caller to data v gas))"
    by (auto simp: rpc_estimate_gas_def split_beta split: sum.split) (metis snd_conv)
  moreover have "rpc_executor (snd (rpc_eth_call F R st req)) = rpc_executor st \<or>
      (\<exists>caller to data v gas. rpc_executor (snd (rpc_eth_call F R st req)) =
         snd (eth_call F (rpc_executor st) caller to data v gas))"
    by (auto simp: rpc_eth_call_def split_beta split: sum.split) (metis snd_conv)
  moreover have "rpc_executor (snd (rpc_send_raw_transaction F R C st req)) = rpc_executor st \<or>
      (\<exists>raw. rpc_executor (snd (rpc_send_raw_transaction F R C st req)) = snd (submit_raw_tx C (rpc_executor st) raw))"
    by (auto simp: rpc_send_raw_transaction_def Let_def split_beta split: sum.split)
  moreover have "snd (dispatch ops F R C st req) \<in> {snd (rpc_estimate_gas F R st req), snd (rpc_eth_call F R st req),
      snd (rpc_send_raw_transaction F R C st req), st}"
    by (simp add: dispatch_def split: option.split)
  ultimately show ?thesis by (elim insertE emptyE; simp only:; blast)
qed

lemma rpc_step:
  "(chain_step ops F C)\<^sup>=\<^sup>= \<lparr>ch_ex = rpc_executor st, ch_open = opn\<rparr>
     \<lparr>ch_ex = rpc_executor (snd (handle_rpc ops F R C req st)), ch_open = opn\<rparr>"
proof -
  let ?c = "\<lparr>ch_ex = rpc_executor st, ch_open = opn\<rparr>"
  note cases = dispatch_executor [of ops F R C st req]
  have "chain_step ops F C ?c (?c\<lparr>ch_ex := snd (eth_call F (ch_ex ?c) caller to data v gas)\<rparr>)"
    "chain_step ops F C ?c (?c\<lparr>ch_ex := snd (submit_raw_tx C (ch_ex ?c) raw)\<rparr>)" for caller to data v gas raw
    by (rule chain_step.call chain_step.submit)+
  then have "chain_step ops F C ?c \<lparr>ch_ex = snd (eth_call F (rpc_executor st) caller to data v gas), ch_open = opn\<rparr>"
    "chain_step ops F C ?c \<lparr>ch_ex = snd (submit_raw_tx C (rpc_executor st) raw), ch_open = opn\<rparr>"
    for caller to data v gas raw
    by simp_all
  with cases show ?thesis unfolding handle_rpc_def by auto
qed

interpretation rpc_client: machine_client "\<lambda>c. \<exists>g. c = chain_start ops g" "chain_step ops F C"
  "\<lambda>c. chain_env_ok ops F \<longrightarrow> chain_inv ops c"
  "\<lambda>st. \<lparr>ch_ex = rpc_executor st, ch_open = opn\<rparr>" "\<lambda>req st. snd (handle_rpc ops F R C req st)" for ops F C opn R
  by unfold_locales (rule rpc_step)

text \<open>
  The RPC server refines the machine: whatever a sequence of requests contains, serving it is a
  sequence of steps of the machine. So everything that holds of every reachable state holds with any
  number of clients.
\<close>

theorem rpc_serves_by_steps:
  "(chain_step ops F C)\<^sup>*\<^sup>* \<lparr>ch_ex = rpc_executor st, ch_open = opn\<rparr>
     \<lparr>ch_ex = rpc_executor (fold (\<lambda>req st. snd (handle_rpc ops F R C req st)) reqs st), ch_open = opn\<rparr>"
  by (rule rpc_client.serves)

end
