(* ===== verification/Genesis_Json_Spec.thy ===== *)
theory Genesis_Json_Spec
  imports Genesis_Json
begin

text \<open>
  Every type reads back what it writes, each an instance of the contract \<open>codec\<close>; and which documents
  are accepted as a genesis, stated without reference to the order of reading.
\<close>

section \<open>Round trips\<close>

interpretation u64_json: codec "write_u64 A" "read_u64 A" "\<lambda>_. alloy_serde_ok A" for A
  by unfold_locales (simp add: write_u64_def read_u64_def alloy_serde_ok_def)

interpretation u256_json: codec "u256_ser A" "read_u256 A" "\<lambda>_. alloy_serde_ok A" for A
  by unfold_locales (simp add: read_u256_def alloy_serde_ok_def)

interpretation address_json: codec "address_ser A" "read_address A" "\<lambda>_. alloy_serde_ok A" for A
  by unfold_locales (simp add: read_address_def alloy_serde_ok_def)

interpretation b256_json: codec "b256_ser A" "read_b256 A" "\<lambda>_. alloy_serde_ok A" for A
  by unfold_locales (simp add: read_b256_def alloy_serde_ok_def)

interpretation bytes_json: codec "bytes_ser A" "read_bytes A" "\<lambda>_. alloy_serde_ok A" for A
  by unfold_locales (simp add: read_bytes_def alloy_serde_ok_def)

interpretation code_json: codec "\<lambda>bs. JString (hex_bytes_serialize bs)" read_code "\<lambda>_. True"
  by unfold_locales (simp add: read_code_def hex_bytes_deserialize_def hex_bytes_serialize_def hex_decode_encode)

interpretation bloom_json: codec "\<lambda>bs. JString (bloom_serialize bs)" read_bloom "\<lambda>bs. length bs = 256"
  by unfold_locales (simp add: read_bloom_def bloom_roundtrip)

interpretation profile_json: codec write_profile read_profile "\<lambda>_. True"
proof
  show "read_profile (write_profile c) = Done c" for c
    by (cases c) (simp_all add: read_profile_def profile_variant_def)
qed

interpretation u8_json: codec "\<lambda>x. write_u64 A (ucast x)" "read_u8 A" "\<lambda>_. alloy_serde_ok A" for A
proof
  fix x :: u8
  assume "alloy_serde_ok A"
  moreover have "(ucast x :: u64) \<le> 255"
  proof -
    have "take_bit 64 (unat x) \<le> 255"
      by (rule le_trans [OF take_bit_nat_less_eq_self]) (use unat_byte_less [of x] in simp)
    then show ?thesis by (simp add: word_le_nat_alt unsigned_ucast_eq)
  qed
  moreover have "ucast (ucast x :: u64) = x" by (rule ucast_up_ucast_id) (simp add: is_up)
  ultimately show "read_u8 A (write_u64 A (ucast x)) = Done x" by (simp add: read_u8_def u64_json.dec_enc)
qed

lemmas codec_roundtrips =
  u64_json.dec_enc u256_json.dec_enc address_json.dec_enc b256_json.dec_enc bytes_json.dec_enc
  code_json.dec_enc bloom_json.dec_enc profile_json.dec_enc u8_json.dec_enc

lemmas field_simps = required_def defaulted_def optional_def

lemma alloy_keys:
  "alloy_serde_ok A \<Longrightarrow> u256_key_de A (u256_key A k) = Inr k"
  "alloy_serde_ok A \<Longrightarrow> address_key_de A (address_key A a) = Inr a"
  "alloy_serde_ok A \<Longrightarrow> address_ser A a \<noteq> JNull"
  by (simp_all add: alloy_serde_ok_def)

lemma storage_roundtrip:
  "alloy_serde_ok A \<Longrightarrow> bt_ok m \<Longrightarrow>
     read_btree (u256_key_de A) (read_u256 A) (write_btree (u256_key A) (u256_ser A) m) = Done m"
  by (rule u256_json.btree_roundtrip) (simp_all add: alloy_keys)

interpretation alloc_json: codec "write_alloc A" "read_alloc A" "\<lambda>g. alloy_serde_ok A \<and> bt_ok (ga_storage g)" for A
  by unfold_locales
    (simp add: write_alloc_def read_alloc_def read_struct_def alloc_fields_def build_alloc_def
      field_simps checked_def codec_roundtrips storage_roundtrip)

lemma alloc_roundtrip:
  assumes "alloy_serde_ok A" "alloc_ok m"
  shows "read_btree (address_key_de A) (read_alloc A) (write_btree (address_key A) (write_alloc A) m) = Done m"
  using assms by (intro alloc_json.btree_roundtrip) (auto simp: alloy_keys alloc_ok_def)

interpretation genesis_json: codec "write_genesis_doc A" "read_genesis A"
  "\<lambda>g. alloy_serde_ok A \<and> alloc_ok (gen_alloc g)" for A
  by unfold_locales
    (simp add: write_genesis_doc_def read_genesis_def read_struct_def genesis_fields_def build_genesis_def
      field_simps checked_def codec_roundtrips alloc_roundtrip)

interpretation config_json: codec "write_config A" "read_config A" "\<lambda>_. alloy_serde_ok A" for A
  by unfold_locales
    (simp add: write_config_def read_config_def read_struct_def config_fields_def build_config_def
      field_simps checked_def codec_roundtrips)

interpretation log_json: codec "write_log A" "read_log A" "\<lambda>_. alloy_serde_ok A" for A
  by unfold_locales
    (simp add: write_log_def read_log_def read_struct_def log_fields_def build_log_def
      field_simps checked_def codec_roundtrips b256_json.elems_roundtrip)

lemma address_option_roundtrip:
  "alloy_serde_ok A \<Longrightarrow> read_option (read_address A) (write_option (address_ser A) x) = Done x"
  by (rule address_json.option_roundtrip) (simp add: alloy_keys)

interpretation receipt_json: codec "write_receipt A" "read_receipt A"
  "\<lambda>r. alloy_serde_ok A \<and> length (rc_logs_bloom r) = 256" for A
  by unfold_locales
    (simp add: write_receipt_def read_receipt_def read_struct_def receipt_fields_def build_receipt_def
      field_simps checked_def codec_roundtrips log_json.elems_roundtrip address_option_roundtrip)

section \<open>Which documents are accepted\<close>

lemma build_genesis_Done:
  "build_genesis A pos p = Done g \<longleftrightarrow>
     field_is (read_u64 A) None (p ''chain_id'') (gen_chain_id g) \<and>
     field_is (read_btree (address_key_de A) (read_alloc A)) None (p ''alloc'') (gen_alloc g) \<and>
     field_is (read_u64 A) (Some default_gas_limit) (p ''gas_limit'') (gen_gas_limit g) \<and>
     field_is (read_u64 A) (Some default_base_fee) (p ''base_fee_per_gas'') (gen_base_fee_per_gas g) \<and>
     field_is (read_address A) (Some 0) (p ''coinbase'') (gen_coinbase g) \<and>
     field_is (read_u64 A) (Some 0) (p ''timestamp'') (gen_timestamp g)"
  unfolding build_genesis_def and_then_eq_Done required_is defaulted_is by (cases g) auto

lemma genesis_table:
  "map_of (genesis_fields A) k \<noteq> None \<longleftrightarrow>
     k \<in> {''chain_id'', ''alloc'', ''gas_limit'', ''base_fee_per_gas'', ''coinbase'', ''timestamp''}"
  by (auto simp: genesis_fields_def)

lemma build_genesis_known:
  "build_genesis A pos (\<lambda>k. if map_of (genesis_fields A) k = None then None else p k) = build_genesis A pos p"
proof -
  have "(map_of (genesis_fields A) ''chain_id'' = None) = False" "(map_of (genesis_fields A) ''alloc'' = None) = False"
    "(map_of (genesis_fields A) ''gas_limit'' = None) = False" "(map_of (genesis_fields A) ''base_fee_per_gas'' = None) = False"
    "(map_of (genesis_fields A) ''coinbase'' = None) = False" "(map_of (genesis_fields A) ''timestamp'' = None) = False"
    by (simp_all add: genesis_fields_def)
  then show ?thesis unfolding build_genesis_def required_def defaulted_def by (simp only: if_False)
qed

lemma genesis_check:
  assumes "build_genesis A pos p = Done g" "p k = Some v" "map_of (genesis_fields A) k = Some check"
  shows "check v = Done ()"
proof -
  have "k \<in> {''chain_id'', ''alloc'', ''gas_limit'', ''base_fee_per_gas'', ''coinbase'', ''timestamp''}"
    by (rule genesis_table [of A, THEN iffD1]) (simp add: assms(3))
  then show ?thesis
    using assms unfolding build_genesis_Done
    by (elim insertE emptyE conjE; clarsimp simp: genesis_fields_def field_is_def)
qed

text \<open>
  C25: The genesis reader, declaratively. An object is accepted exactly when none of the six names occurs
  twice, \<^verbatim>\<open>chain_id\<close> and \<^verbatim>\<open>alloc\<close> are there, and every named member that is there can be read; the other
  four fields then have their value or 30 million, one gwei, the zero address and zero. The order of
  the members and members with other names make no difference.
\<close>

theorem read_genesis_accepts_iff:
  "read_genesis A (JObject ms) = Done g \<longleftrightarrow>
     distinct (filter (\<lambda>k. k \<in> {''chain_id'', ''alloc'', ''gas_limit'', ''base_fee_per_gas'', ''coinbase'', ''timestamp''})
       (map fst ms)) \<and>
     field_is (read_u64 A) None (map_of ms ''chain_id'') (gen_chain_id g) \<and>
     field_is (read_btree (address_key_de A) (read_alloc A)) None (map_of ms ''alloc'') (gen_alloc g) \<and>
     field_is (read_u64 A) (Some 30000000) (map_of ms ''gas_limit'') (gen_gas_limit g) \<and>
     field_is (read_u64 A) (Some 1000000000) (map_of ms ''base_fee_per_gas'') (gen_base_fee_per_gas g) \<and>
     field_is (read_address A) (Some 0) (map_of ms ''coinbase'') (gen_coinbase g) \<and>
     field_is (read_u64 A) (Some 0) (map_of ms ''timestamp'') (gen_timestamp g)"
proof -
  let ?fs = "genesis_fields A"
  have "\<forall>(k, v) \<in> set (known ?fs ms). the (map_of ?fs k) v = Done ()"
    if "build_genesis A False (map_of ms) = Done g" "distinct (map fst (known ?fs ms))"
    using known_lookup [OF that(2)] genesis_check [OF that(1)] by fastforce
  then have "read_genesis A (JObject ms) = Done g \<longleftrightarrow>
      distinct (map fst (known ?fs ms)) \<and> build_genesis A False (map_of ms) = Done g"
    unfolding read_genesis_def read_struct_object_Done build_genesis_known by blast
  then show ?thesis
    unfolding map_fst_known genesis_table build_genesis_Done default_gas_limit_def default_base_fee_def .
qed

text \<open>
  C27: Everything the crate serialises reads back: a genesis document with its accounts, code and storage, a
  chain configuration, and a receipt with its logs and its bloom of 256 bytes.
\<close>

theorem json_roundtrips:
  assumes "alloy_serde_ok A" and "alloc_ok (gen_alloc g)" and "length (rc_logs_bloom r) = 256"
  shows "read_genesis A (write_genesis_doc A g) = Done g \<and> read_config A (write_config A c) = Done c \<and>
     read_receipt A (write_receipt A r) = Done r"
  using assms genesis_json.dec_enc config_json.dec_enc receipt_json.dec_enc by blast

text \<open>Codecs in the text format of Ethereum, over natural numbers as JSON numbers.\<close>

definition hex_text :: "'a::len word \<Rightarrow> string" where
  "hex_text x = ''0x'' @ show_hex x"

definition hex_text_de :: "string \<Rightarrow> string + 'a::len word" where
  "hex_text_de s = map_err show_parse_int_error (from_str_radix16 (strip_0x s))"

definition hex_json_de :: "'n json \<Rightarrow> string + 'a::len word" where
  "hex_json_de v = (case v of JString s \<Rightarrow> hex_text_de s | _ \<Rightarrow> Inl ''expected a hex string'')"

definition demo_alloy :: "nat alloy_serde" where
  "demo_alloy =
     \<lparr>number_as_u64 = (\<lambda>n. if n < 2 ^ 64 then Some (of_nat n) else None), number_of_u64 = unat,
      u256_ser = (\<lambda>x. JString (hex_text x)), u256_de = hex_json_de, u256_key = hex_text, u256_key_de = hex_text_de,
      address_ser = (\<lambda>x. JString (hex_text x)), address_de = hex_json_de,
      address_key = hex_text, address_key_de = hex_text_de,
      b256_ser = (\<lambda>x. JString (hex_text x)), b256_de = hex_json_de,
      bytes_ser = (\<lambda>bs. JString (hex_bytes_serialize bs)),
      bytes_de = (\<lambda>v. case read_code v of Done bs \<Rightarrow> Inr bs | _ \<Rightarrow> Inl ''invalid hex'')\<rparr>"

lemma hex_text_roundtrip: "hex_text_de (hex_text x) = Inr x"
  by (simp add: hex_text_def hex_text_de_def from_str_radix16_show_hex)

lemma demo_alloy_ok: "alloy_serde_ok demo_alloy"
proof -
  have "unat x < 2 ^ 64" for x :: u64 using unsigned_less [where w = x and 'a = nat] by simp
  then show ?thesis
    by (simp add: alloy_serde_ok_def demo_alloy_def hex_json_de_def hex_text_roundtrip code_json.dec_enc)
qed

theorem json_roundtrips_witness:
  "read_genesis demo_alloy (write_genesis_doc demo_alloy demo_genesis) = Done demo_genesis"
  using json_roundtrips [OF demo_alloy_ok demo_genesis_ok,
      of "\<lparr>rc_tx_hash = 0, rc_tx_index = 0, rc_block_hash = 0, rc_block_number = 0, rc_from = 0, rc_to = None,
        rc_cumulative_gas_used = 0, rc_gas_used = 0, rc_contract_address = None, rc_logs = [],
        rc_logs_bloom = replicate 256 0, rc_status = 0, rc_effective_gas_price = 0\<rparr>"]
  by simp

text \<open>The document of the crate's own test: one account with a balance, and all defaults.\<close>

lemma test_document:
  "read_genesis demo_alloy (JObject [(''chain_id'', JNumber 1337),
      (''alloc'', JObject [(''0xaaaaaaaaaaaaaaaaaaaaaaaaaaaaaaaaaaaaaaaa'',
         JObject [(''balance'', JString ''0xde0b6b3a7640000'')])])]) =
   Done \<lparr>gen_chain_id = 1337,
     gen_alloc = [(0xaaaaaaaaaaaaaaaaaaaaaaaaaaaaaaaaaaaaaaaa,
       \<lparr>ga_balance = 1000000000000000000, ga_nonce = 0, ga_code = [], ga_storage = []\<rparr>)],
     gen_gas_limit = 30000000, gen_base_fee_per_gas = 1000000000, gen_coinbase = 0, gen_timestamp = 0\<rparr>"
  by (simp add: read_genesis_def read_struct_def genesis_fields_def build_genesis_def checked_def read_u64_def
      read_alloc_def alloc_fields_def build_alloc_def read_u256_def field_simps demo_alloy_def hex_json_de_def
      hex_text_de_def from_str_radix16_def hex_val_def Let_def default_gas_limit_def default_base_fee_def)

end
