(* ===== verification/Node_Spec.thy ===== *)
theory Node_Spec
  imports Node Chain_Machine Genesis_Json_Spec
begin

text \<open>
  What the node promises around the executor: gossip admits only validated transactions and is a step
  of the chain machine, the sync responder answers in bounded batches, waiting ends, a started node is
  the chain machine in its initial state, with the genesis that the init command wrote, a cluster gets
  one RPC port per validator; and what a restart forgets.
\<close>

section \<open>Starting\<close>

text \<open>
  C38: a restart forgets the EVM state. Whatever height the consensus state was restored to, the
  application that is started has executed nothing: its height is zero, it has no receipts, and its
  balances and nonces are those of the genesis document, so the blocks up to the restored height are
  missing from the state they were committed to.
\<close>

theorem restart_forgets_state:
  assumes ok: "state_ok ops" "alloc_ok (gen_alloc g)" and h: "load_last_committed_height pcs = Some h"
  shows "cs_last_committed_height (restore_consensus epoch_set pcs state) = h \<and>
     (let ex = fst (start_application ops g serve_rpc) in
        ex_block_height ex = 0 \<and> ex_receipts ex = [] \<and>
        es_get_nonce ops (ex_state ex) a = (case bt_get (gen_alloc g) a of Some al \<Rightarrow> ga_nonce al | None \<Rightarrow> 0) \<and>
        es_get_balance ops (ex_state ex) a = (case bt_get (gen_alloc g) a of Some al \<Rightarrow> ga_balance al | None \<Rightarrow> 0))"
proof -
  have "cs_last_committed_height (restore_consensus epoch_set pcs state) = h"
    by (simp add: restore_consensus_def h unwrap_or_def Let_def split: option.split)
  moreover have "es_get_balance ops (from_genesis ops g) a =
      (case bt_get (gen_alloc g) a of Some al \<Rightarrow> ga_balance al | None \<Rightarrow> 0)"
    by (simp add: es_get_balance_def vsdb_get_balance_def from_genesis_stored [OF ok] split: option.splits)
  ultimately show ?thesis
    by (simp add: start_application_def Let_def setup_nonce_fn_def executor_from_genesis_def
        from_genesis_nonce [OF ok])
qed

theorem restart_forgets_state_witness:
  "let ex = fst (start_application demo_ops demo_genesis True);
       pcs = \<lparr>load_current_view = Some 9, load_locked_qc = None, load_highest_qc = None,
               load_last_committed_height = Some 7, load_current_epoch = None\<rparr> :: (unit, unit) persisted;
       state = \<lparr>cs_current_view = 0, cs_locked_qc = None, cs_highest_qc = None, cs_last_committed_height = 0,
               cs_current_epoch = (), cs_validator_set = (), cs_last_app_hash = ()\<rparr>
   in cs_last_committed_height (restore_consensus id pcs state) = 7 \<and> ex_block_height ex = 0"
proof -
  let ?pcs = "\<lparr>load_current_view = Some 9, load_locked_qc = None, load_highest_qc = None,
               load_last_committed_height = Some 7, load_current_epoch = None\<rparr> :: (unit, unit) persisted"
  have "load_last_committed_height ?pcs = Some 7" by simp
  from restart_forgets_state [OF demo_ops_ok demo_genesis_ok this, of id
      "\<lparr>cs_current_view = 0, cs_locked_qc = None, cs_highest_qc = None, cs_last_committed_height = 0,
               cs_current_epoch = (), cs_validator_set = (), cs_last_app_hash = ()\<rparr>" True 1]
  show ?thesis unfolding Let_def by blast
qed

text \<open>The default genesis: both test accounts hold $10^{22}$ and nobody else anything.\<close>

lemma dev_genesis_ok: "alloc_ok (gen_alloc default_dev_genesis)"
proof -
  have "bt_ok (gen_alloc default_dev_genesis)"
    unfolding default_dev_genesis_def evm_genesis.simps by (intro bt_ok_insert bt_ok_Nil)
  moreover have "set (gen_alloc default_dev_genesis) \<subseteq> UNIV \<times> {dev_account}"
    by (simp add: default_dev_genesis_def)
  ultimately show ?thesis by (auto simp: alloc_ok_def dev_account_def)
qed

theorem dev_genesis_balances:
  assumes ok: "state_ok ops"
  shows "es_get_balance ops (from_genesis ops default_dev_genesis) a =
     (if a \<in> {repeat_byte 0xAA, repeat_byte 0xBB} then 10 ^ 22 else 0)"
proof -
  have "bt_get (gen_alloc default_dev_genesis) a =
      (if a \<in> {repeat_byte 0xAA, repeat_byte 0xBB} then Some dev_account else None)"
    unfolding default_dev_genesis_def evm_genesis.simps by (simp only: bt_get_insert) simp
  then show ?thesis
    by (simp add: es_get_balance_def vsdb_get_balance_def from_genesis_stored [OF ok dev_genesis_ok] dev_account_def)
qed

section \<open>Gossip\<close>

lemma validate_accepts:
  "app_validate_tx ops C ex raw = TvAccept p gas \<Longrightarrow>
     \<exists>v. decode_and_recover C raw = Inr v \<and>
       validate_tx v (chain_id (ex_config ex)) (es_get_nonce ops (ex_state ex) (vt_sender v))
         (es_get_balance ops (ex_state ex) (vt_sender v)) (block_gas_limit (ex_config ex))
         (base_fee_per_gas (ex_config ex)) = Inr ()"
  by (auto simp: app_validate_tx_def Let_def ex_config_def split: sum.splits)

lemma gossip_admission:
  "gossip_receive ops C raw ex = ex \<or>
   (\<exists>v. decode_and_recover C raw = Inr v \<and> gossip_receive ops C raw ex = snd (submit_raw_tx C ex raw) \<and>
      validate_tx v (chain_id (ex_config ex)) (es_get_nonce ops (ex_state ex) (vt_sender v))
           (es_get_balance ops (ex_state ex) (vt_sender v)) (block_gas_limit (ex_config ex))
           (base_fee_per_gas (ex_config ex)) = Inr ())"
proof (cases "app_validate_tx ops C ex raw")
  case (TvAccept p gas)
  then have "gossip_receive ops C raw ex = snd (submit_raw_tx C ex raw)"
    by (simp add: gossip_receive_def adapter_add_tx_def submit_raw_tx_def split_beta)
  with TvAccept show ?thesis using validate_accepts by blast
qed (simp add: gossip_receive_def)

interpretation gossip_client: machine_client "\<lambda>c. \<exists>g. c = chain_start ops g" "chain_step ops F C"
  "\<lambda>c. chain_env_ok ops F \<longrightarrow> chain_inv ops c"
  id "\<lambda>raw c. c\<lparr>ch_ex := gossip_receive ops C raw (ch_ex c)\<rparr>" for ops F C
proof
  fix raw c
  show "(chain_step ops F C)\<^sup>=\<^sup>= (id c) (id (c\<lparr>ch_ex := gossip_receive ops C raw (ch_ex c)\<rparr>))"
    using gossip_admission [of ops C raw "ch_ex c"] chain_step.submit [of ops F C c raw] by auto
qed

text \<open>
  Gossip admits only valid transactions. Receiving any number of them from peers is a sequence of
  submissions of the chain machine; and whenever one that is received changes the pool's transactions,
  it decodes, it passes \<^verbatim>\<open>validate_tx\<close> against the committed nonce and balance of its sender, and the pool
  holds it afterwards.
\<close>

theorem gossip_admits_valid:
  "(chain_step ops F C)\<^sup>*\<^sup>* c (fold (\<lambda>raw c. c\<lparr>ch_ex := gossip_receive ops C raw (ch_ex c)\<rparr>) raws c) \<and>
   (let ex' = gossip_receive ops C raw ex in
      pool_txs (ex_txpool ex') = pool_txs (ex_txpool ex) \<or>
      (\<exists>v. decode_and_recover C raw = Inr v \<and> pool_contains (ex_txpool ex') (vt_tx_hash v) \<and>
         validate_tx v (chain_id (ex_config ex)) (es_get_nonce ops (ex_state ex) (vt_sender v))
           (es_get_balance ops (ex_state ex) (vt_sender v)) (block_gas_limit (ex_config ex))
           (base_fee_per_gas (ex_config ex)) = Inr ()))"
proof -
  obtain r pool' where sub: "submit_tx C (ex_state ex) (ex_txpool ex) raw = (r, pool')" by fastforce
  have "pool_txs pool' = pool_txs (ex_txpool ex) \<or> pool_contains pool' (vt_tx_hash v)"
    if "decode_and_recover C raw = Inr v" for v
    using sub that by (cases rule: submit_tx_cases) (auto simp: touched_txs pool_contains_def admitted_def hm_insert_def)
  moreover have "ex_txpool (snd (submit_raw_tx C ex raw)) = pool'" by (simp add: submit_raw_tx_def sub)
  ultimately show ?thesis
    using gossip_admission [of ops C raw ex] gossip_client.serves [of ops F C c raws] by (auto simp: Let_def)
qed

text \<open>
  The RPC path has no such guard. The transaction below asks for less gas than the intrinsic cost,
  so validation rejects it and gossip drops it; submitted over RPC it enters the pool and is answered
  with its hash.
\<close>

theorem rpc_skips_validation:
  "app_validate_tx demo_ops demo_codec demo_executor [1, 2, 9, 50] = TvReject \<and>
   gossip_receive demo_ops demo_codec [1, 2, 9, 50] demo_executor = demo_executor \<and>
   (\<exists>h. fst (submit_raw_tx demo_codec demo_executor [1, 2, 9, 50]) = Inr h)"
proof -
  have rej: "app_validate_tx demo_ops demo_codec demo_executor [1, 2, 9, 50] = TvReject"
  proof -
    have low: "50 < intrinsic_gas (vt_envelope demo_tx)"
      by (simp add: demo_tx_def decode_and_recover_def demo_codec_def demo_decode_def sample_envelope_def
          intrinsic_gas_def saturating_add_def)
    have "validate_tx demo_tx cid n b lim fee \<noteq> Inr ()" for cid n b lim fee
      by (simp add: validate_tx_def demo_tx_simps Let_def low)
    then show ?thesis by (auto simp: app_validate_tx_def demo_tx_simps Let_def split: sum.split)
  qed
  moreover have "\<exists>h. fst (submit_raw_tx demo_codec demo_executor [1, 2, 9, 50]) = Inr h"
    by (simp add: submit_raw_tx_def demo_executor_def executor_from_genesis_def demo_run)
  ultimately show ?thesis by (simp add: gossip_receive_def)
qed

section \<open>Block sync\<close>

text \<open>What the store promises of a range: its blocks lie in it, and no height occurs twice.\<close>

definition range_ok :: "('blk, 'q, 'sn, 'i, 'ch) sync_source \<Rightarrow> bool" where
  "range_ok S \<longleftrightarrow>
     (\<forall>lo hi. distinct (map (block_height_of S) (get_blocks_in_range S lo hi)) \<and>
        (\<forall>b \<in> set (get_blocks_in_range S lo hi). lo \<le> block_height_of S b \<and> block_height_of S b \<le> hi))"

lemma range_ok_length:
  assumes "range_ok S"
  shows "length (get_blocks_in_range S lo hi) \<le> Suc (unat hi) - unat lo"
proof -
  let ?bs = "get_blocks_in_range S lo hi"
  have d: "distinct (map (block_height_of S) ?bs)"
    and within: "\<forall>b \<in> set ?bs. lo \<le> block_height_of S b \<and> block_height_of S b \<le> hi"
    using assms by (simp_all add: range_ok_def)
  have "length ?bs = card (block_height_of S ` set ?bs)"
    using distinct_card [OF d] by simp
  also have "\<dots> = card (unat ` block_height_of S ` set ?bs)"
    by (rule card_image [symmetric]) (simp add: inj_on_def word_unat_eq_iff)
  also have "\<dots> \<le> card {unat lo..unat hi}"
    using within by (intro card_mono) (auto simp: word_le_nat_alt)
  finally show ?thesis by simp
qed

text \<open>
  C33: the sync responder never sends more than a batch. For every requested range, also one whose end
  overflows the clamp, the answer holds at most \<^verbatim>\<open>MAX_SYNC_BATCH\<close> blocks, each at its own height within
  the request and with the certificate the store has for that height.
\<close>

theorem sync_response_bounded:
  assumes ok: "range_ok S" and batch: "0 < max_sync_batch S"
  shows "\<exists>bs. sync_respond S status (GetBlocks lo hi) = Blocks bs \<and>
     length bs \<le> unat (max_sync_batch S) \<and>
     (\<forall>(b, qc) \<in> set bs. lo \<le> block_height_of S b \<and> block_height_of S b \<le> hi \<and>
        qc = get_commit_qc S (block_height_of S b)) \<and>
     distinct (map (block_height_of S \<circ> fst) bs)"
proof -
  let ?k = "max_sync_batch S"
  let ?hi = "clamp_height ?k lo hi" and ?f = "\<lambda>b. (b, get_commit_qc S (block_height_of S b))"
  let ?bs = "get_blocks_in_range S lo ?hi"
  have "unat (lo + ?k - 1) < unat lo + unat ?k"
  proof -
    have "unat (?k - 1) = unat ?k - 1" "0 < unat ?k" using batch by (simp_all add: unat_sub word_le_nat_alt word_less_nat_alt)
    moreover have eq: "lo + ?k - 1 = lo + (?k - 1)" by simp
    ultimately show ?thesis
      unfolding eq using unat_plus_if' [of lo "?k - 1"] by (simp only: split: if_splits) linarith+
  qed
  then have "Suc (unat ?hi) - unat lo \<le> unat ?k"
    by (simp add: clamp_height_def unat_min)
  then have "length ?bs \<le> unat ?k" using range_ok_length [OF ok, of lo ?hi] by linarith
  moreover have "?hi \<le> hi" by (simp add: clamp_height_def)
  then have "\<forall>(b, qc) \<in> set (map ?f ?bs). lo \<le> block_height_of S b \<and> block_height_of S b \<le> hi \<and>
        qc = get_commit_qc S (block_height_of S b)"
    using ok by (auto simp: range_ok_def intro: order_trans)
  moreover have "distinct (map (block_height_of S \<circ> fst) (map ?f ?bs))"
    using ok by (simp add: range_ok_def comp_def)
  ultimately show ?thesis by (simp add: sync_respond_def Let_def)
qed

definition demo_source :: "(u64, unit, unit, unit, unit) sync_source" where
  "demo_source =
     \<lparr>get_blocks_in_range = (\<lambda>lo hi. if lo \<le> 5 \<and> 5 \<le> hi then [5] else []), get_commit_qc = (\<lambda>h. Some ()),
      block_height_of = id, list_snapshots = [], load_snapshot_chunk = (\<lambda>h i. ()), max_sync_batch = 100\<rparr>"

theorem sync_response_bounded_witness:
  "\<exists>bs. sync_respond demo_source \<lparr>st_last_committed_height = 5, st_current_view = 5, st_epoch_number = 0\<rparr>
     (GetBlocks 1 (- 1)) = Blocks bs \<and> length bs \<le> 100"
proof -
  have "range_ok demo_source" "0 < max_sync_batch demo_source" by (auto simp: range_ok_def demo_source_def)
  from sync_response_bounded [OF this] show ?thesis by (fastforce simp: demo_source_def)
qed

text \<open>
  The wait for peers ends: as soon as the readings contain a connected peer or a clock at the
  deadline the loop has returned, and it says which came first.
\<close>

theorem wait_for_peers_ends:
  assumes "\<exists>(n, now) \<in> set readings. 0 < n \<or> deadline \<le> now"
  shows "\<exists>before n now after. readings = before @ (n, now) # after \<and>
     (\<forall>(n, now) \<in> set before. n = 0 \<and> now < deadline) \<and>
     wait_for_peers deadline readings = Some (if 0 < n then Connected else TimedOut)"
  using assms
proof (induction readings)
  case (Cons r readings)
  obtain n now where r: "r = (n, now)" by fastforce
  show ?case
  proof (cases "0 < n \<or> deadline \<le> now")
    case True
    then show ?thesis by (intro exI [of _ "[]"] exI [of _ n] exI [of _ now] exI [of _ readings]) (auto simp: r)
  next
    case False
    with Cons obtain before m t after where "readings = before @ (m, t) # after"
      "\<forall>(n, now) \<in> set before. n = 0 \<and> now < deadline"
      "wait_for_peers deadline readings = Some (if 0 < m then Connected else TimedOut)" by (auto simp: r)
    with False show ?thesis
      by (intro exI [of _ "r # before"] exI [of _ m] exI [of _ t] exI [of _ after]) (auto simp: r)
  qed
qed simp

theorem wait_for_peers_ends_witness:
  "wait_for_peers 15 [(0, 0), (0, 7), (0, 15), (3, 16)] = Some TimedOut"
proof -
  have "\<exists>(n, now) \<in> set [(0, 0), (0, 7), (0, 15), (3::nat, 16::nat)]. 0 < n \<or> 15 \<le> now" by simp
  from wait_for_peers_ends [OF this] show ?thesis by simp
qed

text \<open>The peers are tried in order up to the first that succeeds; each starts where the last one left off.\<close>

theorem sync_loop_spec:
  "case sync_loop f ps w of (synced, w') \<Rightarrow>
     (if synced then \<exists>failed p rest w1 r. ps = failed @ p # rest \<and> w1 = fold (\<lambda>p w. snd (f p w)) failed w \<and>
                     f p w1 = (Inr r, w')
      else w' = fold (\<lambda>p w. snd (f p w)) ps w)"
proof (induction ps arbitrary: w)
  case (Cons p ps)
  obtain r w1 where f: "f p w = (r, w1)" by fastforce
  show ?case
  proof (cases r)
    case (Inl e)
    with Cons [of w1] f show ?thesis by (fastforce intro: exI [of _ "p # _"] split: prod.splits)
  next
    case (Inr u)
    then have "\<exists>failed q rest w2 r. p # ps = failed @ q # rest \<and> w2 = fold (\<lambda>p w. snd (f p w)) failed w \<and>
        f q w2 = (Inr r, w1)"
      using f by (intro exI [of _ "[]"] exI [of _ p] exI [of _ ps] exI [of _ w]) simp
    then show ?thesis using Inr f by simp
  qed
qed simp

text \<open>
  Adopting a synced state never moves the view back and leaves it above the view of the block at the
  new height, unless that view is the largest number: its successor wraps to zero.
\<close>

theorem apply_synced_view:
  "let s' = apply_synced epoch_set block_view epoch height h s in
     cs_last_committed_height s' = height \<and> cs_validator_set s' = epoch_set (cs_current_epoch s') \<and>
     (block_view height \<noteq> Some (- 1) \<longrightarrow> cs_current_view s \<le> cs_current_view s' \<and>
        (\<forall>v. height > 0 \<and> block_view height = Some v \<and> v \<noteq> cs_current_view s \<longrightarrow> v < cs_current_view s')) \<and>
     (height > 0 \<and> block_view height = Some (- 1) \<and> cs_current_view s \<noteq> - 1 \<longrightarrow> cs_current_view s' = 0)"
proof -
  have inc: "v < v + 1" if "v \<noteq> - 1" for v :: u64
    using that word_less_plus_one [of v] eq_neg_iff_add_eq_0 [of v 1] by auto
  have max: "v < - 1 \<longleftrightarrow> v \<noteq> - 1" for v :: u64 by (simp add: word_order.not_eq_extremum)
  show ?thesis
    by (cases "block_view height")
      (auto simp: apply_synced_def Let_def unwrap_or_def inc max not_less intro: order.strict_implies_order
        order.strict_trans inc)
qed

text \<open>The consensus state and the state the sync works on agree.\<close>

definition in_step :: "('e \<Rightarrow> 'v) \<Rightarrow> ('q, 'e, 'v, 'h) consensus_state \<Rightarrow> ('e, 'h, 'x) sync_world \<Rightarrow> bool" where
  "in_step epoch_set state w \<longleftrightarrow>
     cs_current_epoch state = sw_epoch w \<and> cs_last_committed_height state = sw_height w \<and>
     cs_last_app_hash state = sw_app_hash w \<and> cs_validator_set state = epoch_set (cs_current_epoch state)"

lemma in_step_applied:
  "in_step epoch_set (apply_synced epoch_set bv (sw_epoch w) (sw_height w) (sw_app_hash w) state) w"
  by (simp add: in_step_def apply_synced_def Let_def)

text \<open>
  The phase before consensus ends, as soon as a reading shows a connected peer or the deadline, and
  it ends with the consensus state in step with what was synced: height, epoch and hash are those the
  sync left behind and the validator set is that of the epoch. Peers are tried only when one is
  connected; otherwise everything is as it was restored.
\<close>

lemma block_sync_ends:
  assumes ends: "\<exists>(n, now) \<in> set readings. 0 < n \<or> deadline \<le> now"
    and start: "in_step epoch_set state w"
  shows "\<exists>state' w'.
     block_sync epoch_set block_view f peers persistent deadline readings connected state w = Some (state', w') \<and>
     in_step epoch_set state' w' \<and>
     (if peers \<noteq> [] \<and> 0 < connected then w' = snd (sync_loop f peers w) else state' = state \<and> w' = w)"
proof -
  obtain r where r: "wait_for_peers deadline readings = Some r" using wait_for_peers_ends [OF ends] by blast
  obtain synced w' where w': "sync_loop f peers w = (synced, w')" by fastforce
  show ?thesis by (auto simp: block_sync_def r w' start in_step_applied)
qed

section \<open>From the init command to a running node\<close>

text \<open>What the file system promises: a file that was written is there with its contents, and can be read.\<close>

definition files_ok ::
    "(files \<Rightarrow> string \<Rightarrow> string + string) \<Rightarrow> (string \<Rightarrow> string \<Rightarrow> files \<Rightarrow> (string + unit) \<times> files) \<Rightarrow> bool" where
  "files_ok read_file write_file \<longleftrightarrow>
     (\<forall>fs p t. fs p = Some t \<longrightarrow> read_file fs p = Inr t) \<and>
     (\<forall>fs p t fs'. write_file p t fs = (Inr (), fs') \<longrightarrow> fs' = fs(p \<mapsto> t))"

text \<open>\<^verbatim>\<open>init\<close> never overwrites an existing genesis document.\<close>

lemma init_keeps_genesis:
  assumes "init_dir home fs = (Inr (), fs1)" and "fs1 (evm_genesis_path home) = Some text"
  shows "run_init A print init_dir write_file home fs = (Done False, fs1)"
  using assms by (simp add: run_init_def Let_def)


lemma attempt_Done: "attempt ctx r = Done x \<longleftrightarrow> r = Inr x"
  by (simp add: attempt_def split: sum.split)

lemma never_fails_Done: "never_fails r = Done x \<longleftrightarrow> r = Done x"
  by (simp add: never_fails_def split: outcome.split)

text \<open>What has been decided when the start succeeds.\<close>

lemma start_node_Done:
  assumes "start_node ops A read_file parse FW epoch_set pcs with_chain_id home rpc_addr p2p_laddr fs = Done n"
  obtains config pk doc vset genesis vid full rpc where
    "load_config FW = Inr config" "load_priv_key FW = Inr pk" "load_genesis_doc FW = Inr doc"
    "choose_genesis A read_file parse (evm_genesis_path home) fs = Done genesis"
    "identify_validator (gd_validators doc) (validator_ids FW vset) (nc_fullnode config) pk = Done (vid, full)"
    "rpc_part FW config (unwrap_or rpc_addr ''127.0.0.1:8545'')
       (snd (start_application ops genesis (nc_serve_rpc config))) = Done rpc"
    "sn_id n = vid" "sn_is_fullnode n = full" "sn_genesis n = genesis"
    "sn_executor n = fst (start_application ops genesis (nc_serve_rpc config))" "sn_rpc n = rpc"
    "sn_consensus n = restore_consensus epoch_set pcs (with_chain_id vid vset (gd_chain_id doc))"
proof -
  have [simp]: "rpc_part FW (config\<lparr>nc_laddr := l\<rparr>) = rpc_part FW config" for config l
    by (simp add: rpc_part_def fun_eq_iff)
  have [simp]: "(case r of Done g \<Rightarrow> Done g | Fail e \<Rightarrow> Fail (StartupGenesis e) | Panic \<Rightarrow> Panic) = Done g \<longleftrightarrow> r = Done g"
    for r :: "(load_error, evm_genesis) outcome" and g
    by (simp split: outcome.split)
  show thesis
    using assms unfolding start_node_def and_then_eq_Done attempt_Done never_fails_Done Let_def split_beta
    by (auto intro!: that)
qed

text \<open>
  The node that \<^verbatim>\<open>run_node\<close> starts is the chain machine in its initial state, over the genesis it chose: so
  everything proved of the machine holds of a running node. The RPC server, when it is configured, serves
  that executor under the chain id of the genesis and has broadcast nothing; the id is the one of the
  genesis validator with the node's key, and a node that has none takes no part in consensus.
\<close>

theorem start_node_machine:
  assumes "start_node ops A read_file parse FW epoch_set pcs with_chain_id home rpc_addr p2p_laddr fs = Done n"
  shows "\<lparr>ch_ex = sn_executor n, ch_open = None\<rparr> = chain_start ops (sn_genesis n) \<and>
     choose_genesis A read_file parse (evm_genesis_path home) fs = Done (sn_genesis n) \<and>
     (\<exists>config. load_config FW = Inr config \<and>
        (case sn_rpc n of
           None \<Rightarrow> \<not> nc_serve_rpc config
         | Some (addr, st) \<Rightarrow> nc_serve_rpc config \<and>
             parse_socket_addr FW (unwrap_or rpc_addr ''127.0.0.1:8545'') = Inr addr \<and>
             st = \<lparr>rpc_executor = sn_executor n, rpc_chain_id = gen_chain_id (sn_genesis n), rpc_network_sink = Some []\<rparr>)) \<and>
     (\<exists>doc pk. load_genesis_doc FW = Inr doc \<and> load_priv_key FW = Inr pk \<and>
        (case find (\<lambda>v. gv_public_key v = pk) (gd_validators doc) of
           Some v \<Rightarrow> sn_id n = gv_id v
         | None \<Rightarrow> sn_id n = - 1 \<and> sn_is_fullnode n))"
  using assms
proof (rule start_node_Done)
  fix config pk doc vset genesis vid full rpc
  assume f: "load_config FW = Inr config" "load_priv_key FW = Inr pk" "load_genesis_doc FW = Inr doc"
    "choose_genesis A read_file parse (evm_genesis_path home) fs = Done genesis"
    and idv: "identify_validator (gd_validators doc) (validator_ids FW vset) (nc_fullnode config) pk = Done (vid, full)"
    and rpc: "rpc_part FW config (unwrap_or rpc_addr ''127.0.0.1:8545'')
      (snd (start_application ops genesis (nc_serve_rpc config))) = Done rpc"
    and n: "sn_id n = vid" "sn_is_fullnode n = full" "sn_genesis n = genesis"
      "sn_executor n = fst (start_application ops genesis (nc_serve_rpc config))" "sn_rpc n = rpc"
  have ex: "sn_executor n = setup_nonce_fn ops (executor_from_genesis ops genesis)"
    by (simp add: n(4) start_application_def Let_def)
  have "case find (\<lambda>v. gv_public_key v = pk) (gd_validators doc) of
      Some v \<Rightarrow> vid = gv_id v | None \<Rightarrow> vid = - 1 \<and> full"
    using idv by (auto simp: identify_validator_def split: option.splits if_splits)
  moreover have "case rpc of None \<Rightarrow> \<not> nc_serve_rpc config
      | Some (addr, st) \<Rightarrow> nc_serve_rpc config \<and>
          parse_socket_addr FW (unwrap_or rpc_addr ''127.0.0.1:8545'') = Inr addr \<and>
          st = \<lparr>rpc_executor = sn_executor n, rpc_chain_id = gen_chain_id genesis, rpc_network_sink = Some []\<rparr>"
    using rpc unfolding ex
    by (auto simp: rpc_part_def start_application_def Let_def and_then_eq_Done attempt_Done split: if_splits)
  ultimately show ?thesis
    using f ex unfolding n(1-3,5) chain_start_def by auto
qed

text \<open>
  A file system in memory, a printer and parser for the one document that is written, and a framework
  whose every call succeeds.
\<close>

definition demo_read :: "files \<Rightarrow> string \<Rightarrow> string + string" where
  "demo_read fs p = ok_or (fs p) ''not found''"

definition demo_write :: "string \<Rightarrow> string \<Rightarrow> files \<Rightarrow> (string + unit) \<times> files" where
  "demo_write p t fs = (Inr (), fs(p \<mapsto> t))"

definition demo_print :: "nat json \<Rightarrow> string + string" where
  "demo_print v = (if v = write_genesis_doc demo_alloy default_dev_genesis then Inr ''{}'' else Inl [])"

definition demo_parse :: "string \<Rightarrow> string + nat json" where
  "demo_parse t = (if t = ''{}'' then Inr (write_genesis_doc demo_alloy default_dev_genesis) else Inl [])"


definition demo_framework :: "(unit, u64 list, unit, unit, unit, string) framework" where
  "demo_framework =
     \<lparr>load_config = Inr \<lparr>nc_laddr = ''/ip4/0.0.0.0/tcp/20000'', nc_persistent_peers = [], nc_fullnode = False,
                          nc_serve_rpc = True\<rparr>,
      load_priv_key = Inr ''ab'', to_signing_key = Inr (), load_node_key = Inr (), to_keypair = Inr (),
      load_genesis_doc = Inr \<lparr>gd_validators = [\<lparr>gv_id = 3, gv_public_key = ''ab''\<rparr>], gd_chain_id = ''dev''\<rparr>,
      to_validator_set = (\<lambda>doc. Inr (map gv_id (gd_validators doc))), validator_ids = (\<lambda>v. v),
      create_data_dir = Inr (), configure_vsdb = Inr (), no_peers = (),
      parse_persistent_peers = (\<lambda>_ _. Inr ()), parse_multiaddr = (\<lambda>_. Inr ()),
      create_network = (\<lambda>_ _ _. Inr ()), parse_socket_addr = Inr\<rparr>"

definition demo_consensus :: "u64 \<Rightarrow> u64 list \<Rightarrow> string \<Rightarrow> (unit, u64 list, u64 list, unit) consensus_state" where
  "demo_consensus vid vset chain =
     \<lparr>cs_current_view = 0, cs_locked_qc = None, cs_highest_qc = None, cs_last_committed_height = 0,
      cs_current_epoch = vset, cs_validator_set = vset, cs_last_app_hash = ()\<rparr>"

definition demo_pcs :: "(unit, u64 list) persisted" where
  "demo_pcs =
     \<lparr>load_current_view = None, load_locked_qc = None, load_highest_qc = None, load_last_committed_height = None,
      load_current_epoch = None\<rparr>"

lemma demo_start:
  "\<exists>n. start_node demo_ops demo_alloy demo_read demo_parse demo_framework (\<lambda>e. e) demo_pcs demo_consensus ''/h''
       None None Map.empty = Done n \<and> sn_id n = 3 \<and> sn_genesis n = default_dev_genesis \<and>
     (\<exists>server. sn_rpc n = Some (''127.0.0.1:8545'', server) \<and>
        rpc_executor server = ch_ex (chain_start demo_ops default_dev_genesis))"
  by (simp add: start_node_def demo_framework_def attempt_def choose_genesis_def identify_validator_def
      never_fails_def start_application_def Let_def rpc_part_def unwrap_or_def chain_start_def)

theorem start_node_machine_witness:
  "\<exists>n. start_node demo_ops demo_alloy demo_read demo_parse demo_framework (\<lambda>e. e) demo_pcs demo_consensus ''/h''
       None None Map.empty = Done n \<and>
     sn_id n = 3 \<and> \<lparr>ch_ex = sn_executor n, ch_open = None\<rparr> = chain_start demo_ops default_dev_genesis"
proof -
  obtain n where n: "start_node demo_ops demo_alloy demo_read demo_parse demo_framework (\<lambda>e. e) demo_pcs demo_consensus ''/h''
      None None Map.empty = Done n" "sn_id n = 3" "sn_genesis n = default_dev_genesis" using demo_start by blast
  then show ?thesis using start_node_machine [OF n(1)] by auto
qed

section \<open>Clusters\<close>

text \<open>What a call of \<^verbatim>\<open>find_free_ports\<close> promises: as many ports as asked for, all different.\<close>

definition ports_ok :: "(nat \<Rightarrow> u16 list) \<Rightarrow> nat \<Rightarrow> bool" where
  "ports_ok f n \<longleftrightarrow> length (f n) = n \<and> distinct (f n)"

lemma split_ports_Done:
  assumes ok: "ports_ok f (unat n * 3)" and n: "0 < unat n" "unat n * 3 < 2 ^ 32"
  shows "\<exists>p r eth. split_ports f n = Done (p, r, eth) \<and> length eth = unat n \<and> distinct (p # r # eth)"
proof -
  have u: "unat (n * 3) = unat n * 3" "unat (n * 2) = unat n * 2"
    using n(2) by (simp_all add: unat_word_ariths)
  let ?k = "unat n" and ?ps = "f (unat n * 3)"
  have len: "length ?ps = ?k * 3" "distinct ?ps" using ok by (simp_all add: ports_ok_def)
  have "?ps ! 0 \<noteq> ?ps ! ?k" using len n(1) by (simp add: nth_eq_iff_index_eq)
  moreover have "?ps ! i \<notin> set (drop (?k * 2) ?ps)" if "i < ?k * 2" for i
  proof -
    have "?ps ! i \<in> set (take (?k * 2) ?ps)" using that len(1) by (auto simp: in_set_conv_nth)
    then show ?thesis using len(2) set_take_disj_set_drop_if_distinct [of ?ps "?k * 2" "?k * 2"] by auto
  qed
  ultimately have "distinct (?ps ! 0 # ?ps ! ?k # drop (?k * 2) ?ps)"
    using n(1) len by simp
  moreover have "?ps \<noteq> []" using len n(1) by auto
  ultimately show ?thesis using len n(1) by (simp add: split_ports_def u Let_def)
qed

lemma start_loop_all:
  "i + length vs \<le> length ports \<Longrightarrow>
     start_loop hp bin ports i vs =
       (map (\<lambda>(v, p). [bin, ''--home'', cv_home_dir v, ''node'', ''--rpc-addr'', hp p]) (zip vs (drop i ports)), True)"
proof (induction vs arbitrary: i)
  case (Cons v vs)
  then have "drop i ports = ports ! i # drop (Suc i) ports" by (simp add: Cons_nth_drop_Suc)
  with Cons show ?case by simp
qed simp

lemma write_genesis_all:
  "write_genesis wr json is = (Inr u, ws) \<Longrightarrow>
     ws = map (\<lambda>i. ''v'' @ show_base 10 i @ ''/config/evm-genesis.json'') is"
  by (induction "is" arbitrary: ws) (auto simp: Let_def split: sum.splits prod.splits)

text \<open>
  A cluster gets one Ethereum RPC port per validator. When initialisation succeeds, the genesis
  document has been written for each of the validators, the RPC ports are as many as the validators
  and all different; and starting a process for each validator then reaches every one of them, the
  \<open>i\<close>-th with the \<open>i\<close>-th port. The number of validators must be positive and small enough for
  \<^verbatim>\<open>validator_count * 3\<close> not to wrap.
\<close>

theorem cluster_rpc_ports:
  assumes ok: "ports_ok f (unat n * 3)" and n: "0 < unat n" "unat n * 3 < 2 ^ 32"
    and init: "init_evm_cluster f ic json wr ld n = (Done (state, eth), written)"
    and vs: "length vs = unat n"
  shows "length eth = unat n \<and> distinct eth \<and>
     written = map (\<lambda>i. ''v'' @ show_base 10 i @ ''/config/evm-genesis.json'') [0..<unat n] \<and>
     start_evm_nodes hp bin vs eth =
       (map (\<lambda>(v, p). [bin, ''--home'', cv_home_dir v, ''node'', ''--rpc-addr'', hp p]) (zip vs eth), True)"
proof -
  obtain p r eth' where split: "split_ports f n = Done (p, r, eth')" "length eth' = unat n" "distinct (p # r # eth')"
    using split_ports_Done [OF ok n] by blast
  from init split(1) have "eth = eth'" and "\<exists>u json. write_genesis wr json [0..<unat n] = (Inr u, written)"
    by (auto simp: init_evm_cluster_def split: sum.splits prod.splits)
  then show ?thesis
    using split vs start_loop_all [of 0 vs eth hp bin] write_genesis_all
    by (auto simp: start_evm_nodes_def)
qed

theorem cluster_rpc_ports_witness:
  "\<exists>eth. fst (init_evm_cluster (\<lambda>n. map of_nat [0..<n]) (\<lambda>_ _ _. Inr ()) (Inr ''{}'') (\<lambda>_ _. Inr ()) (Inr ()) 2) =
     Done ((), eth) \<and> length eth = 2"
proof -
  let ?f = "\<lambda>n. map of_nat [0..<n] :: u16 list"
  have ok: "ports_ok ?f (unat (2 :: u32) * 3)" by (simp add: ports_ok_def upt_rec)
  obtain eth written where init: "init_evm_cluster ?f (\<lambda>_ _ _. Inr ()) (Inr ''{}'') (\<lambda>_ _. Inr ()) (Inr ()) 2 =
      (Done ((), eth), written)"
    by (simp add: init_evm_cluster_def split_ports_def Let_def upt_rec)
  from cluster_rpc_ports [OF ok _ _ init, of "replicate 2 \<lparr>cv_id = 0, cv_home_dir = []\<rparr>"] init
  show ?thesis by simp
qed

text \<open>The two edges: no validators at all, and a number whose triple wraps to a small one, panic.\<close>

theorem split_ports_panics:
  assumes "ports_ok f 0" "ports_ok f 2"
  shows "split_ports f 0 = Panic \<and> split_ports f 1431655766 = Panic"
  using assms by (simp add: split_ports_def ports_ok_def Let_def)

end
