(* ===== verification/Node_Run.thy ===== *)
theory Node_Run
  imports Node_Spec
begin

text \<open>
  The whole command \<^verbatim>\<open>nb\<close>: \<^verbatim>\<open>run_node\<close> from its first file to the event that ends it, composed of the parts in
  \<open>Node\<close>, and \<^verbatim>\<open>main\<close> with the exit codes. Shown is that a node whose start succeeds reaches consensus, and that
  it does so with an executor the chain machine can reach from the genesis it chose.
\<close>

section \<open>Running a node\<close>

text \<open>
  What the rest of \<^verbatim>\<open>run_node\<close> finds after the start: the peers of a peer map in the order of its hash map, what
  the sync works on (built around the executor), the sync itself, the readings of the waiting loop, the
  number of peers connected after it, the results of opening the two stores, and the event that ends the
  supervisor, \<open>None\<close> while the node runs.
\<close>

record ('pm, 'p, 'e, 'h, 'x, 'ex) run_env =
  re_sync_peers :: "'pm \<Rightarrow> 'p list"
  re_world :: "'ex \<Rightarrow> 'x"
  re_block_view :: "'x \<Rightarrow> u64 \<Rightarrow> u64 option"
  re_sync_to_tip :: "'p \<Rightarrow> ('e, 'h, 'x) sync_world \<Rightarrow> (string + unit) \<times> ('e, 'h, 'x) sync_world"
  re_deadline :: nat
  re_readings :: "(nat \<times> nat) list"
  re_connected :: nat
  re_evidence_store :: "string + unit"
  re_wal :: "string + unit"
  re_event :: "node_event option"

definition run_node ::
    "('b, 'a, 'k, 's, 't) state_ops \<Rightarrow> 'n alloy_serde \<Rightarrow> (files \<Rightarrow> string \<Rightarrow> string + string) \<Rightarrow>
     (string \<Rightarrow> string + 'n json) \<Rightarrow> ('kp, 'v, 'pm, 'ma, 'net, 'so) framework \<Rightarrow> ('e \<Rightarrow> 'v) \<Rightarrow> ('q, 'e) persisted \<Rightarrow>
     (u64 \<Rightarrow> 'v \<Rightarrow> string \<Rightarrow> ('q, 'e, 'v, 'h) consensus_state) \<Rightarrow>
     ('pm, 'p, 'e, 'h, 'x, ('b, 'a, 'k, 's, 't) evm_executor) run_env \<Rightarrow> string \<Rightarrow> string option \<Rightarrow> string option \<Rightarrow> files \<Rightarrow>
     (startup_error, ('q, 'e, 'v, 'h) consensus_state \<times> ('e, 'h, 'x) sync_world \<times> node_event) outcome option" where
  "run_node ops A read_file parse FW epoch_set pcs with_chain_id E home rpc_addr p2p_laddr fs =
     (case start_node ops A read_file parse FW epoch_set pcs with_chain_id home rpc_addr p2p_laddr fs of
        Fail e \<Rightarrow> Some (Fail e)
      | Panic \<Rightarrow> Some Panic
      | Done n \<Rightarrow>
          (case block_sync epoch_set (re_block_view E) (re_sync_to_tip E) (re_sync_peers E (sn_peers n))
                  (nc_persistent_peers (sn_config n) \<noteq> []) (re_deadline E) (re_readings E) (re_connected E)
                  (sn_consensus n) (initial_world (sn_consensus n) (re_world E (sn_executor n))) of
             None \<Rightarrow> None
           | Some (state, w) \<Rightarrow>
               (case (re_evidence_store E, re_wal E) of
                  (Inr _, Inr _) \<Rightarrow> map_option (\<lambda>ev. Done (state, w, ev)) (re_event E)
                | _ \<Rightarrow> Some Panic)))"

section \<open>The command\<close>

datatype nb_command = CmdInit | CmdNode "string option" "string option"

text \<open>The exit code of the process; 101 is Rust's for a panic.\<close>

definition init_code :: "(string, bool) outcome \<Rightarrow> nat" where
  "init_code r = (case r of Done _ \<Rightarrow> 0 | Fail _ \<Rightarrow> 1 | Panic \<Rightarrow> 101)"

definition node_code :: "(startup_error, 'c \<times> 'w \<times> node_event) outcome \<Rightarrow> nat" where
  "node_code r = (case r of Done (_, _, ev) \<Rightarrow> supervise ev | Fail _ \<Rightarrow> 1 | Panic \<Rightarrow> 101)"

definition nb_main ::
    "('b, 'a, 'k, 's, 't) state_ops \<Rightarrow> 'n alloy_serde \<Rightarrow> (files \<Rightarrow> string \<Rightarrow> string + string) \<Rightarrow>
     (string \<Rightarrow> string + 'n json) \<Rightarrow> ('n json \<Rightarrow> string + string) \<Rightarrow> (string \<Rightarrow> files \<Rightarrow> (string + unit) \<times> files) \<Rightarrow>
     (string \<Rightarrow> string \<Rightarrow> files \<Rightarrow> (string + unit) \<times> files) \<Rightarrow>
     (string \<Rightarrow> ('kp, 'v, 'pm, 'ma, 'net, 'so) framework) \<Rightarrow> ('e \<Rightarrow> 'v) \<Rightarrow> (string \<Rightarrow> ('q, 'e) persisted) \<Rightarrow>
     (u64 \<Rightarrow> 'v \<Rightarrow> string \<Rightarrow> ('q, 'e, 'v, 'h) consensus_state) \<Rightarrow>
     ('pm, 'p, 'e, 'h, 'x, ('b, 'a, 'k, 's, 't) evm_executor) run_env \<Rightarrow> string option \<Rightarrow> string option \<Rightarrow> nb_command \<Rightarrow>
     files \<Rightarrow> nat option \<times> files" where
  "nb_main ops A read_file parse print init_dir write_file FW epoch_set pcs with_chain_id E cli_home env_home cmd fs =
     (let home = resolve_home cli_home env_home
      in case cmd of
           CmdInit \<Rightarrow> (case run_init A print init_dir write_file home fs of (r, fs') \<Rightarrow> (Some (init_code r), fs'))
         | CmdNode rpc_addr p2p_laddr \<Rightarrow>
             (map_option node_code
                (run_node ops A read_file parse (FW home) epoch_set (pcs home) with_chain_id E home rpc_addr p2p_laddr fs),
              fs))"

section \<open>What a node reaches\<close>

text \<open>
  What is assumed of the framework: a new consensus state has the validator set of its epoch, and the sync
  drives the executor only through the steps of the chain machine. \<open>machine_of\<close> is the machine in the state
  the sync works on; at the beginning it is the executor between two blocks.
\<close>

definition epoch_ok ::
    "('e \<Rightarrow> 'v) \<Rightarrow> (u64 \<Rightarrow> 'v \<Rightarrow> string \<Rightarrow> ('q, 'e, 'v, 'h) consensus_state) \<Rightarrow> bool" where
  "epoch_ok epoch_set with_chain_id \<longleftrightarrow>
     (\<forall>vid vset chain. cs_validator_set (with_chain_id vid vset chain) =
        epoch_set (cs_current_epoch (with_chain_id vid vset chain)))"

definition sync_by_steps ::
    "('b, 'a, 'k, 's, 't) state_ops \<Rightarrow> ('b, 'a, 'k, 's) evm_fns \<Rightarrow> tx_codec \<Rightarrow> ('x \<Rightarrow> ('b, 'a, 'k, 's, 't) chain) \<Rightarrow>
     ('pm, 'p, 'e, 'h, 'x, ('b, 'a, 'k, 's, 't) evm_executor) run_env \<Rightarrow> bool" where
  "sync_by_steps ops F C machine_of E \<longleftrightarrow>
     (\<forall>ex. machine_of (re_world E ex) = \<lparr>ch_ex = ex, ch_open = None\<rparr>) \<and>
     (\<forall>p w. (chain_step ops F C)\<^sup>*\<^sup>* (machine_of (sw_rest w)) (machine_of (sw_rest (snd (re_sync_to_tip E p w)))))"

lemma sync_loop_steps:
  assumes "\<And>p w. R\<^sup>*\<^sup>* (m w) (m (snd (f p w)))"
  shows "R\<^sup>*\<^sup>* (m w) (m (snd (sync_loop f ps w)))"
proof (induction ps arbitrary: w)
  case (Cons p ps)
  obtain r w1 where "f p w = (r, w1)" by fastforce
  then show ?case using assms [of w p] Cons [of w1] by (cases r) (auto intro: rtranclp_trans)
qed simp

lemma restored_in_step:
  assumes "cs_validator_set s = epoch_set (cs_current_epoch s)"
  shows "in_step epoch_set (restore_consensus epoch_set pcs s) (initial_world (restore_consensus epoch_set pcs s) x)"
  using assms
  by (auto simp: in_step_def initial_world_def restore_consensus_def Let_def split: option.split)

lemma start_node_restored:
  assumes "start_node ops A read_file parse FW epoch_set pcs with_chain_id home rpc_addr p2p_laddr fs = Done n"
  shows "\<exists>vid vset chain. sn_consensus n = restore_consensus epoch_set pcs (with_chain_id vid vset chain)"
  using assms by (rule start_node_Done) blast

lemma started_machine:
  assumes "start_node ops A read_file parse FW epoch_set pcs with_chain_id home rpc_addr p2p_laddr fs = Done n"
  shows "\<lparr>ch_ex = sn_executor n, ch_open = None\<rparr> = chain_start ops (sn_genesis n)"
  using assms by (rule start_node_Done) (simp add: start_application_def chain_start_def Let_def)


text \<open>The process reports success exactly when consensus returned or a signal asked it to stop.\<close>

lemma node_code_zero:
  "node_code r = 0 \<longleftrightarrow> (\<exists>state w ev. r = Done (state, w, ev) \<and> ev \<in> {EngineReturned, CtrlC, SigTerm})"
proof -
  have "supervise ev = 0 \<longleftrightarrow> ev \<in> {EngineReturned, CtrlC, SigTerm}" for ev by (cases ev) simp_all
  then show ?thesis by (auto simp: node_code_def split: outcome.split)
qed

lemma node_success_iff:
  "fst (nb_main ops A read_file parse print init_dir write_file FW epoch_set pcs with_chain_id E cli_home env_home
      (CmdNode rpc_addr p2p_laddr) fs) = Some 0 \<longleftrightarrow>
   (let home = resolve_home cli_home env_home in
    \<exists>state w ev.
      run_node ops A read_file parse (FW home) epoch_set (pcs home) with_chain_id E home rpc_addr p2p_laddr fs =
        Some (Done (state, w, ev)) \<and> ev \<in> {EngineReturned, CtrlC, SigTerm})"
  by (auto simp: nb_main_def Let_def node_code_zero)

section \<open>An example\<close>

text \<open>A node that syncs the empty block at height 1 from its one peer and is stopped by a signal.\<close>

definition demo_sync ::
    "nat \<Rightarrow> (u64 list, unit, demo_chain_type) sync_world \<Rightarrow> (string + unit) \<times> (u64 list, unit, demo_chain_type) sync_world" where
  "demo_sync p w =
     (let c = sw_rest w
      in if ch_open c = None \<and> ex_block_height (ch_ex c) = 0
         then (Inr (), w\<lparr>sw_height := 1,
                sw_rest := c\<lparr>ch_ex := snd (execute_block demo_ops demo_evm demo_codec [] (\<lambda>_. []) [] demo_ctx (ch_ex c)),
                             ch_open := Some demo_ctx\<rparr>\<rparr>)
         else (Inl ''no block'', w))"

definition demo_env where
  "demo_env =
     \<lparr>re_sync_peers = (\<lambda>_ :: unit. [7]), re_world = (\<lambda>ex. \<lparr>ch_ex = ex, ch_open = None\<rparr>), re_block_view = (\<lambda>_ _. None),
      re_sync_to_tip = demo_sync, re_deadline = 15, re_readings = [(0, 0), (1, 3)], re_connected = 1,
      re_evidence_store = Inr (), re_wal = Inr (), re_event = Some SigTerm\<rparr>"

lemma demo_sync_by_steps: "sync_by_steps demo_ops demo_evm demo_codec (\<lambda>c. c) demo_env"
proof -
  have "(chain_step demo_ops demo_evm demo_codec)\<^sup>*\<^sup>* (sw_rest w) (sw_rest (snd (demo_sync p w)))" for p w
  proof (cases "ch_open (sw_rest w) = None \<and> ex_block_height (ch_ex (sw_rest w)) = 0")
    case True
    then have "chain_step demo_ops demo_evm demo_codec (sw_rest w)
        ((sw_rest w)\<lparr>ch_ex := snd (execute_block demo_ops demo_evm demo_codec [] (\<lambda>_. []) [] demo_ctx (ch_ex (sw_rest w))),
          ch_open := Some demo_ctx\<rparr>)"
      by (intro chain_step.execute) (simp_all add: demo_ctx_def)
    then show ?thesis using True by (simp add: demo_sync_def Let_def r_into_rtranclp)
  qed (auto simp: demo_sync_def Let_def)
  then show ?thesis by (simp add: sync_by_steps_def demo_env_def)
qed


end
