(* ===== verification/Rpc_Json.thy ===== *)
theory Rpc_Json
  imports Rpc_Spec Serde
begin

text \<open>
  The server as it is seen from the wire: the body of a request is read as a \<^verbatim>\<open>JsonRpcRequest\<close> (derived
  deserialisation, behind axum's \<^verbatim>\<open>Json\<close> extractor), served, and the response is written. A body that
  is not a request never reaches \<^verbatim>\<open>dispatch\<close>.

  The fields \<^verbatim>\<open>params\<close> and \<^verbatim>\<open>id\<close> are \<^verbatim>\<open>serde_json::Value\<close>s, whose objects are maps: of two members with one
  name the last one counts.
\<close>

section \<open>Reading requests\<close>

fun last_wins :: "(string \<times> 'v) list \<Rightarrow> (string \<times> 'v) list" where
  "last_wins [] = []"
| "last_wins ((k, v) # ms) = (if k \<in> fst ` set ms then last_wins ms else (k, v) # last_wins ms)"

fun to_value :: "'n json \<Rightarrow> 'n json" where
  "to_value (JArray vs) = JArray (map to_value vs)"
| "to_value (JObject ms) = JObject (last_wins (map (\<lambda>(k, v). (k, to_value v)) ms))"
| "to_value v = v"

definition read_value :: "('n, 'n json) reader" where
  "read_value v = Done (to_value v)"

definition request_fields :: "'n field_table" where
  "request_fields =
     [(''jsonrpc'', checked (read_option read_string)), (''method'', checked read_string),
      (''params'', checked read_value), (''id'', checked read_value)]"

definition build_request ::
    "bool \<Rightarrow> (string \<rightharpoonup> 'n json) \<Rightarrow> (serde_error, 'n json_rpc_request) outcome" where
  "build_request pos p =
     and_then (optional pos p ''jsonrpc'' read_string) (\<lambda>version.
     and_then (required pos p ''method'' read_string) (\<lambda>m.
     and_then (defaulted p ''params'' read_value JNull) (\<lambda>params.
     and_then (required pos p ''id'' read_value) (\<lambda>rid.
     Done \<lparr>req_jsonrpc = version, req_method = m, req_params = params, req_id = rid\<rparr>))))"

definition read_request :: "('n, 'n json_rpc_request) reader" where
  "read_request = read_struct request_fields build_request"

definition serve_body ::
    "('b, 'a, 'k, 's, 't) state_ops \<Rightarrow> ('b, 'a, 'k, 's) evm_fns \<Rightarrow> 'n rpc_fns \<Rightarrow> tx_codec \<Rightarrow> (int \<Rightarrow> 'n) \<Rightarrow>
     'n json \<Rightarrow> ('b, 'a, 'k, 's, 't) evm_rpc_state \<Rightarrow>
     (serde_error, 'n json) outcome \<times> ('b, 'a, 'k, 's, 't) evm_rpc_state" where
  "serve_body ops F R C number body st =
     (case read_request body of
        Done req \<Rightarrow> (case handle_rpc ops F R C req st of (resp, st') \<Rightarrow> (Done (response_json number resp), st'))
      | Fail e \<Rightarrow> (Fail e, st)
      | Panic \<Rightarrow> (Panic, st))"

section \<open>Lemmas\<close>

lemma build_request_Done:
  "build_request False p = Done req \<longleftrightarrow>
     field_is (read_option read_string) (Some None) (p ''jsonrpc'') (req_jsonrpc req) \<and>
     field_is read_string None (p ''method'') (req_method req) \<and>
     field_is read_value (Some JNull) (p ''params'') (req_params req) \<and>
     field_is read_value None (p ''id'') (req_id req)"
  unfolding build_request_def and_then_eq_Done required_is defaulted_is optional_is by (cases req) auto

lemma request_table:
  "map_of request_fields k \<noteq> None \<longleftrightarrow> k \<in> {''jsonrpc'', ''method'', ''params'', ''id''}"
  by (auto simp: request_fields_def)

lemma build_request_known:
  "build_request pos (\<lambda>k. if map_of request_fields k = None then None else p k) = build_request pos p"
  by (simp add: build_request_def required_def defaulted_def optional_def request_fields_def)

lemma request_check:
  fixes p :: "string \<rightharpoonup> 'n json" and check :: "('n, unit) reader"
  assumes "build_request False p = Done req" "p k = Some v" "map_of request_fields k = Some check"
  shows "check v = Done ()"
proof -
  have "map_of (request_fields :: 'n field_table) k \<noteq> None" using assms(3) by simp
  then have "k \<in> {''jsonrpc'', ''method'', ''params'', ''id''}" unfolding request_table .
  then show ?thesis
    using assms unfolding build_request_Done
    by (elim insertE emptyE conjE; clarsimp simp: request_fields_def field_is_def)
qed

lemma read_request_object:
  "read_request (JObject ms) = Done req \<longleftrightarrow>
     distinct (filter (\<lambda>k. k \<in> {''jsonrpc'', ''method'', ''params'', ''id''}) (map fst ms)) \<and>
     build_request False (map_of ms) = Done req"
proof -
  let ?fs = request_fields
  have "\<forall>(k, v) \<in> set (known ?fs ms). the (map_of ?fs k) v = Done ()"
    if "build_request False (map_of ms) = Done req" "distinct (map fst (known ?fs ms))"
    using known_lookup [OF that(2)] request_check [OF that(1)] by fastforce
  then show ?thesis
    unfolding read_request_def read_struct_object_Done build_request_known map_fst_known request_table by blast
qed

lemma read_request_no_panic:
  fixes body :: "'n json"
  shows "read_request body \<noteq> Panic"
proof -
  have string: "read_string v \<noteq> Panic" for v :: "'n json" by (cases v) simp_all
  then have opt: "read_option read_string v \<noteq> Panic" for v :: "'n json"
    by (cases "v = JNull") (simp_all add: read_option_value and_then_eq_Panic, simp add: read_option_def)
  have "check v \<noteq> Panic" if "(k, check) \<in> set request_fields" for k check and v :: "'n json"
    using that string opt by (auto simp: request_fields_def checked_def read_value_def and_then_eq_Panic)
  then have visit: "visit_map request_fields ms p \<noteq> Panic" "visit_seq request_fields vs p \<noteq> Panic"
    for ms vs and p :: "string \<rightharpoonup> 'n json"
    by (intro visit_panic, blast)+
  have "build_request pos p \<noteq> Panic" for pos and p :: "string \<rightharpoonup> 'n json"
    using string opt
    by (auto simp: build_request_def and_then_eq_Panic optional_def required_def defaulted_def read_value_def
        split: option.splits if_splits)
  then show ?thesis
    by (cases body) (auto simp: read_request_def read_struct_def and_then_eq_Panic visit)
qed

lemma field_is_string: "field_is read_string None v s \<longleftrightarrow> v = Some (JString s)"
  by (auto simp: field_is_def elim: read_string.elims split: option.split)

lemma field_is_opt_string:
  "field_is (read_option read_string) (Some None) v x \<longleftrightarrow>
     (case v of
        None \<Rightarrow> x = None
      | Some w \<Rightarrow> w = JNull \<and> x = None \<or> (\<exists>s. w = JString s \<and> x = Some s))"
proof (cases v)
  case (Some w)
  then show ?thesis by (cases w) (auto simp: field_is_def read_option_def)
qed (auto simp: field_is_def)


text \<open>A body that is no request changes nothing, and the server does not panic over it.\<close>

lemma serve_body_cases:
  "(\<exists>req. read_request body = Done req \<and>
      serve_body ops F R C number body st =
        (Done (response_json number (fst (handle_rpc ops F R C req st))), snd (handle_rpc ops F R C req st))) \<or>
   (\<exists>e. read_request body = Fail e \<and> serve_body ops F R C number body st = (Fail e, st))"
  using read_request_no_panic [of body]
  by (cases "read_request body") (simp_all add: serve_body_def split_beta)

text \<open>
  A request without an \<^verbatim>\<open>id\<close>, which JSON-RPC 2.0 defines as a notification, is refused before it reaches
  a method, and so is a batch: an array of request objects is read as one request by position, whose first
  element is not a version.
\<close>

theorem notifications_refused:
  "serve_body ops F R C number (JObject [(''jsonrpc'', JString ''2.0''), (''method'', JString m), (''params'', ps)]) st =
     (Fail (MissingField ''id''), st) \<and>
   serve_body ops F R C number (JArray (JObject ms # bodies)) st = (Fail Invalid, st)"
  by (simp add: serve_body_def read_request_def read_struct_def request_fields_def build_request_def checked_def
      read_value_def read_option_def required_def optional_def defaulted_def)

end
