(* ===== verification/Running_Node.thy ===== *)
theory Running_Node
  imports Node_Run Rpc_Json
begin

text \<open>
  A running node: the consensus engine, the RPC server and the gossip task work on one executor, and their
  steps interleave. The engine and the gossip task reach the executor through \<^verbatim>\<open>SharedExecutor\<close>, the server
  through the body of a request. Receiving a transaction from a peer takes two steps, because validation
  and insertion lock the executor one after the other: anything may happen between them.

  Every run is a run of the chain machine, so that what holds of the machine holds of the node; and what
  is broadcast or admitted has been checked.
\<close>

section \<open>The application interface\<close>

text \<open>
  The trait \<^verbatim>\<open>Application\<close>, one constructor per method with its arguments; the traversal orders of the hash maps
  are arguments as before. \<^verbatim>\<open>SharedExecutor\<close> hands every call to the executor it wraps.
\<close>

datatype app_call =
    CallValidateTx bytes
  | CallExecuteBlock "address list" "address \<Rightarrow> u256 list" "bytes list" block_context
  | CallCreatePayload "address list"
  | CallOnCommit "address list" block_context
  | CallQuery string bytes

datatype app_reply =
    ReplyValidateTx tx_validation_result
  | ReplyExecuteBlock bytes
  | ReplyPayload bytes
  | ReplyCommitted
  | ReplyQuery query_response

fun shared_executor ::
    "('b, 'a, 'k, 's, 't) state_ops \<Rightarrow> ('b, 'a, 'k, 's) evm_fns \<Rightarrow> tx_codec \<Rightarrow> app_call \<Rightarrow>
     ('b, 'a, 'k, 's, 't) evm_executor \<Rightarrow> app_reply \<times> ('b, 'a, 'k, 's, 't) evm_executor" where
  "shared_executor ops F C (CallValidateTx raw) ex = (ReplyValidateTx (app_validate_tx ops C ex raw), ex)"
| "shared_executor ops F C (CallExecuteBlock ks ord txs ctx) ex =
     map_prod ReplyExecuteBlock (\<lambda>ex. ex) (execute_block ops F C ks ord txs ctx ex)"
| "shared_executor ops F C (CallCreatePayload ks) ex = map_prod ReplyPayload (\<lambda>ex. ex) (create_payload ks ex)"
| "shared_executor ops F C (CallOnCommit ks ctx) ex = (ReplyCommitted, app_on_commit ops ks ctx ex)"
| "shared_executor ops F C (CallQuery path data) ex = (ReplyQuery (app_query ops ex path data), ex)"

section \<open>The node\<close>

text \<open>
  The server's state holds the executor; \<open>rn_open\<close> is the block that was executed and not yet committed, and
  \<open>rn_inflight\<close> the transaction the gossip task has validated and not yet added, with its priority and gas.
\<close>

record ('b, 'a, 'k, 's, 't) running_node =
  rn_server :: "('b, 'a, 'k, 's, 't) evm_rpc_state"
  rn_open :: "block_context option"
  rn_inflight :: "(bytes \<times> u64 \<times> u64) option"

abbreviation rn_executor :: "('b, 'a, 'k, 's, 't) running_node \<Rightarrow> ('b, 'a, 'k, 's, 't) evm_executor" where
  "rn_executor n \<equiv> rpc_executor (rn_server n)"

definition with_executor ::
    "('b, 'a, 'k, 's, 't) evm_executor \<Rightarrow> ('b, 'a, 'k, 's, 't) running_node \<Rightarrow> ('b, 'a, 'k, 's, 't) running_node" where
  "with_executor ex n = n\<lparr>rn_server := (rn_server n)\<lparr>rpc_executor := ex\<rparr>\<rparr>"

text \<open>
  The order in which the engine calls: a block is executed on top of the last committed one, with the next
  height, and only the executed block is committed.
\<close>

definition engine_may :: "('b, 'a, 'k, 's, 't) running_node \<Rightarrow> app_call \<Rightarrow> bool" where
  "engine_may n call =
     (case call of
        CallExecuteBlock ks ord txs ctx \<Rightarrow>
          rn_open n = None \<and> ex_block_height (rn_executor n) \<noteq> - 1 \<and>
          ctx_height ctx = ex_block_height (rn_executor n) + 1
      | CallCreatePayload ks \<Rightarrow> iter_order (senders (pool_inner_of (ex_txpool (rn_executor n)))) ks
      | CallOnCommit ks ctx \<Rightarrow>
          rn_open n = Some ctx \<and> iter_order (senders (pool_inner_of (ex_txpool (rn_executor n)))) ks
      | _ \<Rightarrow> True)"

fun opened :: "app_call \<Rightarrow> block_context option \<Rightarrow> block_context option" where
  "opened (CallExecuteBlock _ _ _ ctx) opn = Some ctx"
| "opened (CallOnCommit _ _) opn = None"
| "opened _ opn = opn"

inductive node_step ::
    "('b, 'a, 'k, 's, 't) state_ops \<Rightarrow> ('b, 'a, 'k, 's) evm_fns \<Rightarrow> 'n rpc_fns \<Rightarrow> tx_codec \<Rightarrow> (int \<Rightarrow> 'n) \<Rightarrow>
     ('b, 'a, 'k, 's, 't) running_node \<Rightarrow> ('b, 'a, 'k, 's, 't) running_node \<Rightarrow> bool"
  for ops :: "('b, 'a, 'k, 's, 't) state_ops" and F :: "('b, 'a, 'k, 's) evm_fns" and R :: "'n rpc_fns"
    and C :: tx_codec and number :: "int \<Rightarrow> 'n" where
  request: "node_step ops F R C number n (n\<lparr>rn_server := snd (serve_body ops F R C number body (rn_server n))\<rparr>)"
| dropped: "rn_inflight n = None \<Longrightarrow>
     shared_executor ops F C (CallValidateTx raw) (rn_executor n) = (ReplyValidateTx TvReject, ex) \<Longrightarrow>
     node_step ops F R C number n (with_executor ex n)"
| validated: "rn_inflight n = None \<Longrightarrow>
     shared_executor ops F C (CallValidateTx raw) (rn_executor n) = (ReplyValidateTx (TvAccept p gas), ex) \<Longrightarrow>
     node_step ops F R C number n ((with_executor ex n)\<lparr>rn_inflight := Some (raw, p, gas)\<rparr>)"
| added: "rn_inflight n = Some (raw, p, gas) \<Longrightarrow>
     adapter_add_tx C (ex_state (rn_executor n)) (ex_txpool (rn_executor n)) raw p gas = (taken, pool) \<Longrightarrow>
     node_step ops F R C number n
       ((with_executor ((rn_executor n)\<lparr>ex_txpool := pool\<rparr>) n)\<lparr>rn_inflight := None\<rparr>)"
| engine: "engine_may n call \<Longrightarrow> shared_executor ops F C call (rn_executor n) = (reply, ex) \<Longrightarrow>
     node_step ops F R C number n ((with_executor ex n)\<lparr>rn_open := opened call (rn_open n)\<rparr>)"

inductive_cases node_stepE: "node_step ops F R C number n n'"

section \<open>Every step is one of the chain machine\<close>

definition chain_of :: "('b, 'a, 'k, 's, 't) running_node \<Rightarrow> ('b, 'a, 'k, 's, 't) chain" where
  "chain_of n = \<lparr>ch_ex = rn_executor n, ch_open = rn_open n\<rparr>"

lemma chain_of_simps [simp]:
  "ch_ex (chain_of n) = rn_executor n" "ch_open (chain_of n) = rn_open n"
  "chain_of (n\<lparr>rn_inflight := i\<rparr>) = chain_of n"
  "chain_of (with_executor ex n) = (chain_of n)\<lparr>ch_ex := ex\<rparr>"
  "chain_of ((with_executor ex n)\<lparr>rn_open := opn\<rparr>) = (chain_of n)\<lparr>ch_ex := ex, ch_open := opn\<rparr>"
  "rn_inflight (with_executor ex n) = rn_inflight n" "rn_open (with_executor ex n) = rn_open n"
  "rn_server (with_executor ex n) = (rn_server n)\<lparr>rpc_executor := ex\<rparr>"
  by (simp_all add: chain_of_def with_executor_def)

lemma add_is_submit:
  "adapter_add_tx C (ex_state ex) (ex_txpool ex) raw p gas = (taken, pool) \<Longrightarrow>
     ex\<lparr>ex_txpool := pool\<rparr> = snd (submit_raw_tx C ex raw)"
  by (auto simp: adapter_add_tx_def submit_raw_tx_def split: prod.splits)

lemma request_step:
  "(chain_step ops F C)\<^sup>=\<^sup>= (chain_of n) (chain_of (n\<lparr>rn_server := snd (serve_body ops F R C number body (rn_server n))\<rparr>))"
proof -
  consider (served) req where "snd (serve_body ops F R C number body (rn_server n)) = snd (handle_rpc ops F R C req (rn_server n))"
    | (refused) "snd (serve_body ops F R C number body (rn_server n)) = rn_server n"
    using serve_body_cases [of body ops F R C number "rn_server n"] by (metis snd_conv)
  then show ?thesis
  proof cases
    case served
    then show ?thesis using rpc_step [of ops F C "rn_server n" "rn_open n" R req] by (simp add: chain_of_def)
  qed (simp add: chain_of_def)
qed

lemma engine_step:
  assumes may: "engine_may n call" and run: "shared_executor ops F C call (rn_executor n) = (reply, ex)"
  shows "(chain_step ops F C)\<^sup>=\<^sup>= (chain_of n) ((chain_of n)\<lparr>ch_ex := ex, ch_open := opened call (rn_open n)\<rparr>)"
proof (cases call)
  case (CallExecuteBlock ks ord txs ctx)
  then have "ex = snd (execute_block ops F C ks ord txs ctx (ch_ex (chain_of n)))" using run by (auto simp: map_prod_def split_beta)
  moreover have "chain_step ops F C (chain_of n) ((chain_of n)\<lparr>ch_ex :=
      snd (execute_block ops F C ks ord txs ctx (ch_ex (chain_of n))), ch_open := Some ctx\<rparr>)"
    using may by (intro chain_step.execute) (simp_all add: engine_may_def CallExecuteBlock)
  ultimately show ?thesis by (simp add: CallExecuteBlock)
next
  case (CallCreatePayload ks)
  then have "ex = snd (create_payload ks (ch_ex (chain_of n)))" using run by (auto simp: map_prod_def split_beta)
  moreover have "chain_step ops F C (chain_of n) ((chain_of n)\<lparr>ch_ex := snd (create_payload ks (ch_ex (chain_of n)))\<rparr>)"
    using may by (intro chain_step.propose) (simp add: engine_may_def CallCreatePayload)
  ultimately show ?thesis by (simp add: CallCreatePayload chain_of_def)
next
  case (CallOnCommit ks ctx)
  then have "chain_step ops F C (chain_of n) ((chain_of n)\<lparr>ch_ex := app_on_commit ops ks ctx (ch_ex (chain_of n)), ch_open := None\<rparr>)"
    using may by (intro chain_step.commit) (simp_all add: engine_may_def)
  then show ?thesis using run by (simp add: CallOnCommit)
qed (use run in \<open>simp_all add: chain_of_def\<close>)

lemma node_step_chain:
  assumes "node_step ops F R C number n n'"
  shows "(chain_step ops F C)\<^sup>=\<^sup>= (chain_of n) (chain_of n')"
  using assms
proof (rule node_stepE)
  fix body assume "n' = n\<lparr>rn_server := snd (serve_body ops F R C number body (rn_server n))\<rparr>"
  then show ?thesis using request_step by metis
next
  fix raw p gas taken pool
  assume add: "adapter_add_tx C (ex_state (rn_executor n)) (ex_txpool (rn_executor n)) raw p gas = (taken, pool)"
    and n': "n' = (with_executor ((rn_executor n)\<lparr>ex_txpool := pool\<rparr>) n)\<lparr>rn_inflight := None\<rparr>"
  have "chain_step ops F C (chain_of n) (chain_of n')"
    using chain_step.submit [of ops F C "chain_of n" raw] by (simp add: n' add_is_submit [OF add])
  then show ?thesis by simp
next
  fix call reply ex
  assume "engine_may n call" "shared_executor ops F C call (rn_executor n) = (reply, ex)"
    and n': "n' = (with_executor ex n)\<lparr>rn_open := opened call (rn_open n)\<rparr>"
  then show ?thesis using engine_step by (simp only: n' chain_of_simps) blast
qed (auto simp: chain_of_def)

section \<open>What was checked\<close>

text \<open>The server hands to the network only what the pool took.\<close>

lemma send_raw_sink:
  "rpc_network_sink (snd (rpc_send_raw_transaction F R C st req)) = rpc_network_sink st \<or>
   (\<exists>raw v sent. rpc_network_sink st = Some sent \<and> decode_and_recover C raw = Inr v \<and>
      rpc_network_sink (snd (rpc_send_raw_transaction F R C st req)) = Some (sent @ [raw]))"
proof (cases "raw_tx_param R (req_params req)")
  case (Inr raw)
  obtain r pool where sub: "submit_tx C (ex_state (rpc_executor st)) (ex_txpool (rpc_executor st)) raw = (r, pool)" by fastforce
  have dec: "\<exists>v. decode_and_recover C raw = Inr v" if "r = Inr h" for h
    using sub that by (cases rule: submit_tx_cases) auto
  show ?thesis
    by (cases r; cases "rpc_network_sink st")
      (use dec in \<open>auto simp: rpc_send_raw_transaction_def Inr submit_raw_tx_def sub Let_def\<close>)
qed (simp add: rpc_send_raw_transaction_def)

lemma request_sink:
  "rpc_network_sink (snd (serve_body ops F R C number body st)) = rpc_network_sink st \<or>
   (\<exists>raw v sent. rpc_network_sink st = Some sent \<and> decode_and_recover C raw = Inr v \<and>
      rpc_network_sink (snd (serve_body ops F R C number body st)) = Some (sent @ [raw]))"
proof -
  have "rpc_network_sink (snd (rpc_estimate_gas F R st req)) = rpc_network_sink st"
    "rpc_network_sink (snd (rpc_eth_call F R st req)) = rpc_network_sink st" for req
    by (auto simp: rpc_estimate_gas_def rpc_eth_call_def split_beta split: sum.split)
  then have "snd (handle_rpc ops F R C req st) = snd (rpc_send_raw_transaction F R C st req) \<or>
      rpc_network_sink (snd (handle_rpc ops F R C req st)) = rpc_network_sink st" for req
    by (simp add: handle_rpc_def dispatch_def split: option.split)
  then show ?thesis
    using serve_body_cases [of body ops F R C number st] send_raw_sink [of F R C st] by (metis snd_conv)
qed

definition all_decode :: "tx_codec \<Rightarrow> bytes list option \<Rightarrow> bool" where
  "all_decode C sent \<longleftrightarrow> (\<forall>raws. sent = Some raws \<longrightarrow> (\<forall>raw \<in> set raws. \<exists>v. decode_and_recover C raw = Inr v))"

text \<open>The transaction in flight was valid in a state the machine has passed through.\<close>

definition was_valid where
  "was_valid ops F C g n \<longleftrightarrow>
     (\<forall>raw p gas. rn_inflight n = Some (raw, p, gas) \<longrightarrow>
        (\<exists>c. chain_reachable ops F C g c \<and> (chain_step ops F C)\<^sup>*\<^sup>* c (chain_of n) \<and>
           app_validate_tx ops C (ch_ex c) raw = TvAccept p gas))"

lemma chain_reachable_step:
  "chain_reachable ops F C g c \<Longrightarrow> (chain_step ops F C)\<^sup>=\<^sup>= c c' \<Longrightarrow> chain_reachable ops F C g c'"
  unfolding chain_reachable_def by auto

lemma was_valid_step:
  assumes inv: "was_valid ops F C g n" and reach: "chain_reachable ops F C g (chain_of n)"
    and step: "node_step ops F R C number n n'"
  shows "was_valid ops F C g n'"
proof -
  have on: "(chain_step ops F C)\<^sup>*\<^sup>* c (chain_of n')" if "(chain_step ops F C)\<^sup>*\<^sup>* c (chain_of n)" for c
    using that node_step_chain [OF step] by auto
  have keep: "was_valid ops F C g n'" if same: "rn_inflight n' = rn_inflight n"
    unfolding was_valid_def same using inv on unfolding was_valid_def by blast
  from step show ?thesis
  proof (rule node_stepE)
    fix raw p gas
    assume "app_validate_tx ops C (rn_executor n) raw = TvAccept p gas"
      and n': "n' = (with_executor (rn_executor n) n)\<lparr>rn_inflight := Some (raw, p, gas)\<rparr>"
    then have "app_validate_tx ops C (ch_ex (chain_of n)) raw = TvAccept p gas" and same: "chain_of n' = chain_of n"
      by (simp_all add: chain_of_def)
    then show ?thesis using reach unfolding was_valid_def same by (auto simp: n')
  next
    fix pool
    assume "n' = (with_executor ((rn_executor n)\<lparr>ex_txpool := pool\<rparr>) n)\<lparr>rn_inflight := None\<rparr>"
    then show ?thesis by (simp add: was_valid_def)
  qed (use keep in simp_all)
qed

definition node_inv where
  "node_inv ops F C g n \<longleftrightarrow>
     chain_reachable ops F C g (chain_of n) \<and> all_decode C (rpc_network_sink (rn_server n)) \<and> was_valid ops F C g n"

lemma node_inv_step:
  assumes "node_inv ops F C g n" and step: "node_step ops F R C number n n'"
  shows "node_inv ops F C g n'"
proof -
  have "all_decode C (rpc_network_sink (rn_server n'))"
    using step
  proof (rule node_stepE)
    fix body assume "n' = n\<lparr>rn_server := snd (serve_body ops F R C number body (rn_server n))\<rparr>"
    then show ?thesis
      using assms(1) request_sink [of ops F R C number body "rn_server n"] by (auto simp: node_inv_def all_decode_def)
  qed (use assms(1) in \<open>simp_all add: node_inv_def\<close>)
  then show ?thesis
    using assms(1) was_valid_step [OF _ _ step] chain_reachable_step [OF _ node_step_chain [OF step]]
    by (simp add: node_inv_def)
qed

definition node_start ::
    "('b, 'a, 'k, 's, 't) evm_rpc_state \<Rightarrow> ('b, 'a, 'k, 's, 't) running_node" where
  "node_start server = \<lparr>rn_server = server, rn_open = None, rn_inflight = None\<rparr>"

interpretation running: safe_machine
  "\<lambda>n. \<exists>server. n = node_start server \<and> chain_of n = chain_start ops g \<and> rpc_network_sink server = Some []"
  "node_step ops F R C number" "node_inv ops F C g" for ops F R C number g
proof
  fix n assume "\<exists>server. n = node_start server \<and> chain_of n = chain_start ops g \<and> rpc_network_sink server = Some []"
  then show "node_inv ops F C g n"
    by (auto simp: node_inv_def chain_reachable_def all_decode_def was_valid_def node_start_def)
qed (rule node_inv_step)

lemma started_inv:
  assumes "start_node ops A read_file parse FW epoch_set pcs with_chain_id home rpc_addr p2p_laddr fs = Done s"
    and "sn_rpc s = Some (addr, server)"
    and "(node_step ops F R C number)\<^sup>*\<^sup>* (node_start server) n"
  shows "node_inv ops F C (sn_genesis s) n"
proof -
  obtain opt where "rpc_executor server = sn_executor s" "rpc_network_sink server = Some []"
    using assms(1)
  proof (rule start_node_Done)
    fix config genesis rpc
    assume "rpc_part FW config (unwrap_or rpc_addr ''127.0.0.1:8545'')
        (snd (start_application ops genesis (nc_serve_rpc config))) = Done rpc"
      "sn_executor s = fst (start_application ops genesis (nc_serve_rpc config))" "sn_rpc s = rpc"
    then show thesis
      using assms(2) that
      by (auto simp: rpc_part_def start_application_def Let_def and_then_eq_Done attempt_Done split: if_splits)
  qed
  moreover from this have "chain_of (node_start server) = chain_start ops (sn_genesis s)"
    using started_machine [OF assms(1)] by (simp add: chain_of_def node_start_def)
  ultimately show ?thesis using assms(3) running.reachable_inv by blast
qed

section \<open>Properties\<close>


text \<open>
  C26: What a peer's transaction went through when the gossip task adds it. It was valid in a state the node has
  been in, which may have changed since; if the pool takes it, it decodes to what was validated and its
  nonce is not below the committed nonce at the moment of insertion, and otherwise the pool holds what it
  held.
\<close>

theorem gossip_adds_checked:
  assumes env: "chain_env_ok ops F"
    and start: "start_node ops A read_file parse FW epoch_set pcs with_chain_id home rpc_addr p2p_laddr fs = Done s"
    and rpc: "sn_rpc s = Some (addr, server)"
    and run: "(node_step ops F R C number)\<^sup>*\<^sup>* (node_start server) n"
    and fly: "rn_inflight n = Some (raw, p, gas)"
    and add: "adapter_add_tx C (ex_state (rn_executor n)) (ex_txpool (rn_executor n)) raw p gas = (taken, pool)"
  shows "\<exists>v c. decode_and_recover C raw = Inr v \<and> chain_reachable ops F C (sn_genesis s) c \<and>
     (chain_step ops F C)\<^sup>*\<^sup>* c (chain_of n) \<and>
     validate_tx v (chain_id (ex_config (ch_ex c))) (es_get_nonce ops (ex_state (ch_ex c)) (vt_sender v))
       (es_get_balance ops (ex_state (ch_ex c)) (vt_sender v)) (block_gas_limit (ex_config (ch_ex c)))
       (base_fee_per_gas (ex_config (ch_ex c))) = Inr () \<and>
     (if taken
      then (\<exists>e \<in> pool_txs pool. pe_verified e = v) \<and>
           es_get_nonce ops (ex_state (rn_executor n)) (vt_sender v) \<le> env_nonce (vt_envelope v)
      else pool_txs pool = pool_txs (ex_txpool (rn_executor n)))"
proof -
  let ?ex = "rn_executor n"
  have inv: "chain_reachable ops F C (sn_genesis s) (chain_of n)" "was_valid ops F C (sn_genesis s) n"
    using started_inv [OF start rpc run] by (simp_all add: node_inv_def)
  obtain c where c: "chain_reachable ops F C (sn_genesis s) c" "(chain_step ops F C)\<^sup>*\<^sup>* c (chain_of n)"
    and val: "app_validate_tx ops C (ch_ex c) raw = TvAccept p gas"
    using inv(2) fly unfolding was_valid_def by blast
  obtain v where v: "decode_and_recover C raw = Inr v" using validate_accepts [OF val] by blast
  have pool: "pool_inv (ex_txpool ?ex)" and cur: "current_nonce_of (ex_state ?ex) (ex_txpool ?ex) = es_get_nonce ops (ex_state ?ex)"
    using reachable_chain_inv [OF env inv(1)] by (auto simp: chain_inv_def current_nonce_of_def fun_eq_iff)
  obtain r where sub: "submit_tx C (ex_state ?ex) (ex_txpool ?ex) raw = (r, pool)" and r: "taken \<longleftrightarrow> (\<exists>h. r = Inr h)"
    using add by (auto simp: adapter_add_tx_def split: prod.splits sum.splits)
  have "if taken
      then (\<exists>e \<in> pool_txs pool. pe_verified e = v) \<and> es_get_nonce ops (ex_state ?ex) (vt_sender v) \<le> env_nonce (vt_envelope v)
      else pool_txs pool = pool_txs (ex_txpool ?ex)"
    using sub
  proof (cases rule: submit_tx_cases)
    case (Admitted w old q)
    then show ?thesis
      using v r cur admitted_txs [OF pool Admitted(5,4)] by (auto simp: entry_for_def)
  qed (use r in \<open>auto simp: touched_txs\<close>)
  then show ?thesis using v c validate_accepts [OF val] by auto
qed

section \<open>An example\<close>

text \<open>One transaction, of a funded account of the default genesis, is received, validated and added.\<close>

definition one_codec :: tx_codec where
  "one_codec =
     \<lparr>decode_2718 = (\<lambda>raw. if raw = [7] then Inr sample_envelope else Inl ''unexpected''),
      recover_signer = (\<lambda>_. Inr (repeat_byte 0xAA))\<rparr>"

lemma one_tx_valid:
  "\<exists>p gas. app_validate_tx demo_ops one_codec (ch_ex (chain_start demo_ops default_dev_genesis)) [7] = TvAccept p gas"
proof -
  let ?st = "from_genesis demo_ops default_dev_genesis"
  have "es_get_balance demo_ops ?st (repeat_byte 0xAA) = 10 ^ 22"
    using dev_genesis_balances [OF demo_ops_ok] by simp
  moreover have "chain_id (es_config ?st) = 1337" "block_gas_limit (es_config ?st) = 30000000"
    "base_fee_per_gas (es_config ?st) = 1000000000"
    by (simp_all add: from_genesis_def split_beta default_dev_genesis_def)
  moreover have "es_get_nonce demo_ops ?st (repeat_byte 0xAA) = 0"
    using from_genesis_nonce [OF demo_ops_ok dev_genesis_ok, of "repeat_byte 0xAA"]
    by (simp add: default_dev_genesis_def dev_account_def bt_get_insert)
  ultimately show ?thesis
    by (simp add: app_validate_tx_def decode_and_recover_def one_codec_def demo_start_simps ex_config_def Let_def
        validate_tx_def sample_envelope_def intrinsic_gas_def)
qed


theorem gossip_adds_checked_witness:
  "\<exists>v. decode_and_recover one_codec [7] = Inr v \<and>
     (\<exists>c :: demo_chain_type. validate_tx v (chain_id (ex_config (ch_ex c))) (es_get_nonce demo_ops (ex_state (ch_ex c)) (vt_sender v))
        (es_get_balance demo_ops (ex_state (ch_ex c)) (vt_sender v)) (block_gas_limit (ex_config (ch_ex c)))
        (base_fee_per_gas (ex_config (ch_ex c))) = Inr ())"
proof -
  obtain s addr server where s: "start_node demo_ops demo_alloy demo_read demo_parse demo_framework (\<lambda>e. e) demo_pcs
      demo_consensus ''/h'' None None Map.empty = Done s" "sn_rpc s = Some (addr, server)"
    and ex: "rpc_executor server = ch_ex (chain_start demo_ops default_dev_genesis)" using demo_start by fastforce
  obtain p gas where valid: "app_validate_tx demo_ops one_codec (rpc_executor server) [7] = TvAccept p gas"
    using one_tx_valid ex by auto
  let ?n = "(with_executor (rpc_executor server) (node_start server))\<lparr>rn_inflight := Some ([7], p, gas)\<rparr>"
  have run: "(node_step demo_ops demo_evm demo_rpc one_codec (\<lambda>_. ()))\<^sup>*\<^sup>* (node_start server) ?n"
    by (intro r_into_rtranclp node_step.validated) (simp_all add: node_start_def valid)
  obtain taken pool where "adapter_add_tx one_codec (ex_state (rn_executor ?n)) (ex_txpool (rn_executor ?n)) [7] p gas = (taken, pool)"
    by fastforce
  from gossip_adds_checked [OF demo_chain_env s run _ this] show ?thesis by auto
qed

end
