(* ===== verification/Bench.thy ===== *)
theory Bench
  imports Rpc_Json Node
begin

text \<open>
  The benchmark client of \<^verbatim>\<open>crates/node/src/bench.rs\<close>: the transactions it signs, the JSON-RPC calls it
  makes and its waiting loops. The HTTP exchange is a parameter (\<open>post\<close>: the body, and the body of the
  reply when there is one), so are the signer and the clock, whose readings a waiting loop is given as
  a list. \<^verbatim>\<open>run_bench\<close> is given what the cluster, the build and the polls return; of its report the counts are
  modelled and not the rates. Killing the processes and removing the directory are not modelled.
\<close>

section \<open>Transactions\<close>

definition bench_evm_genesis :: "address \<Rightarrow> address \<Rightarrow> evm_genesis" where
  "bench_evm_genesis sender recipient =
     \<lparr>gen_chain_id = 1337,
      gen_alloc =
        bt_insert recipient \<lparr>ga_balance = 0, ga_nonce = 0, ga_code = [], ga_storage = []\<rparr>
          (bt_insert sender
             \<lparr>ga_balance = 1000000 * 1000000000000000000, ga_nonce = 0, ga_code = [], ga_storage = []\<rparr> []),
      gen_gas_limit = 30000000, gen_base_fee_per_gas = 1000000000, gen_coinbase = 0, gen_timestamp = 0\<rparr>"

record tx_eip1559 =
  x_chain_id :: u64
  x_nonce :: u64
  x_gas_limit :: u64
  x_max_fee_per_gas :: u128
  x_max_priority_fee_per_gas :: u128
  x_to :: tx_kind
  x_value :: u256
  x_input :: bytes

text \<open>\<open>sign\<close> signs the transaction and encodes the signed envelope.\<close>

definition presign_txs ::
    "(tx_eip1559 \<Rightarrow> bytes) \<Rightarrow> address \<Rightarrow> u64 \<Rightarrow> nat \<Rightarrow> bytes list" where
  "presign_txs sign recipient the_chain_id tx_count =
     map (\<lambda>nonce. sign
            \<lparr>x_chain_id = the_chain_id, x_nonce = of_nat nonce, x_gas_limit = 21000,
             x_max_fee_per_gas = 2000000000, x_max_priority_fee_per_gas = 1000000000,
             x_to = TxCall recipient, x_value = 1000000000000000, x_input = []\<rparr>)
       [0..<tx_count]"

section \<open>Calls\<close>

text \<open>\<open>one\<close> is the JSON number 1, the id of every request.\<close>

definition request_body :: "'n \<Rightarrow> string \<Rightarrow> 'n json \<Rightarrow> 'n json" where
  "request_body one m params = JObject
     [(''jsonrpc'', JString ''2.0''), (''method'', JString m), (''params'', params), (''id'', JNumber one)]"

definition rpc_json ::
    "'n \<Rightarrow> ('n json \<Rightarrow> 'n json option) \<Rightarrow> string \<Rightarrow> 'n json \<Rightarrow> 'n json option" where
  "rpc_json one post m params = post (request_body one m params)"

definition strip_prefix_0x :: "string \<Rightarrow> string option" where
  "strip_prefix_0x s = (if take 2 s = ''0x'' then Some (drop 2 s) else None)"

definition result_u64 :: "'n json \<Rightarrow> u64 option" where
  "result_u64 resp =
     Option.bind (as_str (json_index resp ''result'')) (\<lambda>hex.
     Option.bind (strip_prefix_0x hex) (\<lambda>s. result_ok (from_str_radix16 s)))"

definition rpc_block_number :: "'n \<Rightarrow> ('n json \<Rightarrow> 'n json option) \<Rightarrow> u64 option" where
  "rpc_block_number one post = Option.bind (rpc_json one post ''eth_blockNumber'' (JArray [])) result_u64"

definition rpc_get_nonce ::
    "('b, 'a, 'k, 's) evm_fns \<Rightarrow> 'n \<Rightarrow> ('n json \<Rightarrow> 'n json option) \<Rightarrow> address \<Rightarrow> u64 option" where
  "rpc_get_nonce F one post addr =
     Option.bind
       (rpc_json one post ''eth_getTransactionCount''
          (JArray [JString (''0x'' @ hex_string F (addr_slice addr)), JString ''latest'']))
       result_u64"

definition rpc_send_raw_tx ::
    "('b, 'a, 'k, 's) evm_fns \<Rightarrow> 'n \<Rightarrow> ('n json \<Rightarrow> 'n json option) \<Rightarrow> bytes \<Rightarrow> bool" where
  "rpc_send_raw_tx F one post raw_tx =
     (rpc_json one post ''eth_sendRawTransaction'' (JArray [JString (''0x'' @ hex_string F raw_tx)]) \<noteq> None)"

section \<open>Waiting\<close>

text \<open>Each reading is the clock and then the answer of the node.\<close>

fun wait_for_blocks :: "u64 \<Rightarrow> nat \<Rightarrow> (nat \<times> u64 option) list \<Rightarrow> bool option" where
  "wait_for_blocks min_blocks deadline [] = None"
| "wait_for_blocks min_blocks deadline ((now, height) # readings) =
     (if \<not> now < deadline then Some False
      else if height \<noteq> None \<and> min_blocks \<le> the height then Some True
      else wait_for_blocks min_blocks deadline readings)"

fun wait_for_confirmations :: "u64 \<Rightarrow> nat \<Rightarrow> u64 \<Rightarrow> (nat \<times> u64 option) list \<Rightarrow> u64 option" where
  "wait_for_confirmations expected_nonce deadline confirmed [] = None"
| "wait_for_confirmations expected_nonce deadline confirmed ((now, answer) # readings) =
     (if \<not> now < deadline then Some confirmed
      else (case answer of
              Some nonce \<Rightarrow>
                if expected_nonce \<le> nonce then Some nonce
                else wait_for_confirmations expected_nonce deadline nonce readings
            | None \<Rightarrow> wait_for_confirmations expected_nonce deadline confirmed readings))"

text \<open>The submission loop of \<^verbatim>\<open>run_bench\<close>: \<open>send\<close> is one call of \<^verbatim>\<open>rpc_send_raw_tx\<close>.\<close>

definition count_submitted :: "(bytes \<Rightarrow> bool) \<Rightarrow> bytes list \<Rightarrow> u64" where
  "count_submitted send raw_txs = foldl (\<lambda>n raw. if send raw then n + 1 else n) 0 raw_txs"

section \<open>The benchmark\<close>

record bench_report =
  br_submitted :: u64
  br_confirmed :: u64
  br_start_block :: u64
  br_end_block :: u64
  br_blocks_produced :: u64
  br_unconfirmed :: "u64 option"

text \<open>
  \<^verbatim>\<open>run_bench\<close>. \<open>cluster\<close> is the result of \<^verbatim>\<open>init_evm_cluster\<close>, \<open>binary\<close> that of the build and \<open>validators_of\<close> the
  validators of a cluster state; \<open>start_answer\<close> and \<open>end_answer\<close> are the two polls of the height. Not having
  returned is \<open>None\<close>; a cluster that produced no block gives no report.
\<close>

definition run_bench ::
    "(bytes \<Rightarrow> bool) \<Rightarrow> (tx_eip1559 \<Rightarrow> bytes) \<Rightarrow> (u16 \<Rightarrow> string) \<Rightarrow> ('cl \<Rightarrow> cluster_validator list) \<Rightarrow>
     (string, 'cl \<times> u16 list) outcome \<Rightarrow> string + string \<Rightarrow> nat \<Rightarrow> nat \<Rightarrow> (nat \<times> u64 option) list \<Rightarrow>
     u64 option \<Rightarrow> nat \<Rightarrow> (nat \<times> u64 option) list \<Rightarrow> u64 option \<Rightarrow> (unit, bench_report option) outcome option" where
  "run_bench send sign host_port validators_of cluster binary txs_to_submit
     block_deadline block_readings start_answer confirm_deadline confirm_readings end_answer =
     (case cluster of
        Fail _ \<Rightarrow> Some Panic
      | Panic \<Rightarrow> Some Panic
      | Done (state, eth_rpc_ports) \<Rightarrow>
          (case binary of
             Inl _ \<Rightarrow> Some Panic
           | Inr bin \<Rightarrow>
               if \<not> snd (start_evm_nodes host_port bin (validators_of state) eth_rpc_ports) \<or> eth_rpc_ports = []
               then Some Panic
               else (case wait_for_blocks 1 block_deadline block_readings of
                       None \<Rightarrow> None
                     | Some False \<Rightarrow> Some (Done None)
                     | Some True \<Rightarrow>
                         (let raw_txs = presign_txs sign (repeat_byte 0x42) 1337 txs_to_submit;
                              start_block = unwrap_or start_answer 0;
                              submitted = count_submitted send raw_txs
                          in case wait_for_confirmations submitted confirm_deadline 0 confirm_readings of
                               None \<Rightarrow> None
                             | Some confirmed \<Rightarrow>
                                 (let end_block = unwrap_or end_answer start_block
                                  in Some (Done (Some
                                       \<lparr>br_submitted = submitted, br_confirmed = confirmed,
                                        br_start_block = start_block, br_end_block = end_block,
                                        br_blocks_produced = saturating_sub end_block start_block,
                                        br_unconfirmed =
                                          (if confirmed < submitted then Some (submitted - confirmed) else None)\<rparr>)))))))"

section \<open>Client and server\<close>

text \<open>
  The exchange brings the body to the server and its response back; a refusal is plain text, which the
  client cannot read as JSON.
\<close>

definition reply :: "(serde_error, 'n json) outcome \<Rightarrow> 'n json option" where
  "reply r = (case r of Done v \<Rightarrow> Some v | _ \<Rightarrow> None)"

definition delivers where
  "delivers ops F R C number st post \<longleftrightarrow>
     (\<forall>body. post body = reply (fst (serve_body ops F R C number body st)))"

definition rpc_request :: "'n \<Rightarrow> string \<Rightarrow> 'n json \<Rightarrow> 'n json_rpc_request" where
  "rpc_request one m params =
     \<lparr>req_jsonrpc = Some ''2.0'', req_method = m, req_params = params, req_id = JNumber one\<rparr>"

text \<open>The bodies the client sends are requests.\<close>

lemma read_request_body: "read_request (request_body one m params) = Done (rpc_request one m (to_value params))"
  by (simp add: request_body_def rpc_request_def read_request_def read_struct_def request_fields_def
      build_request_def checked_def read_value_def read_option_def required_def optional_def defaulted_def)

lemma delivers_request:
  "delivers ops F R C number st post \<Longrightarrow> post (request_body one m params) =
     Some (response_json number (fst (handle_rpc ops F R C (rpc_request one m (to_value params)) st)))"
  by (simp add: delivers_def reply_def serve_body_def read_request_body split_beta)

lemma result_of_response [simp]:
  "json_index (response_json number (response_ok rid v)) ''result'' = v"
  by (simp add: response_json_def response_ok_def)

lemma result_u64_to_hex [simp]: "result_u64 (response_json number (response_ok rid (to_hex_u64 v))) = Some v"
  by (simp add: result_u64_def to_hex_u64_def strip_prefix_0x_def from_str_radix16_show_hex)

text \<open>
  Over an exchange that delivers, the client reads what the node has: the height of the executor and
  the committed nonce of an account. But it cannot tell acceptance from refusal: every submission
  counts, since an error response is a response too.
\<close>

theorem client_reads_node:
  assumes net: "delivers ops F R C number st post" and hex: "hex_ok F R"
  shows "rpc_block_number one post = Some (ex_block_height (rpc_executor st)) \<and>
     rpc_get_nonce F one post a = Some (es_get_nonce ops (ex_state (rpc_executor st)) a) \<and>
     rpc_send_raw_tx F one post raw"
proof -
  obtain block where "parse_addr_block R (JArray [addr_json F a, JString ''latest'']) = Inr (a, block)"
    using parse_addr_block_json [OF hex] by metis
  then have "parse_addr_block R (JArray [JString (''0x'' @ hex_string F (addr_slice a)), JString ''latest'']) =
      Inr (a, block)" by (simp add: addr_json_def hex_0x_def)
  then show ?thesis
    by (simp add: rpc_block_number_def rpc_get_nonce_def rpc_send_raw_tx_def rpc_json_def
        delivers_request [OF net] handle_rpc_def rpc_request_def dispatch_def dispatch_read_def rpc_get_transaction_count_def Let_def)
qed

text \<open>An exchange with the example server, which is answered in place.\<close>

definition demo_post :: "unit json \<Rightarrow> unit json option" where
  "demo_post body =
     reply (fst (serve_body demo_ops demo_evm demo_rpc demo_codec (\<lambda>_. ()) body demo_server))"

lemma demo_delivers: "delivers demo_ops demo_evm demo_rpc demo_codec (\<lambda>_. ()) demo_server demo_post"
  by (simp add: delivers_def demo_post_def)

theorem client_reads_node_witness:
  "rpc_get_nonce demo_evm () demo_post 1 = Some 2"
proof -
  have "es_get_nonce demo_ops (ex_state demo_executor) 1 = 2"
    by (simp add: demo_executor_def executor_from_genesis_def Let_def demo_genesis_nonce [OF demo_ops_ok])
  then show ?thesis using client_reads_node [OF demo_delivers demo_hex_ok] by (simp add: demo_server_def)
qed

text \<open>
  So the benchmark's number of submitted transactions is the number it signed, whatever the pool did
  with them, and that is the nonce it then waits for.
\<close>

lemma count_submitted_all:
  "(\<And>raw. raw \<in> set raws \<Longrightarrow> send raw) \<Longrightarrow> count_submitted send raws = of_nat (length raws)"
proof -
  assume "\<And>raw. raw \<in> set raws \<Longrightarrow> send raw"
  then have "foldl (\<lambda>n raw. if send raw then n + 1 else n) k raws = k + of_nat (length raws)" for k :: u64
    by (induction raws arbitrary: k) (simp_all add: algebra_simps)
  then show ?thesis by (simp add: count_submitted_def)
qed

text \<open>
  The wait for confirmations returns once the clock has passed the deadline or an answer has reached
  the nonce; before the deadline it returns only with a nonce that has.
\<close>

lemma wait_for_confirmations_returns:
  "(now, answer) \<in> set readings \<Longrightarrow> deadline \<le> now \<Longrightarrow>
     \<exists>n. wait_for_confirmations expected deadline confirmed readings = Some n"
proof (induction readings arbitrary: confirmed)
  case (Cons r readings)
  then show ?case by (cases r) (auto split: option.split)
qed simp

lemma wait_for_confirmations_early:
  "wait_for_confirmations expected deadline confirmed readings = Some n \<Longrightarrow>
     \<forall>(now, answer) \<in> set readings. now < deadline \<Longrightarrow> expected \<le> n"
  by (induction expected deadline confirmed readings rule: wait_for_confirmations.induct)
    (auto split: option.splits if_splits)

text \<open>The signed transactions are as many as asked for and all different, since their nonces are.\<close>

lemma presign_distinct:
  assumes "inj sign" and m: "m \<le> 2 ^ 64"
  shows "distinct (presign_txs sign a c m) \<and> length (presign_txs sign a c m) = m"
proof -
  have "i = j" if "i < m" "j < m" "of_nat i = (of_nat j :: u64)" for i j
  proof -
    have less: "i < 2 ^ LENGTH(64)" "j < 2 ^ LENGTH(64)" using that(1,2) m by simp_all
    have "i = unat (of_nat i :: u64)" unfolding unat_of_nat using mod_less [OF less(1)] by simp
    also have "\<dots> = unat (of_nat j :: u64)" by (simp only: that(3))
    also have "\<dots> = j" unfolding unat_of_nat by (rule mod_less [OF less(2)])
    finally show ?thesis .
  qed
  note of_nat_inj = this
  let ?tx = "\<lambda>n. \<lparr>x_chain_id = c, x_nonce = of_nat n, x_gas_limit = 21000, x_max_fee_per_gas = 2000000000,
    x_max_priority_fee_per_gas = 1000000000, x_to = TxCall a, x_value = 1000000000000000, x_input = []\<rparr> :: tx_eip1559"
  have "inj_on (\<lambda>n. sign (?tx n)) {0..<m}"
  proof (rule inj_onI)
    fix i j assume ij: "i \<in> {0..<m}" "j \<in> {0..<m}" and "sign (?tx i) = sign (?tx j)"
    then have "x_nonce (?tx i) = x_nonce (?tx j)" using injD [OF assms(1)] by metis
    then have "of_nat i = (of_nat j :: u64)" by (simp only: tx_eip1559.simps)
    with ij show "i = j" by (intro of_nat_inj) simp_all
  qed
  then show ?thesis by (simp add: presign_txs_def distinct_map)
qed

text \<open>
  The report adds up: what is reported as unconfirmed is exactly what is missing, without underflow, and
  the number submitted is at most the number signed.
\<close>

lemma count_submitted_le: "length raws < 2 ^ 64 \<Longrightarrow> unat (count_submitted send raws) \<le> length raws"
proof -
  assume len: "length raws < 2 ^ 64"
  have count: "count_submitted send raws = of_nat (length (filter send raws))"
  proof -
    have "foldl (\<lambda>n raw. if send raw then n + 1 else n) k raws = k + of_nat (length (filter send raws))" for k :: u64
      by (induction raws arbitrary: k) (simp_all add: algebra_simps)
    then show ?thesis by (simp add: count_submitted_def)
  qed
  have "unat (of_nat n :: u64) \<le> n" for n by (simp add: unat_of_nat)
  then show ?thesis unfolding count using length_filter_le [of send raws] le_trans by blast
qed

lemma run_bench_report:
  assumes "run_bench send sign host_port validators_of cluster binary n bd brs sa cd crs ea = Some (Done (Some r))"
    and "n < 2 ^ 64"
  shows "unat (br_submitted r) \<le> n \<and>
     br_unconfirmed r = (if br_confirmed r < br_submitted r then Some (br_submitted r - br_confirmed r) else None) \<and>
     (\<forall>m. br_unconfirmed r = Some m \<longrightarrow> unat (br_confirmed r) + unat m = unat (br_submitted r)) \<and>
     unat (br_blocks_produced r) = unat (br_end_block r) - unat (br_start_block r)"
proof -
  have le: "unat (count_submitted send (presign_txs sign (repeat_byte 0x42) 1337 n)) \<le> n"
    using count_submitted_le [of "presign_txs sign (repeat_byte 0x42) 1337 n" send] assms(2)
    by (simp add: presign_txs_def)
  have sub: "c < s \<Longrightarrow> unat c + unat (s - c) = unat s" for c s :: u64
    by (simp add: unat_sub word_less_nat_alt word_le_nat_alt)
  show ?thesis
    using assms(1) le sub
    by (auto simp: run_bench_def Let_def unat_saturating_sub split: outcome.splits sum.splits if_splits option.splits
        bool.splits)
qed

end
