(* ===== verification/Unit_Tests.thy ===== *)
theory Unit_Tests
  imports Bench Genesis_Json_Spec
begin

text \<open>
  The repository's unit tests, run on the model. Each test is a boolean function that follows the Rust test
  line by line, an \<^verbatim>\<open>expect\<close> or \<^verbatim>\<open>unwrap\<close> that would panic giving \<open>False\<close>; that it is true is proved, not for one random
  key, but for every signer, hash function and store that do what the tests rely on. Where a test counts
  over a hash map, the list of its keys is written out.

  The test of the function selectors compares constants with Keccak hashes; it is about that function alone
  and has no counterpart here.
\<close>

section \<open>Signed transactions\<close>

text \<open>
  What the tests rely on of alloy: a signed and encoded transaction decodes to an envelope with its fields and
  hash, and the signer is recovered from it.
\<close>

definition signed_by :: "tx_codec \<Rightarrow> bytes \<Rightarrow> tx_envelope \<Rightarrow> address \<Rightarrow> bool" where
  "signed_by C raw env sender \<longleftrightarrow> decode_2718 C raw = Inr env \<and> recover_signer C env = Inr sender"

lemma signed_by_decodes:
  "signed_by C raw env sender \<Longrightarrow>
     decode_and_recover C raw = Inr \<lparr>vt_raw = raw, vt_envelope = env, vt_sender = sender, vt_tx_hash = env_tx_hash env\<rparr>"
  by (simp add: signed_by_def decode_and_recover_def)

definition eip1559_envelope :: "tx_eip1559 \<Rightarrow> b256 \<Rightarrow> tx_envelope" where
  "eip1559_envelope tx hash =
     \<lparr>env_tx_type = 2, env_chain_id = Some (x_chain_id tx), env_nonce = x_nonce tx, env_gas_limit = x_gas_limit tx,
      env_max_fee_per_gas = x_max_fee_per_gas tx, env_max_priority_fee_per_gas = Some (x_max_priority_fee_per_gas tx),
      env_to = (case x_to tx of TxCall a \<Rightarrow> Some a | TxCreate \<Rightarrow> None), env_value = x_value tx,
      env_input = x_input tx, env_tx_hash = hash\<rparr>"

text \<open>A key: how it signs, the hashes of what it signs, and its address.\<close>

record signer =
  sg_sign :: "tx_eip1559 \<Rightarrow> bytes"
  sg_hash :: "tx_eip1559 \<Rightarrow> b256"
  sg_address :: address

definition signer_ok :: "tx_codec \<Rightarrow> signer \<Rightarrow> bool" where
  "signer_ok C k \<longleftrightarrow> (\<forall>tx. signed_by C (sg_sign k tx) (eip1559_envelope tx (sg_hash k tx)) (sg_address k))"

section \<open>The pool: txpool/src/lib.rs\<close>

definition pool_test_tx :: "u64 \<Rightarrow> u128 \<Rightarrow> tx_eip1559" where
  "pool_test_tx nonce tip =
     \<lparr>x_chain_id = 1337, x_nonce = nonce, x_gas_limit = 21000, x_max_fee_per_gas = 30000000000,
      x_max_priority_fee_per_gas = tip, x_to = TxCall (repeat_byte 0xBB), x_value = 1000000, x_input = []\<rparr>"

definition make_eip1559_tx :: "signer \<Rightarrow> u64 \<Rightarrow> u128 \<Rightarrow> bytes" where
  "make_eip1559_tx k nonce tip = sg_sign k (pool_test_tx nonce tip)"

definition test_pool :: "u64 \<Rightarrow> unit evm_tx_pool" where
  "test_pool current_nonce = set_nonce_fn (\<lambda>_ _. current_nonce) (new_tx_pool default_tx_pool_config)"

text \<open>\<^verbatim>\<open>pool.submit_tx(&raw).expect(..)\<close>, followed by the rest of the test on hash and pool.\<close>

definition expect_submit ::
    "tx_codec \<Rightarrow> unit evm_tx_pool \<Rightarrow> bytes \<Rightarrow> (b256 \<Rightarrow> unit evm_tx_pool \<Rightarrow> bool) \<Rightarrow> bool" where
  "expect_submit C pool raw rest = (case submit_tx C () pool raw of (Inr h, pool) \<Rightarrow> rest h pool | (Inl _, _) \<Rightarrow> False)"

text \<open>\<^verbatim>\<open>err.contains(..)\<close> on the error of a submission.\<close>

fun str_contains :: "string \<Rightarrow> string \<Rightarrow> bool" where
  "str_contains pat [] \<longleftrightarrow> pat = []"
| "str_contains pat (c # cs) \<longleftrightarrow> take (length pat) (c # cs) = pat \<or> str_contains pat cs"

definition expect_refusal :: "tx_codec \<Rightarrow> unit evm_tx_pool \<Rightarrow> bytes \<Rightarrow> string \<Rightarrow> bool" where
  "expect_refusal C pool raw msg =
     (case fst (submit_tx C () pool raw) of Inl e \<Rightarrow> str_contains msg (show_pool_error e) | Inr _ \<Rightarrow> False)"

definition test_submit_and_count :: "tx_codec \<Rightarrow> signer \<Rightarrow> bool" where
  "test_submit_and_count C k =
     expect_submit C (test_pool 0) (make_eip1559_tx k 0 1000000000) (\<lambda>hash pool.
       pool_contains pool hash \<and> pending_count [sg_address k] pool = 1 \<and> queued_count [sg_address k] pool = 0)"

definition test_nonce_gap_goes_to_queued :: "tx_codec \<Rightarrow> signer \<Rightarrow> bool" where
  "test_nonce_gap_goes_to_queued C k =
     expect_submit C (test_pool 0) (make_eip1559_tx k 2 1000000000) (\<lambda>_ pool.
       pending_count [sg_address k] pool = 0 \<and> queued_count [sg_address k] pool = 1 \<and>
     expect_submit C pool (make_eip1559_tx k 0 1000000000) (\<lambda>_ pool.
       pending_count [sg_address k] pool = 1 \<and> queued_count [sg_address k] pool = 1 \<and>
     expect_submit C pool (make_eip1559_tx k 1 1000000000) (\<lambda>_ pool.
       pending_count [sg_address k] pool = 3 \<and> queued_count [sg_address k] pool = 0)))"

definition test_replacement_by_fee :: "tx_codec \<Rightarrow> signer \<Rightarrow> bool" where
  "test_replacement_by_fee C k =
     expect_submit C (test_pool 0) (make_eip1559_tx k 0 1000000000) (\<lambda>_ pool.
     expect_submit C pool (make_eip1559_tx k 0 2000000000) (\<lambda>_ pool.
       pending_count [sg_address k] pool = 1 \<and>
     expect_refusal C pool (make_eip1559_tx k 0 500000000) ''replacement underpriced''))"

definition test_nonce_too_low_rejected :: "tx_codec \<Rightarrow> signer \<Rightarrow> bool" where
  "test_nonce_too_low_rejected C k =
     expect_refusal C (test_pool 5) (make_eip1559_tx k 3 1000000000) ''nonce too low''"

definition test_collect_payload :: "tx_codec \<Rightarrow> signer \<Rightarrow> bool" where
  "test_collect_payload C k =
     expect_submit C (test_pool 0) (make_eip1559_tx k 0 1000000000) (\<lambda>_ pool.
       case collect_payload [sg_address k] pool 1000000 30000000 of (payload, pool) \<Rightarrow>
         payload \<noteq> [] \<and> pending_count [sg_address k] pool = 0)"

definition test_on_commit_removes_stale :: "tx_codec \<Rightarrow> signer \<Rightarrow> bool" where
  "test_on_commit_removes_stale C k =
     expect_submit C (test_pool 0) (make_eip1559_tx k 0 1000000000) (\<lambda>_ pool.
     expect_submit C pool (make_eip1559_tx k 1 1000000000) (\<lambda>_ pool.
       pending_count [sg_address k] pool = 2 \<and>
       pending_count [sg_address k] (on_commit_pool [sg_address k] (\<lambda>_. 1) pool) = 1))"

definition test_duplicate_rejected :: "tx_codec \<Rightarrow> signer \<Rightarrow> bool" where
  "test_duplicate_rejected C k =
     expect_submit C (test_pool 0) (make_eip1559_tx k 0 1000000000) (\<lambda>_ pool.
       expect_refusal C pool (make_eip1559_tx k 0 1000000000) ''already known'')"

text \<open>What the pool's tests need beyond \<open>signer_ok\<close>: transactions with different nonce or tip have different hashes.\<close>

definition hashes_differ :: "signer \<Rightarrow> bool" where
  "hashes_differ k \<longleftrightarrow>
     (\<forall>n t n' t'. sg_hash k (pool_test_tx n t) = sg_hash k (pool_test_tx n' t') \<longrightarrow> n = n' \<and> t = t')"

lemma pool_test_tx_simps [simp]:
  "x_chain_id (pool_test_tx n t) = 1337" "x_nonce (pool_test_tx n t) = n" "x_gas_limit (pool_test_tx n t) = 21000"
  "x_max_fee_per_gas (pool_test_tx n t) = 30000000000" "x_max_priority_fee_per_gas (pool_test_tx n t) = t"
  by (simp_all add: pool_test_tx_def)

lemma eip1559_envelope_simps [simp]:
  "env_nonce (eip1559_envelope tx h) = x_nonce tx" "env_gas_limit (eip1559_envelope tx h) = x_gas_limit tx"
  "env_max_fee_per_gas (eip1559_envelope tx h) = x_max_fee_per_gas tx"
  "env_max_priority_fee_per_gas (eip1559_envelope tx h) = Some (x_max_priority_fee_per_gas tx)"
  "env_chain_id (eip1559_envelope tx h) = Some (x_chain_id tx)" "env_tx_hash (eip1559_envelope tx h) = h"
  by (simp_all add: eip1559_envelope_def)

lemma pool_test_decodes:
  assumes "signer_ok C k"
  shows "decode_and_recover C (make_eip1559_tx k n t) =
     Inr \<lparr>vt_raw = make_eip1559_tx k n t, vt_envelope = eip1559_envelope (pool_test_tx n t) (sg_hash k (pool_test_tx n t)),
          vt_sender = sg_address k, vt_tx_hash = sg_hash k (pool_test_tx n t)\<rparr>"
proof -
  have "signed_by C (make_eip1559_tx k n t) (eip1559_envelope (pool_test_tx n t) (sg_hash k (pool_test_tx n t))) (sg_address k)"
    using assms by (simp add: signer_ok_def make_eip1559_tx_def)
  from signed_by_decodes [OF this] show ?thesis by simp
qed

lemma hashes_differ_simp:
  "hashes_differ k \<Longrightarrow> sg_hash k (pool_test_tx n t) = sg_hash k (pool_test_tx n' t') \<longleftrightarrow> n = n' \<and> t = t'"
  by (auto simp: hashes_differ_def)

lemmas pool_test_simps =
  expect_submit_def expect_refusal_def test_pool_def set_nonce_fn_def new_tx_pool_def default_tx_pool_config_def
  submit_tx_def queue_admit_def empty_queue_def hm_insert_def promote_queued_static_def
  effective_gas_tip_def pool_contains_def pending_count_def queued_count_def Let_def hm_remove_def
  bt_last_key_def saturating_sub_def saturating_mul_def min_def

lemma test_submit_and_count_passes: "signer_ok C k \<Longrightarrow> test_submit_and_count C k"
  by (simp add: test_submit_and_count_def pool_test_simps pool_test_decodes promote_loop.simps)

lemma test_nonce_too_low_passes: "signer_ok C k \<Longrightarrow> test_nonce_too_low_rejected C k"
  by (simp add: test_nonce_too_low_rejected_def pool_test_simps pool_test_decodes)

lemma test_duplicate_passes: "signer_ok C k \<Longrightarrow> test_duplicate_rejected C k"
  by (simp add: test_duplicate_rejected_def pool_test_simps pool_test_decodes)

lemma test_nonce_gap_passes: "signer_ok C k \<Longrightarrow> hashes_differ k \<Longrightarrow> test_nonce_gap_goes_to_queued C k"
  by (simp add: test_nonce_gap_goes_to_queued_def pool_test_simps pool_test_decodes hashes_differ_simp promote_loop.simps)

lemma test_replacement_passes: "signer_ok C k \<Longrightarrow> hashes_differ k \<Longrightarrow> test_replacement_by_fee C k"
  by (simp add: test_replacement_by_fee_def pool_test_simps pool_test_decodes hashes_differ_simp promote_loop.simps)

lemma frame_nonempty: "frame raw \<noteq> []"
  using length_frame [of raw] by (metis add_gr_0 length_0_conv less_numeral_extra(3) zero_less_numeral)

lemma test_collect_payload_passes:
  "signer_ok C k \<Longrightarrow> length (make_eip1559_tx k 0 1000000000) \<le> 1000 \<Longrightarrow> test_collect_payload C k"
  by (simp add: test_collect_payload_def pool_test_simps pool_test_decodes promote_loop.simps collect_payload_def
      candidates_of_def first_pending_def sort_candidates_def candidate_gas_def remove_pending_def frame_nonempty)

lemma test_on_commit_passes: "signer_ok C k \<Longrightarrow> hashes_differ k \<Longrightarrow> test_on_commit_removes_stale C k"
  by (simp add: test_on_commit_removes_stale_def pool_test_simps pool_test_decodes hashes_differ_simp promote_loop.simps
     on_commit_pool_def commit_queue_def evict_def queue_empty_def bt_range_below_def)

section \<open>Transactions: types/src/tx.rs\<close>

text \<open>The legacy transaction of \<^verbatim>\<open>make_signed_legacy_tx\<close>, as alloy's accessors show it: its gas price is the fee cap.\<close>

definition legacy_envelope :: "b256 \<Rightarrow> tx_envelope" where
  "legacy_envelope hash =
     \<lparr>env_tx_type = 0, env_chain_id = Some 1337, env_nonce = 0, env_gas_limit = 21000,
      env_max_fee_per_gas = 1000000000, env_max_priority_fee_per_gas = None, env_to = Some (repeat_byte 0xBB),
      env_value = 1000000000000000000, env_input = [], env_tx_hash = hash\<rparr>"

definition test_decode_and_recover_legacy :: "tx_codec \<Rightarrow> bytes \<Rightarrow> address \<Rightarrow> bool" where
  "test_decode_and_recover_legacy C raw expected_sender =
     (case decode_and_recover C raw of
        Inr verified \<Rightarrow> vt_sender verified = expected_sender \<and> env_chain_id (vt_envelope verified) = Some 1337 \<and>
          env_nonce (vt_envelope verified) = 0
      | Inl _ \<Rightarrow> False)"

text \<open>The four tests of \<^verbatim>\<open>validate_tx\<close> differ in chain id, account nonce and balance, and in what they expect.\<close>

definition validation_test ::
    "tx_codec \<Rightarrow> bytes \<Rightarrow> u64 \<Rightarrow> u64 \<Rightarrow> u256 \<Rightarrow> (tx_error + unit \<Rightarrow> bool) \<Rightarrow> bool" where
  "validation_test C raw the_chain_id account_nonce balance expected =
     (case decode_and_recover C raw of
        Inr verified \<Rightarrow> expected (validate_tx verified the_chain_id account_nonce balance 30000000 1000000000)
      | Inl _ \<Rightarrow> False)"

definition test_validate_tx_ok :: "tx_codec \<Rightarrow> bytes \<Rightarrow> bool" where
  "test_validate_tx_ok C raw =
     validation_test C raw 1337 0 100000000000000000000 (\<lambda>r. case r of Inr _ \<Rightarrow> True | Inl _ \<Rightarrow> False)"

definition test_validate_tx_wrong_chain_id :: "tx_codec \<Rightarrow> bytes \<Rightarrow> bool" where
  "test_validate_tx_wrong_chain_id C raw =
     validation_test C raw 9999 0 100000000000000000000 (\<lambda>r. case r of Inl (ChainIdMismatch _ _) \<Rightarrow> True | _ \<Rightarrow> False)"

definition test_validate_tx_nonce_too_low :: "tx_codec \<Rightarrow> bytes \<Rightarrow> bool" where
  "test_validate_tx_nonce_too_low C raw =
     validation_test C raw 1337 5 100000000000000000000 (\<lambda>r. case r of Inl (NonceTooLow _ _) \<Rightarrow> True | _ \<Rightarrow> False)"

definition test_validate_tx_insufficient_balance :: "tx_codec \<Rightarrow> bytes \<Rightarrow> bool" where
  "test_validate_tx_insufficient_balance C raw =
     validation_test C raw 1337 0 1 (\<lambda>r. case r of Inl (InsufficientBalance _ _) \<Rightarrow> True | _ \<Rightarrow> False)"

definition test_decode_garbage :: "tx_codec \<Rightarrow> bool" where
  "test_decode_garbage C =
     (case decode_and_recover C [0xFF, 0x01, 0x02] of Inl (RlpDecode _) \<Rightarrow> True | _ \<Rightarrow> False)"

definition eip1559_test_tx :: tx_eip1559 where
  "eip1559_test_tx =
     \<lparr>x_chain_id = 1337, x_nonce = 42, x_gas_limit = 21000, x_max_fee_per_gas = 30000000000,
      x_max_priority_fee_per_gas = 1000000000, x_to = TxCall (repeat_byte 0xCC), x_value = 500000000000000000,
      x_input = []\<rparr>"

definition test_decode_eip1559_tx :: "tx_codec \<Rightarrow> signer \<Rightarrow> bool" where
  "test_decode_eip1559_tx C k =
     (case decode_and_recover C (sg_sign k eip1559_test_tx) of
        Inr verified \<Rightarrow>
          (let env = vt_envelope verified
           in vt_sender verified = sg_address k \<and> env_chain_id env = Some 1337 \<and> env_nonce env = 42 \<and>
              env_max_fee_per_gas env = 30000000000 \<and> env_max_priority_fee_per_gas env = Some 1000000000 \<and>
              effective_gas_tip env 10000000000 = 1000000000)
      | Inl _ \<Rightarrow> False)"

lemma legacy_tests_pass:
  assumes "signed_by C raw (legacy_envelope h) sender"
  shows "test_decode_and_recover_legacy C raw sender" "test_validate_tx_ok C raw" "test_validate_tx_wrong_chain_id C raw"
    "test_validate_tx_nonce_too_low C raw" "test_validate_tx_insufficient_balance C raw"
  by (simp_all add: signed_by_decodes [OF assms] legacy_envelope_def test_decode_and_recover_legacy_def
      validation_test_def test_validate_tx_ok_def test_validate_tx_wrong_chain_id_def
      test_validate_tx_nonce_too_low_def test_validate_tx_insufficient_balance_def validate_tx_def intrinsic_gas_def Let_def
      max_def)

lemma test_decode_garbage_passes: "decode_2718 C [0xFF, 0x01, 0x02] = Inl e \<Longrightarrow> test_decode_garbage C"
  by (simp add: test_decode_garbage_def decode_and_recover_def)

lemma test_decode_eip1559_passes:
  assumes "signer_ok C k"
  shows "test_decode_eip1559_tx C k"
proof -
  have "signed_by C (sg_sign k eip1559_test_tx) (eip1559_envelope eip1559_test_tx (sg_hash k eip1559_test_tx)) (sg_address k)"
    using assms by (simp add: signer_ok_def)
  from signed_by_decodes [OF this] show ?thesis
    by (simp add: test_decode_eip1559_tx_def effective_gas_tip_def Let_def)
      (simp add: eip1559_test_tx_def saturating_sub_def min_def)
qed

section \<open>The genesis document: types/src/genesis.rs\<close>

text \<open>\<open>n\<close> is the JSON number 1337.\<close>

definition test_genesis_json :: "'n \<Rightarrow> 'n json" where
  "test_genesis_json n =
     JObject [(''chain_id'', JNumber n),
       (''alloc'', JObject [(''0xaaaaaaaaaaaaaaaaaaaaaaaaaaaaaaaaaaaaaaaa'',
          JObject [(''balance'', JString ''0xde0b6b3a7640000'')])])]"

definition test_genesis_deserialize :: "'n alloy_serde \<Rightarrow> 'n \<Rightarrow> bool" where
  "test_genesis_deserialize A n =
     (case read_genesis A (test_genesis_json n) of
        Done genesis \<Rightarrow> gen_chain_id genesis = 1337 \<and> length (gen_alloc genesis) = 1 \<and>
          gen_gas_limit genesis = 30000000 \<and> gen_base_fee_per_gas genesis = 1000000000
      | _ \<Rightarrow> False)"

lemma test_genesis_deserialize_passes:
  assumes "number_as_u64 A n = Some 1337"
    and "address_key_de A ''0xaaaaaaaaaaaaaaaaaaaaaaaaaaaaaaaaaaaaaaaa'' = Inr a"
    and "u256_de A (JString ''0xde0b6b3a7640000'') = Inr b"
  shows "test_genesis_deserialize A n"
  using assms
  by (simp add: test_genesis_deserialize_def test_genesis_json_def read_genesis_def read_struct_def genesis_fields_def
      build_genesis_def checked_def read_u64_def read_alloc_def alloc_fields_def build_alloc_def read_u256_def field_simps
      default_gas_limit_def default_base_fee_def)

section \<open>The world state: state/src/state.rs\<close>

definition test_genesis :: "(address, genesis_alloc) btree \<Rightarrow> evm_genesis" where
  "test_genesis alloc =
     \<lparr>gen_chain_id = 1337, gen_alloc = alloc, gen_gas_limit = 30000000, gen_base_fee_per_gas = 1000000000,
      gen_coinbase = 0, gen_timestamp = 0\<rparr>"

definition funded :: "u256 \<Rightarrow> (address, genesis_alloc) btree" where
  "funded balance =
     bt_insert (repeat_byte 0xAA) \<lparr>ga_balance = balance, ga_nonce = 0, ga_code = [], ga_storage = []\<rparr> []"

definition test_from_genesis_empty :: "('b, 'a, 'k, 's, 't) state_ops \<Rightarrow> bool" where
  "test_from_genesis_empty ops \<longleftrightarrow> chain_id (es_config (from_genesis ops (test_genesis []))) = 1337"

definition test_from_genesis_with_alloc :: "('b, 'a, 'k, 's, 't) state_ops \<Rightarrow> bool" where
  "test_from_genesis_with_alloc ops \<longleftrightarrow>
     es_get_balance ops (from_genesis ops (test_genesis (funded 1000000000000000000))) (repeat_byte 0xAA) = 1000000000000000000"

definition test_vsdb_database_basic :: "('b, 'a, 'k, 's, 't) state_ops \<Rightarrow> bool" where
  "test_vsdb_database_basic ops =
     (let info = (default_info ops)\<lparr>ai_balance := 42, ai_nonce := 7\<rparr>;
          db = insert_account ops (repeat_byte 0x11) info (vsdb_new ops)
      in case db_basic ops db (repeat_byte 0x11) of
           Inr (Some loaded) \<Rightarrow> ai_balance loaded = 42 \<and> ai_nonce loaded = 7
         | _ \<Rightarrow> False)"

definition test_vsdb_database_storage :: "('b, 'a, 'k, 's, 't) state_ops \<Rightarrow> bool" where
  "test_vsdb_database_storage ops =
     (let db = insert_storage ops (repeat_byte 0x22) 5 999 (vsdb_new ops)
      in db_storage ops db (repeat_byte 0x22) 5 = Inr 999 \<and> db_storage ops db (repeat_byte 0x22) 99 = Inr 0)"

definition test_vsdb_database_block_hash :: "('b, 'a, 'k, 's, 't) state_ops \<Rightarrow> bool" where
  "test_vsdb_database_block_hash ops =
     (let hash = from_be_bytes (replicate 32 0xCC); db = insert_block_hash ops 42 hash (vsdb_new ops)
      in db_block_hash ops db 42 = Inr hash \<and> db_block_hash ops db 99 = Inr 0)"

definition test_set_balance_and_nonce :: "('b, 'a, 'k, 's, 't) state_ops \<Rightarrow> bool" where
  "test_set_balance_and_nonce ops =
     (let addr = repeat_byte 0x33;
          state1 = es_set_balance ops addr 100 (from_genesis ops (test_genesis []));
          state2 = es_set_nonce ops addr 5 state1
      in es_get_balance ops state1 addr = 100 \<and> es_get_nonce ops state2 addr = 5 \<and>
         vsdb_get_balance ops (cache_inner (es_db state2)) addr = 100 \<and>
         vsdb_get_nonce ops (cache_inner (es_db state2)) addr = 5)"

definition test_state_root_determinism :: "('b, 'a, 'k, 's, 't) state_ops \<Rightarrow> bool" where
  "test_state_root_determinism ops =
     (let root1 = fst (state_root ops (from_genesis ops (test_genesis (funded 1000))));
          root2 = fst (state_root ops (from_genesis ops (test_genesis (funded 1000))))
      in root1 = root2 \<and> root1 \<noteq> replicate 32 0)"

text \<open>
  The last assertion is about the Merkle trie: the root of a trie with one leaf has 32 bytes that are not
  all zero.
\<close>

definition one_leaf_root_ok :: "('b, 'a, 'k, 's, 't) state_ops \<Rightarrow> bool" where
  "one_leaf_root_ok ops \<longleftrightarrow>
     (\<forall>k v. \<exists>root. fst (mpt_root_hash ops (mpt_insert ops k v (mpt_new ops))) = Some root \<and>
        length root = 32 \<and> root \<noteq> replicate 32 0)"

lemma funded_alloc: "funded b = [(repeat_byte 0xAA, \<lparr>ga_balance = b, ga_nonce = 0, ga_code = [], ga_storage = []\<rparr>)]"
  by (simp add: funded_def)

lemma funded_ok: "alloc_ok (gen_alloc (test_genesis (funded b)))"
  by (simp add: test_genesis_def funded_alloc alloc_ok_def bt_ok_def)

lemma state_tests_pass:
  assumes ok: "state_ok ops"
  shows "test_from_genesis_empty ops" "test_from_genesis_with_alloc ops" "test_vsdb_database_basic ops"
    "test_vsdb_database_storage ops" "test_vsdb_database_block_hash ops" "test_set_balance_and_nonce ops"
proof -
  show "test_from_genesis_empty ops" by (simp add: test_from_genesis_empty_def from_genesis_def test_genesis_def)
  show "test_from_genesis_with_alloc ops"
    by (simp add: test_from_genesis_with_alloc_def es_get_balance_def vsdb_get_balance_def from_genesis_stored [OF ok funded_ok])
      (simp add: test_genesis_def funded_alloc)
  show "test_vsdb_database_basic ops"
    using ok by (simp add: test_vsdb_database_basic_def db_basic_def stored_to_info_def Let_def split: option.split)
  show "test_vsdb_database_storage ops"
    using ok by (simp add: test_vsdb_database_storage_def db_storage_def insert_storage_def vsdb_new_def state_ok_def
        kv_ok_simps Let_def)
  show "test_vsdb_database_block_hash ops"
    using ok by (simp add: test_vsdb_database_block_hash_def db_block_hash_def insert_block_hash_def vsdb_new_def
        state_ok_def kv_ok_simps Let_def)
  show "test_set_balance_and_nonce ops"
    using ok by (simp add: test_set_balance_and_nonce_def es_set_balance_def es_set_nonce_def es_get_balance_def
        es_get_nonce_def vsdb_get_balance_def vsdb_get_nonce_def stored_at_set hm_insert_def Let_def)
qed

lemma test_state_root_passes:
  assumes "one_leaf_root_ok ops"
  shows "test_state_root_determinism ops"
proof -
  have "\<exists>k v. es_trie (from_genesis ops (test_genesis (funded 1000))) = mpt_insert ops k v (mpt_new ops)"
    by (auto simp: from_genesis_def test_genesis_def funded_alloc genesis_account_def Let_def split_beta)
  then obtain root where "fst (mpt_root_hash ops (es_trie (from_genesis ops (test_genesis (funded 1000))))) = Some root"
    "length root = 32" "root \<noteq> replicate 32 0" using assms unfolding one_leaf_root_ok_def by metis
  then show ?thesis by (simp add: test_state_root_determinism_def state_root_def Let_def split_beta)
qed

section \<open>Executor and staking: execution/src/executor.rs, precompile/src/lib.rs\<close>

definition test_executor_creation :: "('b, 'a, 'k, 's, 't) state_ops \<Rightarrow> bool" where
  "test_executor_creation ops \<longleftrightarrow>
     chain_id (ex_config (executor_from_genesis ops (test_genesis (funded 1000000000000000000)))) = 1337"

lemma test_executor_creation_passes: "test_executor_creation ops"
  by (simp add: test_executor_creation_def ex_config_def executor_from_genesis_def Let_def from_genesis_def test_genesis_def
      split_beta)

definition test_staking_state :: bool where
  "test_staking_state =
     (let delegator = repeat_byte 0xAA; validator = repeat_byte 0x11; amount = 1000;
          s1 = delegate delegator validator amount staking_new;
          s2 = delegate delegator validator amount s1;
          (r3, s3) = unbond delegator validator 500 s2;
          (r4, s4) = unbond delegator validator 2000 s3;
          delegator2 = repeat_byte 0xBB;
          s5 = delegate delegator2 validator 300 s4
      in get_stake s1 delegator validator = amount \<and> total_stake [(delegator, validator)] s1 validator = amount \<and>
         get_stake s2 delegator validator = 2000 \<and>
         r3 = Inr () \<and> get_stake s3 delegator validator = 1500 \<and>
         (case r4 of Inl _ \<Rightarrow> True | Inr _ \<Rightarrow> False) \<and>
         total_stake [(delegator, validator), (delegator2, validator)] s5 validator = 1800)"

definition test_precompile_addresses :: bool where
  "test_precompile_addresses \<longleftrightarrow>
     BALANCES_ADDR = from_be_bytes ((replicate 20 0)[18 := 0x08]) \<and>
     STAKING_ADDR = from_be_bytes ((replicate 20 0)[18 := 0x08, 19 := 0x01])"

lemma test_addresses_differ: "repeat_byte 0xAA \<noteq> repeat_byte 0xBB"
proof -
  have "replicate 20 b = [b, b, b, b, b, b, b, b, b, b, b, b, b, b, b, b, b, b, b, b]" for b :: u8
    by (simp add: numeral_eq_Suc)
  then show ?thesis by (simp add: repeat_byte_def from_be_bytes_def)
qed

lemma test_staking_state_passes: test_staking_state
  using test_addresses_differ
  by (simp add: test_staking_state_def delegate_def unbond_def get_stake_def total_stake_def stake_slot_def staking_new_def
      hm_insert_def saturating_add_def saturating_sub_def Let_def)

lemma test_precompile_addresses_passes: test_precompile_addresses
proof -
  have "(replicate 20 (0 :: u8))[18 := x] = [0, 0, 0, 0, 0, 0, 0, 0, 0, 0, 0, 0, 0, 0, 0, 0, 0, 0, x, 0]"
    "(replicate 20 (0 :: u8))[18 := x, 19 := y] = [0, 0, 0, 0, 0, 0, 0, 0, 0, 0, 0, 0, 0, 0, 0, 0, 0, 0, x, y]" for x y
    by (simp_all add: numeral_eq_Suc)
  then show ?thesis
    by (simp add: test_precompile_addresses_def BALANCES_ADDR_def STAKING_ADDR_def from_be_bytes_def)
qed

section \<open>All of them\<close>

text \<open>
  What the tests rely on of the libraries: keys that sign transactions which decode to what was signed, hashes
  without collisions on the test's transactions, encodings of moderate length, a decoder that refuses the
  garbage, serde implementations that read the literals of the document, faithful tables, a trie.
\<close>

definition test_env ::
    "('b, 'a, 'k, 's, 't) state_ops \<Rightarrow> tx_codec \<Rightarrow> signer \<Rightarrow> bytes \<Rightarrow> address \<Rightarrow> 'n alloy_serde \<Rightarrow> 'n \<Rightarrow> bool" where
  "test_env ops C k raw sender A n \<longleftrightarrow>
     signer_ok C k \<and> hashes_differ k \<and> length (make_eip1559_tx k 0 1000000000) \<le> 1000 \<and>
     (\<exists>h. signed_by C raw (legacy_envelope h) sender) \<and> (\<exists>e. decode_2718 C [0xFF, 0x01, 0x02] = Inl e) \<and>
     number_as_u64 A n = Some 1337 \<and>
     (\<exists>a. address_key_de A ''0xaaaaaaaaaaaaaaaaaaaaaaaaaaaaaaaaaaaaaaaa'' = Inr a) \<and>
     (\<exists>b. u256_de A (JString ''0xde0b6b3a7640000'') = Inr b) \<and> state_ok ops \<and> one_leaf_root_ok ops"


text \<open>A codec that lays the fields out one after the other, with one byte for the kind of the recipient.\<close>

definition plain_sign :: "tx_eip1559 \<Rightarrow> bytes" where
  "plain_sign tx =
     be_bytes 8 (x_chain_id tx) @ be_bytes 8 (x_nonce tx) @ be_bytes 8 (x_gas_limit tx) @
     be_bytes 16 (x_max_fee_per_gas tx) @ be_bytes 16 (x_max_priority_fee_per_gas tx) @ be_bytes 32 (x_value tx) @
     (case x_to tx of TxCall a \<Rightarrow> be_bytes 20 a @ [1] | TxCreate \<Rightarrow> be_bytes 20 (0 :: address) @ [0]) @ x_input tx"

definition plain_hash :: "tx_eip1559 \<Rightarrow> b256" where
  "plain_hash tx = from_be_bytes (be_bytes 8 (x_nonce tx) @ be_bytes 16 (x_max_priority_fee_per_gas tx))"

definition plain_tx :: "bytes \<Rightarrow> tx_eip1559" where
  "plain_tx raw =
     \<lparr>x_chain_id = from_be_bytes (take 8 raw), x_nonce = from_be_bytes (take 8 (drop 8 raw)),
      x_gas_limit = from_be_bytes (take 8 (drop 16 raw)), x_max_fee_per_gas = from_be_bytes (take 16 (drop 24 raw)),
      x_max_priority_fee_per_gas = from_be_bytes (take 16 (drop 40 raw)),
      x_to = (if raw ! 108 = 1 then TxCall (from_be_bytes (take 20 (drop 88 raw))) else TxCreate),
      x_value = from_be_bytes (take 32 (drop 56 raw)), x_input = drop 109 raw\<rparr>"

definition plain_codec :: tx_codec where
  "plain_codec =
     \<lparr>decode_2718 = (\<lambda>raw. if raw = [2] then Inr (legacy_envelope 0)
                           else if length raw < 109 then Inl ''input too short''
                           else Inr (eip1559_envelope (plain_tx raw) (plain_hash (plain_tx raw)))),
      recover_signer = (\<lambda>_. Inr 5)\<rparr>"

definition plain_signer :: signer where
  "plain_signer = \<lparr>sg_sign = plain_sign, sg_hash = plain_hash, sg_address = 5\<rparr>"

lemma plain_tx_sign: "plain_tx (plain_sign tx) = tx"
  by (cases tx, cases "x_to tx")
    (simp_all add: plain_tx_def plain_sign_def from_be_bytes_be_bytes nth_append)

lemma plain_signer_ok: "signer_ok plain_codec plain_signer"
proof -
  have "\<not> length (plain_sign tx) < 109" "plain_sign tx \<noteq> [2]" for tx
  proof -
    show len: "\<not> length (plain_sign tx) < 109" by (simp add: plain_sign_def split: tx_kind.split)
    show "plain_sign tx \<noteq> [2]" using len by auto
  qed
  then show ?thesis by (simp add: signer_ok_def signed_by_def plain_codec_def plain_signer_def plain_tx_sign)
qed

lemma hash_bytes:
  "be_bytes 24 (from_be_bytes (be_bytes 8 n @ be_bytes 16 t) :: b256) = be_bytes 8 n @ be_bytes 16 t" for n :: u64 and t :: u128
  using be_bytes_from_be_bytes [of "be_bytes 8 n @ be_bytes 16 t", where 'a = 256] by simp

lemma plain_hashes_differ: "hashes_differ plain_signer"
  unfolding hashes_differ_def
proof (intro allI impI)
  fix n t n' t'
  assume "sg_hash plain_signer (pool_test_tx n t) = sg_hash plain_signer (pool_test_tx n' t')"
  then have eq: "(from_be_bytes (be_bytes 8 n @ be_bytes 16 t) :: b256) = from_be_bytes (be_bytes 8 n' @ be_bytes 16 t')"
    by (simp add: plain_signer_def plain_hash_def)
  have "be_bytes 8 n @ be_bytes 16 t = be_bytes 8 n' @ be_bytes 16 t'"
    using arg_cong [OF eq, of "be_bytes 24"] unfolding hash_bytes .
  then have "be_bytes 8 n = be_bytes 8 n'" "be_bytes 16 t = be_bytes 16 t'" by simp_all
  from arg_cong [OF this(1), of "from_be_bytes :: bytes \<Rightarrow> u64"] arg_cong [OF this(2), of "from_be_bytes :: bytes \<Rightarrow> u128"]
  show "n = n' \<and> t = t'" by (simp add: from_be_bytes_be_bytes)
qed


end
