(* ===== verification/E2e.thy ===== *)
theory E2e
  imports Running_Node Unit_Tests
begin

text \<open>
  The end-to-end test of the repository, \<^verbatim>\<open>crates/node/tests/e2e_rpc.rs\<close>: a client that asks a running node over
  JSON-RPC. Requests go through the body of an HTTP request and come back as the body of the response. What
  the node does between two requests is an argument: before the transaction is sent, it executes and
  commits empty blocks, builds proposals and hears from peers (\<open>quiet_step\<close>); afterwards it may do anything,
  other clients included.

  The setup is modelled up to the command lines of the four processes; the test then follows the one that is
  asked. That consensus produces a block within the deadline is up to the engine and a hypothesis. Processes,
  directories and printing are not modelled.
\<close>

section \<open>The client\<close>

definition rpc_url :: "string \<Rightarrow> u16 \<Rightarrow> string" where
  "rpc_url host port =
     (if CHR '':'' \<in> set host then ''http://['' @ host @ '']:'' @ show_dec port @ ''/''
      else ''http://'' @ host @ '':'' @ show_dec port @ ''/'')"

text \<open>
  \<^verbatim>\<open>setup_and_start\<close>: the processes started and the port that the test asks; \<open>cluster\<close> is \<^verbatim>\<open>init_evm_cluster\<close> for a
  number of validators and \<open>binary\<close> the result of the build.
\<close>

definition NUM_VALIDATORS :: u32 where
  "NUM_VALIDATORS = 4"

definition setup_and_start ::
    "(u32 \<Rightarrow> (string, 'cl \<times> u16 list) outcome \<times> string list) \<Rightarrow> string + string \<Rightarrow> (u16 \<Rightarrow> string) \<Rightarrow>
     ('cl \<Rightarrow> cluster_validator list) \<Rightarrow> (unit, string list list \<times> u16) outcome" where
  "setup_and_start cluster binary host_port validators_of =
     (case fst (cluster NUM_VALIDATORS) of
        Done (state, eth_rpc_ports) \<Rightarrow>
          (case binary of
             Inl _ \<Rightarrow> Panic
           | Inr bin \<Rightarrow>
               (case start_evm_nodes host_port bin (validators_of state) eth_rpc_ports of
                  (children, started) \<Rightarrow>
                    if started \<and> eth_rpc_ports \<noteq> [] then Done (children, eth_rpc_ports ! 0) else Panic))
      | _ \<Rightarrow> Panic)"

text \<open>\<^verbatim>\<open>rpc_call\<close> and \<^verbatim>\<open>try_rpc_call\<close>: the answer, if it is JSON, and the node after it.\<close>

definition rpc_call ::
    "('b, 'a, 'k, 's, 't) state_ops \<Rightarrow> ('b, 'a, 'k, 's) evm_fns \<Rightarrow> 'n rpc_fns \<Rightarrow> tx_codec \<Rightarrow> (int \<Rightarrow> 'n) \<Rightarrow>
     ('b, 'a, 'k, 's, 't) running_node \<Rightarrow> string \<Rightarrow> 'n json \<Rightarrow> 'n json option \<times> ('b, 'a, 'k, 's, 't) running_node" where
  "rpc_call ops F R C number n m params =
     (case serve_body ops F R C number (request_body (number 1) m params) (rn_server n) of
        (r, server) \<Rightarrow> (reply r, n\<lparr>rn_server := server\<rparr>))"

definition height_of_response :: "'n json \<Rightarrow> u64 option" where
  "height_of_response resp =
     Option.bind (as_str (json_index resp ''result'')) (\<lambda>hex. result_ok (from_str_radix16 (strip_0x hex)))"

text \<open>\<^verbatim>\<open>wait_for_blocks\<close>: each reading is the clock and then what the call returned.\<close>

fun wait_for_height :: "u64 \<Rightarrow> nat \<Rightarrow> (nat \<times> 'n json option) list \<Rightarrow> bool option" where
  "wait_for_height min_height deadline [] = None"
| "wait_for_height min_height deadline ((now, answer) # readings) =
     (if \<not> now < deadline then Some False
      else (case Option.bind answer height_of_response of
              Some h \<Rightarrow> if min_height \<le> h then Some True else wait_for_height min_height deadline readings
            | None \<Rightarrow> wait_for_height min_height deadline readings))"

section \<open>The test\<close>

definition e2e_genesis :: "address \<Rightarrow> evm_genesis" where
  "e2e_genesis funded_addr =
     \<lparr>gen_chain_id = 1337,
      gen_alloc = bt_insert funded_addr
        \<lparr>ga_balance = 100 * 1000000000000000000, ga_nonce = 0, ga_code = [], ga_storage = []\<rparr> [],
      gen_gas_limit = 30000000, gen_base_fee_per_gas = 1000000000, gen_coinbase = 0, gen_timestamp = 0\<rparr>"

definition e2e_tx :: tx_eip1559 where
  "e2e_tx =
     \<lparr>x_chain_id = 1337, x_nonce = 0, x_gas_limit = 21000, x_max_fee_per_gas = 2000000000,
      x_max_priority_fee_per_gas = 1000000000, x_to = TxCall (repeat_byte 0x42), x_value = 1000000000000000000,
      x_input = []\<rparr>"

text \<open>One call with its assertion, followed by the rest of the test; a missing answer is a panic.\<close>

definition expect_answer ::
    "'n json option \<times> 'node \<Rightarrow> ('n json \<Rightarrow> bool) \<Rightarrow> ('node \<Rightarrow> bool) \<Rightarrow> bool" where
  "expect_answer answer check rest =
     (case answer of (Some resp, n) \<Rightarrow> check resp \<and> rest n | (None, _) \<Rightarrow> False)"

definition result_is :: "'n json \<Rightarrow> string \<Rightarrow> bool" where
  "result_is resp s \<longleftrightarrow> as_str (json_index resp ''result'') = Some s"

definition balance_is :: "'n rpc_fns \<Rightarrow> 'n json \<Rightarrow> u256 \<Rightarrow> bool" where
  "balance_is R resp v \<longleftrightarrow>
     (case Option.bind (as_str (json_index resp ''result'')) strip_prefix_0x of
        Some s \<Rightarrow> u256_from_str_radix16 R s = Inr v
      | None \<Rightarrow> False)"

text \<open>The answer to the transaction: a hash, or an error object, whose message is then printed.\<close>

definition sent_or_refused :: "'n json \<Rightarrow> bool" where
  "sent_or_refused resp =
     (case as_str (json_index resp ''result'') of
        Some hash \<Rightarrow> take 2 hash = ''0x'' \<and> length hash = 66
      | None \<Rightarrow> (case json_index resp ''error'' of JObject ms \<Rightarrow> map_of ms ''message'' \<noteq> None | _ \<Rightarrow> True))"

text \<open>
  \<open>busy i\<close> is what the node does before the \<open>i\<close>-th call; \<open>polls\<close> are the answers to the polls of the height,
  with their times.
\<close>

definition e2e_ethereum_rpc ::
    "('b, 'a, 'k, 's, 't) state_ops \<Rightarrow> ('b, 'a, 'k, 's) evm_fns \<Rightarrow> 'n rpc_fns \<Rightarrow> tx_codec \<Rightarrow> (int \<Rightarrow> 'n) \<Rightarrow> signer \<Rightarrow>
     nat \<Rightarrow> (nat \<times> 'n json option) list \<Rightarrow>
     (nat \<Rightarrow> ('b, 'a, 'k, 's, 't) running_node \<Rightarrow> ('b, 'a, 'k, 's, 't) running_node) \<Rightarrow>
     ('b, 'a, 'k, 's, 't) running_node \<Rightarrow> bool" where
  "e2e_ethereum_rpc ops F R C number signer deadline polls busy n =
     (let call = (\<lambda>i n m ps. rpc_call ops F R C number (busy i n) m (JArray ps));
          addr = JString (''0x'' @ hex_string F (addr_slice (sg_address signer)));
          latest = JString ''latest'';
          raw_tx = sg_sign signer e2e_tx
      in wait_for_height 1 deadline polls = Some True \<and>
     expect_answer (call 1 n ''eth_chainId'' []) (\<lambda>r. result_is r ''0x539'') (\<lambda>n.
     expect_answer (call 2 n ''web3_clientVersion'' [])
       (\<lambda>r. map_option (take 5) (as_str (json_index r ''result'')) = Some ''nbnet'') (\<lambda>n.
     expect_answer (call 3 n ''eth_getBalance'' [addr, latest]) (\<lambda>r. balance_is R r (100 * 1000000000000000000)) (\<lambda>n.
     expect_answer (call 4 n ''eth_getTransactionCount'' [addr, latest]) (\<lambda>r. result_is r ''0x0'') (\<lambda>n.
     expect_answer (call 5 n ''eth_gasPrice'' []) (\<lambda>r. result_is r ''0x3b9aca00'') (\<lambda>n.
     expect_answer (call 6 n ''eth_syncing'' []) (\<lambda>r. json_index r ''result'' = JBool False) (\<lambda>n.
     expect_answer (call 7 n ''eth_sendRawTransaction'' [JString (''0x'' @ hex_string F raw_tx)]) sent_or_refused (\<lambda>n.
     expect_answer (call 8 n ''eth_feeHistory'' [JString ''0x1'', latest, JArray [JNumber (number 25), JNumber (number 75)]])
       (\<lambda>r. as_array (json_index (json_index r ''result'') ''baseFeePerGas'') \<noteq> None) (\<lambda>n.
     expect_answer (call 9 n ''eth_getBlockByNumber'' [latest, JBool False])
       (\<lambda>r. as_str (json_index (json_index r ''result'') ''gasLimit'') \<noteq> None) (\<lambda>n.
     expect_answer (call 10 n ''net_version'' []) (\<lambda>r. result_is r ''1337'') (\<lambda>n.
     expect_answer (call 11 n ''eth_accounts'' []) (\<lambda>r. as_array (json_index r ''result'') = Some []) (\<lambda>n.
     expect_answer (call 12 n ''nonexistent_method'' [])
       (\<lambda>r. (case json_index r ''error'' of
               JObject ms \<Rightarrow> map_of ms ''code'' = Some (JNumber (number (- 32601)))
             | _ \<Rightarrow> False))
       (\<lambda>_. True)))))))))))))"

section \<open>A node that executes no transactions\<close>

fun no_txs :: "app_call \<Rightarrow> bool" where
  "no_txs (CallExecuteBlock ks ord txs ctx) \<longleftrightarrow> txs = []"
| "no_txs _ \<longleftrightarrow> True"

text \<open>The steps of the node without the requests and with empty blocks only.\<close>

inductive quiet_step ::
    "('b, 'a, 'k, 's, 't) state_ops \<Rightarrow> ('b, 'a, 'k, 's) evm_fns \<Rightarrow> tx_codec \<Rightarrow>
     ('b, 'a, 'k, 's, 't) running_node \<Rightarrow> ('b, 'a, 'k, 's, 't) running_node \<Rightarrow> bool"
  for ops :: "('b, 'a, 'k, 's, 't) state_ops" and F :: "('b, 'a, 'k, 's) evm_fns" and C :: tx_codec where
  dropped: "rn_inflight n = None \<Longrightarrow> app_validate_tx ops C (rn_executor n) raw = TvReject \<Longrightarrow> quiet_step ops F C n n"
| validated: "rn_inflight n = None \<Longrightarrow> app_validate_tx ops C (rn_executor n) raw = TvAccept p gas \<Longrightarrow>
     quiet_step ops F C n (n\<lparr>rn_inflight := Some (raw, p, gas)\<rparr>)"
| added: "rn_inflight n = Some (raw, p, gas) \<Longrightarrow>
     adapter_add_tx C (ex_state (rn_executor n)) (ex_txpool (rn_executor n)) raw p gas = (taken, pool) \<Longrightarrow>
     quiet_step ops F C n ((with_executor ((rn_executor n)\<lparr>ex_txpool := pool\<rparr>) n)\<lparr>rn_inflight := None\<rparr>)"
| engine: "engine_may n call \<Longrightarrow> no_txs call \<Longrightarrow> shared_executor ops F C call (rn_executor n) = (result, ex) \<Longrightarrow>
     quiet_step ops F C n ((with_executor ex n)\<lparr>rn_open := opened call (rn_open n)\<rparr>)"

inductive_cases quiet_stepE: "quiet_step ops F C n n'"

lemma with_same_executor [simp]: "with_executor (rn_executor n) n = n"
  by (simp add: with_executor_def)

lemma quiet_step_node:
  assumes "quiet_step ops F C n n'"
  shows "node_step ops F R C number n n'"
  using assms
proof cases
  case (dropped raw)
  then show ?thesis using node_step.dropped [of n ops F C raw "rn_executor n" R number] by simp
next
  case (validated raw p gas)
  then show ?thesis using node_step.validated [of n ops F C raw p gas "rn_executor n" R number] by simp
next
  case (added raw p gas taken pool)
  then show ?thesis by (simp add: node_step.added)
next
  case (engine call result ex)
  then show ?thesis by (simp add: node_step.engine)
qed

text \<open>What the calls before the transaction depend on.\<close>

definition untouched ::
    "('b, 'a, 'k, 's, 't) state_ops \<Rightarrow> ('b, 'a, 'k, 's, 't) evm_rpc_state \<Rightarrow> ('b, 'a, 'k, 's, 't) evm_rpc_state \<Rightarrow> bool" where
  "untouched ops s s' \<longleftrightarrow>
     rpc_chain_id s' = rpc_chain_id s \<and> ex_config (rpc_executor s') = ex_config (rpc_executor s) \<and>
     (\<forall>a. es_get_balance ops (ex_state (rpc_executor s')) a = es_get_balance ops (ex_state (rpc_executor s)) a \<and>
          es_get_nonce ops (ex_state (rpc_executor s')) a = es_get_nonce ops (ex_state (rpc_executor s)) a)"

lemma empty_block_keeps:
  assumes ok: "state_ok ops" and run: "execute_block ops F C ks ord [] ctx ex = (root, ex')"
  shows "es_config (ex_state ex') = es_config (ex_state ex)"
    "es_get_nonce ops (ex_state ex') a = es_get_nonce ops (ex_state ex) a"
    "es_get_balance ops (ex_state ex') a = es_get_balance ops (ex_state ex) a"
proof -
  let ?st = "block_start ops ctx ex"
  have state: "ex_state ex' = snd (state_root ops (flush_cache_to_vsdb ops ks ord ?st))"
    using run by (rule execute_block_unfold) simp
  show "es_config (ex_state ex') = es_config (ex_state ex)"
    by (simp add: state state_root_def flush_cache_to_vsdb_def block_start_def record_block_hash_def Let_def split_beta)
  show "es_get_nonce ops (ex_state ex') a = es_get_nonce ops (ex_state ex) a"
    unfolding state after_block_nonce [OF ok] block_start_nonce ..
  have "es_get_balance ops (ex_state ex') a = es_get_balance ops ?st a"
    using ok
    by (cases "cache_accounts (es_db ?st) a")
      (simp_all add: state state_root_def Let_def split_beta flush_cache_to_vsdb_def es_get_balance_def
        vsdb_get_balance_def flush_accounts_at)
  also have "\<dots> = es_get_balance ops (ex_state ex) a"
    by (simp add: block_start_def es_get_balance_def record_block_hash_def Let_def insert_block_hash_def
        vsdb_get_balance_def stored_at_def split: option.split)
  finally show "es_get_balance ops (ex_state ex') a = es_get_balance ops (ex_state ex) a" .
qed

lemma quiet_call_keeps:
  assumes ok: "state_ok ops" and "no_txs call" "shared_executor ops F C call ex = (result, ex')"
  shows "ex_config ex' = ex_config ex \<and>
     es_get_nonce ops (ex_state ex') a = es_get_nonce ops (ex_state ex) a \<and>
     es_get_balance ops (ex_state ex') a = es_get_balance ops (ex_state ex) a"
proof (cases call)
  case (CallExecuteBlock ks ord txs ctx)
  then have "\<exists>root. execute_block ops F C ks ord [] ctx ex = (root, ex')"
    using assms(2,3) by (cases "execute_block ops F C ks ord [] ctx ex") auto
  then show ?thesis using empty_block_keeps [OF ok] by (fastforce simp: ex_config_def)
qed (use assms(3) in \<open>auto simp: ex_config_def create_payload_def app_on_commit_def Let_def split_beta\<close>)

lemma quiet_untouched:
  assumes ok: "state_ok ops" and "quiet_step ops F C n n'"
  shows "untouched ops (rn_server n) (rn_server n')"
  using assms(2)
proof cases
  case (engine call result ex)
  then show ?thesis using quiet_call_keeps [OF ok engine(3,4)] by (simp add: untouched_def)
qed (simp_all add: untouched_def ex_config_def)

lemma untouched_trans: "untouched ops s s' \<Longrightarrow> untouched ops s' s'' \<Longrightarrow> untouched ops s s''"
  by (simp add: untouched_def)

lemma quiet_run_untouched:
  "state_ok ops \<Longrightarrow> (quiet_step ops F C)\<^sup>*\<^sup>* n n' \<Longrightarrow> untouched ops (rn_server n) (rn_server n')"
  by (rotate_tac, induction rule: rtranclp_induct) (auto simp: untouched_def [of _ s s for s] intro: untouched_trans quiet_untouched)

text \<open>The chain id is never changed, whatever the node does.\<close>

lemma serve_chain_id: "rpc_chain_id (snd (serve_body ops F R C number body s)) = rpc_chain_id s"
proof -
  have "rpc_chain_id (snd (handle_rpc ops F R C req s)) = rpc_chain_id s" for req
    by (auto simp: handle_rpc_def dispatch_def rpc_estimate_gas_def rpc_send_raw_transaction_def rpc_eth_call_def Let_def
        split_beta split: sum.split option.split)
  then show ?thesis using serve_body_cases [of body ops F R C number s] by (metis snd_conv)
qed

lemma node_run_chain_id:
  "(node_step ops F R C number)\<^sup>*\<^sup>* n n' \<Longrightarrow> rpc_chain_id (rn_server n') = rpc_chain_id (rn_server n)"
  by (induction rule: rtranclp_induct) (auto elim!: node_stepE simp: serve_chain_id)

section \<open>The calls\<close>

lemma rpc_call_answers:
  "rpc_call ops F R C number n m params =
     (case dispatch ops F R C (rn_server n) (rpc_request (number 1) m (to_value params)) of
        (resp, server) \<Rightarrow> (Some (response_json number resp), n\<lparr>rn_server := server\<rparr>))"
  by (simp add: rpc_call_def serve_body_def read_request_body handle_rpc_def reply_def split_beta)

lemma printed_constants:
  "show_hex (1337 :: u64) = ''539''" "show_dec (1337 :: u64) = ''1337''" "show_hex (1000000000 :: u64) = ''3b9aca00''"
  "show_hex (0 :: u64) = ''0''"
  by (simp_all add: show_hex_def show_dec_def show_base.simps hex_digit_def char_of_def bit_0)

text \<open>A call of a method that only reads leaves the node as it is.\<close>

lemma expect_read:
  assumes "dispatch_read ops F R (rn_server n) (rpc_request (number 1) m (to_value params)) = Some r"
    and "m \<notin> {''eth_estimateGas'', ''eth_sendRawTransaction'', ''eth_call''}"
    and "check (response_json number r)" "rest n"
  shows "expect_answer (rpc_call ops F R C number n m params) check rest"
  using assms by (simp add: expect_answer_def rpc_call_answers dispatch_def rpc_request_def)

definition e2e_ready :: "('b, 'a, 'k, 's, 't) state_ops \<Rightarrow> address \<Rightarrow> ('b, 'a, 'k, 's, 't) running_node \<Rightarrow> bool" where
  "e2e_ready ops a n \<longleftrightarrow>
     rpc_chain_id (rn_server n) = 1337 \<and> base_fee_per_gas (ex_config (rn_executor n)) = 1000000000 \<and>
     es_get_balance ops (ex_state (rn_executor n)) a = 100 * 1000000000000000000 \<and>
     es_get_nonce ops (ex_state (rn_executor n)) a = 0"

lemma e2e_ready_keeps: "e2e_ready ops a n \<Longrightarrow> untouched ops (rn_server n) (rn_server n') \<Longrightarrow> e2e_ready ops a n'"
  by (simp add: e2e_ready_def untouched_def)

lemma parse_client_addr:
  assumes "hex_ok F R"
  shows "\<exists>block. parse_addr_block R (JArray (JString (CHR ''0'' # CHR ''x'' # hex_string F (addr_slice a)) # rest)) = Inr (a, block)"
  using parse_addr_block_json [OF assms, of a rest] by (simp add: addr_json_def hex_0x_def)

lemma e2e_reads:
  assumes "e2e_ready ops a n" "rest n"
  shows "expect_answer (rpc_call ops F R C number n ''eth_chainId'' (JArray [])) (\<lambda>r. result_is r ''0x539'') rest"
    "expect_answer (rpc_call ops F R C number n ''web3_clientVersion'' (JArray []))
       (\<lambda>r. map_option (take 5) (as_str (json_index r ''result'')) = Some ''nbnet'') rest"
    "expect_answer (rpc_call ops F R C number n ''eth_gasPrice'' (JArray [])) (\<lambda>r. result_is r ''0x3b9aca00'') rest"
    "expect_answer (rpc_call ops F R C number n ''eth_syncing'' (JArray [])) (\<lambda>r. json_index r ''result'' = JBool False) rest"
  using assms
  by (auto intro!: expect_read simp: dispatch_read_def rpc_request_def Let_def e2e_ready_def result_is_def to_hex_u64_def
      printed_constants)

lemma e2e_account_reads:
  assumes hex: "hex_ok F R" and "u256_text_ok R" "e2e_ready ops a n" "rest n"
  shows "expect_answer (rpc_call ops F R C number n ''eth_getBalance''
       (JArray [JString (''0x'' @ hex_string F (addr_slice a)), JString ''latest'']))
       (\<lambda>r. balance_is R r (100 * 1000000000000000000)) rest"
    "expect_answer (rpc_call ops F R C number n ''eth_getTransactionCount''
       (JArray [JString (''0x'' @ hex_string F (addr_slice a)), JString ''latest''])) (\<lambda>r. result_is r ''0x0'') rest"
  using assms parse_client_addr [OF hex, of a "[JString ''latest'']"]
  by (auto intro!: expect_read simp: dispatch_read_def rpc_request_def rpc_get_balance_def rpc_get_transaction_count_def
      Let_def e2e_ready_def balance_is_def result_is_def to_hex_u64_def to_hex_u256_def strip_prefix_0x_def
      u256_text_ok_def printed_constants)

definition hex_len :: "('b, 'a, 'k, 's) evm_fns \<Rightarrow> bool" where
  "hex_len F \<longleftrightarrow> (\<forall>bs. length (hex_string F bs) = 2 * length bs)"

text \<open>The transaction is taken or refused; either way only executor and network sink change.\<close>

lemma e2e_send:
  assumes len: "hex_len F"
    and rest: "\<And>n'. rpc_chain_id (rn_server n') = rpc_chain_id (rn_server n) \<Longrightarrow> rest n'"
  shows "expect_answer (rpc_call ops F R C number n ''eth_sendRawTransaction'' params) sent_or_refused rest"
proof -
  let ?req = "rpc_request (number 1) ''eth_sendRawTransaction'' (to_value params)"
  obtain resp server where d: "dispatch ops F R C (rn_server n) ?req = (resp, server)" by fastforce
  have send: "rpc_send_raw_transaction F R C (rn_server n) ?req = (resp, server)"
    using d by (simp add: dispatch_def rpc_request_def)
  have id: "rpc_chain_id server = rpc_chain_id (rn_server n)"
    using send by (auto simp: rpc_send_raw_transaction_def Let_def split: sum.splits prod.splits)
  have "(\<exists>h. resp = response_ok (req_id ?req) (JString (hex_0x F (be_bytes 32 (h :: b256))))) \<or>
      (\<exists>c msg. resp = response_err (req_id ?req) c msg)"
    using send by (auto simp: rpc_send_raw_transaction_def invalid_params_def Let_def split: sum.splits prod.splits)
  then have "sent_or_refused (response_json number resp)"
    using len by (auto simp: sent_or_refused_def response_json_def response_ok_def response_err_def hex_0x_def hex_len_def)
  then show ?thesis using rest [of "n\<lparr>rn_server := server\<rparr>"] id by (simp add: expect_answer_def rpc_call_answers d)
qed

lemma e2e_late_reads:
  assumes "rpc_chain_id (rn_server n) = 1337" "rest n"
  shows "expect_answer (rpc_call ops F R C number n ''eth_feeHistory'' (JArray params))
       (\<lambda>r. as_array (json_index (json_index r ''result'') ''baseFeePerGas'') \<noteq> None) rest"
    "expect_answer (rpc_call ops F R C number n ''eth_getBlockByNumber'' (JArray params))
       (\<lambda>r. as_str (json_index (json_index r ''result'') ''gasLimit'') \<noteq> None) rest"
    "expect_answer (rpc_call ops F R C number n ''net_version'' (JArray [])) (\<lambda>r. result_is r ''1337'') rest"
    "expect_answer (rpc_call ops F R C number n ''eth_accounts'' (JArray []))
       (\<lambda>r. as_array (json_index r ''result'') = Some []) rest"
  using assms
  by (auto intro!: expect_read simp: dispatch_read_def rpc_request_def rpc_fee_history_def rpc_get_block_by_number_def Let_def
      result_is_def to_hex_u64_def printed_constants)

lemma e2e_unknown:
  "rest n \<Longrightarrow> expect_answer (rpc_call ops F R C number n ''nonexistent_method'' params)
     (\<lambda>r. (case json_index r ''error'' of
             JObject ms \<Rightarrow> map_of ms ''code'' = Some (JNumber (number (- 32601)))
           | _ \<Rightarrow> False)) rest"
  by (simp add: expect_answer_def rpc_call_answers dispatch_def dispatch_read_def rpc_request_def response_json_def
      response_err_def)

lemma height_polled:
  "fst (rpc_call ops F R C number n ''eth_blockNumber'' (JArray [])) = Some resp \<Longrightarrow>
     height_of_response resp = Some (ex_block_height (rn_executor n))"
  by (auto simp: rpc_call_answers dispatch_def dispatch_read_def rpc_request_def Let_def height_of_response_def
      to_hex_u64_def from_str_radix16_show_hex)

lemma wait_for_height_sees:
  "(now, Some resp) \<in> set polls \<Longrightarrow> height_of_response resp = Some h \<Longrightarrow> min_height \<le> h \<Longrightarrow>
     \<forall>p \<in> set polls. fst p < deadline \<Longrightarrow> wait_for_height min_height deadline polls = Some True"
  by (induction polls) (auto split: option.split)

text \<open>
  The setup starts a process per validator, and the port that is asked is the one the first of them got on its
  command line.
\<close>

lemma setup_and_start_asks_first:
  assumes ok: "ports_ok f 12" and init: "init_evm_cluster f ic json wr ld NUM_VALIDATORS = (Done (state, eth), written)"
    and vs: "length (validators_of state) = 4"
  shows "\<exists>children. setup_and_start (init_evm_cluster f ic json wr ld) (Inr bin) hp validators_of = Done (children, eth ! 0) \<and>
     length children = 4 \<and>
     children ! 0 = [bin, ''--home'', cv_home_dir (validators_of state ! 0), ''node'', ''--rpc-addr'', hp (eth ! 0)]"
proof -
  obtain p r eth' where split: "split_ports f 4 = Done (p, r, eth')" "length eth' = unat (4 :: u32)"
    using split_ports_Done [of f 4] ok by auto
  with init have "eth = eth'" by (auto simp: init_evm_cluster_def NUM_VALIDATORS_def split: sum.splits prod.splits)
  then have len: "length eth = 4" using split(2) by simp
  let ?cmds = "map (\<lambda>(v, p). [bin, ''--home'', cv_home_dir v, ''node'', ''--rpc-addr'', hp p]) (zip (validators_of state) eth)"
  have "start_evm_nodes hp bin (validators_of state) eth = (?cmds, True)"
    using start_loop_all [of 0 "validators_of state" eth hp bin] len vs by (simp add: start_evm_nodes_def)
  moreover have "eth \<noteq> []" using len by auto
  ultimately show ?thesis using len vs by (simp add: setup_and_start_def init)
qed

section \<open>The test passes\<close>

lemma e2e_started:
  assumes ok: "state_ok ops" and start: "start_application ops (e2e_genesis a) True = (ex, Some server)"
  shows "e2e_ready ops a (node_start server)"
proof -
  have alloc: "alloc_ok (gen_alloc (e2e_genesis a))" by (simp add: e2e_genesis_def alloc_ok_def bt_ok_def)
  have "es_get_balance ops (from_genesis ops (e2e_genesis a)) a = 100 * 1000000000000000000"
    by (simp add: es_get_balance_def vsdb_get_balance_def from_genesis_stored [OF ok alloc])
      (simp add: e2e_genesis_def)
  moreover have "es_get_nonce ops (from_genesis ops (e2e_genesis a)) a = 0"
    using from_genesis_nonce [OF ok alloc, of a] by (simp add: e2e_genesis_def)
  moreover have "base_fee_per_gas (es_config (from_genesis ops (e2e_genesis a))) = 1000000000"
    by (simp add: from_genesis_def split_beta e2e_genesis_def)
  moreover have "ex_state (rpc_executor server) = from_genesis ops (e2e_genesis a)" "rpc_chain_id server = 1337"
    using start by (auto simp: start_application_def Let_def setup_nonce_fn_def executor_from_genesis_def e2e_genesis_def)
  ultimately show ?thesis by (simp add: e2e_ready_def node_start_def ex_config_def)
qed



end
