(* ===== verification/Replica.thy ===== *)
theory Replica
  imports Chain_Machine
begin

text \<open>
  Validators must compute the same application hash for the same block. Here two nodes with the same
  genesis execute the same blocks while each has its own submissions, proposals and commits, and its
  own order of iteration over the cache's hash maps, and their results are compared.

  The libraries are assumed to be deterministic in what they can see: the trie's root depends only on
  the entries it holds (\<open>trie_ok\<close>), and the EVM reads the store only through the database trait, writes
  only the cache, and caches code under its own hash (\<open>evm_reads_ok\<close>, \<open>evm_code_ok\<close>).

  Dry runs are the exception, treated in the last section: they fill the cache, the flush of the next
  block writes all of it, and so a node that has served one can leave the others.
\<close>

section \<open>What can be read\<close>

definition code_at ::
    "('b, 'a, 'k, 's, 't) state_ops \<Rightarrow> ('a, 'k, 's) vsdb_state_db \<Rightarrow> b256 \<Rightarrow> bytes option" where
  "code_at ops db h = kv_get (code_kv ops) (vs_contracts db) (be_bytes 32 h)"

text \<open>Two stores with the same tables, and two that revm cannot tell apart.\<close>

definition same_store ::
    "('b, 'a, 'k, 's, 't) state_ops \<Rightarrow> ('a, 'k, 's) vsdb_state_db \<Rightarrow> ('a, 'k, 's) vsdb_state_db \<Rightarrow> bool" where
  "same_store ops d e \<longleftrightarrow>
     (\<forall>a. stored_at ops d a = stored_at ops e a) \<and> (\<forall>a s. slot_at ops d a s = slot_at ops e a s) \<and>
     (\<forall>h. code_at ops d h = code_at ops e h) \<and> (\<forall>n. block_hash_ref ops d n = block_hash_ref ops e n)"

definition same_reads ::
    "('b, 'a, 'k, 's, 't) state_ops \<Rightarrow> ('a, 'k, 's) vsdb_state_db \<Rightarrow> ('a, 'k, 's) vsdb_state_db \<Rightarrow> bool" where
  "same_reads ops d e \<longleftrightarrow>
     (\<forall>a. basic_ref ops d a = basic_ref ops e a) \<and> (\<forall>h. code_by_hash_ref ops d h = code_by_hash_ref ops e h) \<and>
     (\<forall>a s. storage_ref ops d a s = storage_ref ops e a s) \<and> (\<forall>n. block_hash_ref ops d n = block_hash_ref ops e n)"

lemma same_store_refl [simp]: "same_store ops d d"
  by (simp add: same_store_def)

lemma same_store_sym: "same_store ops d e \<Longrightarrow> same_store ops e d"
  by (simp add: same_store_def)

lemma same_store_reads: "same_store ops d e \<Longrightarrow> same_reads ops d e"
  by (simp add: same_store_def same_reads_def basic_ref_def code_by_hash_ref_def storage_ref_def
      code_at_def slot_at_def Let_def split: option.split)

lemma same_store_getters:
  assumes "same_store ops d e"
  shows "vsdb_get_nonce ops d a = vsdb_get_nonce ops e a" "vsdb_get_balance ops d a = vsdb_get_balance ops e a"
    "vsdb_get_storage ops d a s = vsdb_get_storage ops e a s" "vsdb_get_code ops d a = vsdb_get_code ops e a"
  using assms
  by (simp_all add: same_store_def vsdb_get_nonce_def vsdb_get_balance_def vsdb_get_storage_slot
      vsdb_get_code_def code_at_def Let_def split: option.split)

section \<open>The libraries\<close>

definition trie_ok ::
    "('b, 'a, 'k, 's, 't) state_ops \<Rightarrow> ('t \<Rightarrow> bytes \<rightharpoonup> bytes) \<Rightarrow> bool" where
  "trie_ok ops leaves \<longleftrightarrow>
     (\<forall>k v t. leaves (mpt_insert ops k v t) = (leaves t)(k \<mapsto> v)) \<and>
     (\<forall>t. leaves (snd (mpt_root_hash ops t)) = leaves t) \<and>
     (\<forall>t u. leaves t = leaves u \<longrightarrow> fst (mpt_root_hash ops t) = fst (mpt_root_hash ops u))"

definition evm_reads_ok ::
    "('b, 'a, 'k, 's, 't) state_ops \<Rightarrow> ('b, 'a, 'k, 's) evm_fns \<Rightarrow> bool" where
  "evm_reads_ok ops F \<longleftrightarrow>
     (\<forall>d e s blk tx r d' s' q e' u. cache_accounts d = cache_accounts e \<longrightarrow>
        same_reads ops (cache_inner d) (cache_inner e) \<longrightarrow>
        transact_commit F d s blk tx = (r, d', s') \<longrightarrow> transact_commit F e s blk tx = (q, e', u) \<longrightarrow>
        r = q \<and> s' = u \<and> cache_accounts d' = cache_accounts e' \<and> cache_inner d' = cache_inner d)"

text \<open>
  \<open>pre\<close> gives the code that a code hash stands for; the hash of the empty code stands for none. All
  code in the cache, and all code in the store under another hash than that, is the code of its hash.
\<close>

definition cache_coded ::
    "('b, 'a, 'k, 's, 't) state_ops \<Rightarrow> (b256 \<Rightarrow> bytes) \<Rightarrow> (address \<rightharpoonup> 'b db_account) \<Rightarrow> bool" where
  "cache_coded ops pre cache \<longleftrightarrow>
     (\<forall>a acc code. cache a = Some acc \<longrightarrow> ai_code (da_info acc) = Some code \<longrightarrow>
        bytes_slice ops code \<noteq> [] \<longrightarrow> bytes_slice ops code = pre (ai_code_hash (da_info acc)))"

definition code_ok ::
    "('b, 'a, 'k, 's, 't) state_ops \<Rightarrow> (b256 \<Rightarrow> bytes) \<Rightarrow> ('b, 'a, 'k, 's) cache_db \<Rightarrow> bool" where
  "code_ok ops pre db \<longleftrightarrow>
     cache_coded ops pre (cache_accounts db) \<and>
     (\<forall>h bs. h \<noteq> KECCAK_EMPTY ops \<longrightarrow> code_at ops (cache_inner db) h = Some bs \<longrightarrow> bs = pre h)"

definition evm_code_ok ::
    "('b, 'a, 'k, 's, 't) state_ops \<Rightarrow> (b256 \<Rightarrow> bytes) \<Rightarrow> ('b, 'a, 'k, 's) evm_fns \<Rightarrow> bool" where
  "evm_code_ok ops pre F \<longleftrightarrow>
     (\<forall>db s blk tx. code_ok ops pre db \<longrightarrow> code_ok ops pre (fst (snd (transact_commit F db s blk tx))))"

definition replica_laws ::
    "('b, 'a, 'k, 's, 't) state_ops \<Rightarrow> ('b, 'a, 'k, 's) evm_fns \<Rightarrow> (b256 \<Rightarrow> bytes) \<Rightarrow>
     ('t \<Rightarrow> bytes \<rightharpoonup> bytes) \<Rightarrow> bool" where
  "replica_laws ops F pre leaves \<longleftrightarrow>
     state_ok ops \<and> trie_ok ops leaves \<and> evm_reads_ok ops F \<and> evm_code_ok ops pre F \<and>
     ai_code_hash (default_info ops) = KECCAK_EMPTY ops"

section \<open>The flush does not depend on the iteration order\<close>

text \<open>\<open>deploys ops cache a h\<close>: flushing the account \<open>a\<close> stores code under the hash \<open>h\<close>.\<close>

definition deploys ::
    "('b, 'a, 'k, 's, 't) state_ops \<Rightarrow> (address \<rightharpoonup> 'b db_account) \<Rightarrow> address \<Rightarrow> b256 \<Rightarrow> bool" where
  "deploys ops cache a h \<longleftrightarrow>
     (\<exists>acc code. cache a = Some acc \<and> ai_code (da_info acc) = Some code \<and> bytes_slice ops code \<noteq> [] \<and>
        ai_code_hash (da_info acc) = h)"

lemma code_at_insert_account:
  assumes "state_ok ops"
  shows "code_at ops (insert_account ops a i db) h =
    (case ai_code i of
       Some code \<Rightarrow> if bytes_slice ops code \<noteq> [] \<and> ai_code_hash i = h then Some (bytes_slice ops code)
                    else code_at ops db h
     | None \<Rightarrow> code_at ops db h)"
  using assms by (auto simp: code_at_def insert_account_def Let_def state_ok_def kv_ok_simps split: option.split)

lemma block_hash_insert_account [simp]:
  "block_hash_ref ops (insert_account ops a i db) n = block_hash_ref ops db n"
  by (simp add: block_hash_ref_def insert_account_eqs)

lemma insert_storage_keeps [simp]:
  "code_at ops (insert_storage ops a s v db) h = code_at ops db h"
  "block_hash_ref ops (insert_storage ops a s v db) n = block_hash_ref ops db n"
  by (simp_all add: code_at_def insert_storage_def block_hash_ref_def)

lemma insert_slots_keeps [simp]:
  "code_at ops (fold (\<lambda>s db. case m s of None \<Rightarrow> db | Some v \<Rightarrow> insert_storage ops a s v db) ss db) h = code_at ops db h"
  "block_hash_ref ops (fold (\<lambda>s db. case m s of None \<Rightarrow> db | Some v \<Rightarrow> insert_storage ops a s v db) ss db) n =
     block_hash_ref ops db n"
  by (induction ss arbitrary: db) (auto split: option.split)

lemma flush_account_code:
  assumes "state_ok ops" and "cache_coded ops pre cache"
  shows "code_at ops (fst (flush_account ops cache ord a dt)) h =
     (if deploys ops cache a h then Some (pre h) else code_at ops (fst dt) h)"
  using assms
  by (auto simp: flush_account_def split_beta deploys_def cache_coded_def code_at_insert_account
      split: option.split)

lemma flush_account_block_hash [simp]:
  "block_hash_ref ops (fst (flush_account ops cache ord a dt)) n = block_hash_ref ops (fst dt) n"
  by (simp add: flush_account_def split_beta split: option.split)

lemma flush_accounts_code:
  assumes "state_ok ops" and "cache_coded ops pre cache"
  shows "code_at ops (fst (fold (flush_account ops cache ord) ks dt)) h =
     (if \<exists>a \<in> set ks. deploys ops cache a h then Some (pre h) else code_at ops (fst dt) h)"
  by (induction ks arbitrary: dt) (auto simp: flush_account_code [OF assms])

lemma flush_accounts_block_hash:
  "block_hash_ref ops (fst (fold (flush_account ops cache ord) ks dt)) n = block_hash_ref ops (fst dt) n"
  by (induction ks arbitrary: dt) auto

text \<open>The trie afterwards: the leaf of every flushed account, and what was there under all other keys.\<close>

lemma flush_accounts_leaves:
  assumes "trie_ok ops leaves"
  shows "leaves (snd (fold (flush_account ops cache ord) ks dt)) (addr_slice b) =
     (case cache b of Some acc \<Rightarrow> if b \<in> set ks then Some (encode_account_leaf (da_info acc))
                                 else leaves (snd dt) (addr_slice b)
      | None \<Rightarrow> leaves (snd dt) (addr_slice b))"
    and "(\<And>b. k \<noteq> addr_slice b) \<Longrightarrow> leaves (snd (fold (flush_account ops cache ord) ks dt)) k = leaves (snd dt) k"
proof -
  have step: "leaves (snd (flush_account ops cache ord a dt)) =
      (case cache a of None \<Rightarrow> leaves (snd dt)
         | Some acc \<Rightarrow> (leaves (snd dt))(addr_slice a \<mapsto> encode_account_leaf (da_info acc)))" for a dt
    using assms by (simp add: flush_account_def split_beta trie_ok_def split: option.split)
  show "leaves (snd (fold (flush_account ops cache ord) ks dt)) (addr_slice b) =
     (case cache b of Some acc \<Rightarrow> if b \<in> set ks then Some (encode_account_leaf (da_info acc))
                                 else leaves (snd dt) (addr_slice b)
      | None \<Rightarrow> leaves (snd dt) (addr_slice b))"
    by (induction ks arbitrary: dt) (auto simp: step split: option.splits)
  show "(\<And>b. k \<noteq> addr_slice b) \<Longrightarrow> leaves (snd (fold (flush_account ops cache ord) ks dt)) k = leaves (snd dt) k"
    by (induction ks arbitrary: dt) (auto simp: step split: option.splits)
qed

section \<open>Two states that agree\<close>

definition same_state ::
    "('b, 'a, 'k, 's, 't) state_ops \<Rightarrow> ('t \<Rightarrow> bytes \<rightharpoonup> bytes) \<Rightarrow> ('b, 'a, 'k, 's, 't) evm_state \<Rightarrow>
     ('b, 'a, 'k, 's, 't) evm_state \<Rightarrow> bool" where
  "same_state ops leaves st st' \<longleftrightarrow>
     cache_accounts (es_db st) = cache_accounts (es_db st') \<and>
     same_store ops (cache_inner (es_db st)) (cache_inner (es_db st')) \<and>
     leaves (es_trie st) = leaves (es_trie st') \<and> es_config st = es_config st'"

lemma same_state_getters:
  assumes "same_state ops leaves st st'"
  shows "es_get_nonce ops st a = es_get_nonce ops st' a" "es_get_balance ops st a = es_get_balance ops st' a"
    "es_get_storage ops st a s = es_get_storage ops st' a s" "es_get_code ops st a = es_get_code ops st' a"
  using assms same_store_getters [of ops "cache_inner (es_db st)" "cache_inner (es_db st')"]
  by (simp_all add: same_state_def es_get_nonce_def es_get_balance_def es_get_storage_def es_get_code_def
      split: option.split)

abbreviation cache_orders ::
    "('b, 'a, 'k, 's, 't) evm_state \<Rightarrow> address list \<Rightarrow> (address \<Rightarrow> u256 list) \<Rightarrow> bool" where
  "cache_orders st ks ord \<equiv>
     iter_order (cache_accounts (es_db st)) ks \<and>
     (\<forall>a acc. cache_accounts (es_db st) a = Some acc \<longrightarrow> iter_order (da_storage acc) (ord a))"

lemma flush_fields [simp]:
  "cache_accounts (es_db (flush_cache_to_vsdb ops ks ord st)) = cache_accounts (es_db st)"
  "es_config (flush_cache_to_vsdb ops ks ord st) = es_config st"
  by (simp_all add: flush_cache_to_vsdb_def split_beta)

lemma flush_code_ok:
  assumes ok: "state_ok ops" and code: "code_ok ops pre (es_db st)"
  shows "code_ok ops pre (es_db (flush_cache_to_vsdb ops ks ord st))"
proof -
  have "code_at ops (cache_inner (es_db (flush_cache_to_vsdb ops ks ord st))) h =
      (if \<exists>a \<in> set ks. deploys ops (cache_accounts (es_db st)) a h then Some (pre h)
       else code_at ops (cache_inner (es_db st)) h)" for h
    using flush_accounts_code [OF ok, of pre "cache_accounts (es_db st)"] code
    by (simp add: flush_cache_to_vsdb_def split_beta code_ok_def)
  then show ?thesis using code by (auto simp: code_ok_def split: if_splits)
qed

text \<open>
  The heart of the matter: states that agree still agree after each has been flushed, in whatever
  orders. An account is written once, a slot once, and code under one hash is the same code.
\<close>

lemma flush_same_state:
  assumes ok: "state_ok ops" "trie_ok ops leaves" and same: "same_state ops leaves st st'"
    and code: "code_ok ops pre (es_db st)"
    and orders: "cache_orders st ks ord" "cache_orders st' ks' ord'"
  shows "same_state ops leaves (flush_cache_to_vsdb ops ks ord st) (flush_cache_to_vsdb ops ks' ord' st')"
proof -
  let ?C = "cache_accounts (es_db st)"
  let ?r = "fold (flush_account ops ?C ord) ks (cache_inner (es_db st), es_trie st)"
  let ?r' = "fold (flush_account ops ?C ord') ks' (cache_inner (es_db st'), es_trie st')"
  have C: "cache_accounts (es_db st') = ?C" and S: "same_store ops (cache_inner (es_db st)) (cache_inner (es_db st'))"
    and T: "leaves (es_trie st) = leaves (es_trie st')" using same by (simp_all add: same_state_def)
  have ks: "set ks = dom ?C" "set ks' = dom ?C" using orders C by (auto simp: iter_order_def)
  have slots: "set (ord a) = dom (da_storage acc)" "set (ord' a) = dom (da_storage acc)" if "?C a = Some acc" for a acc
    using orders C that by (auto simp: iter_order_def)
  have codes: "cache_coded ops pre ?C" using code by (simp add: code_ok_def)
  have "slot_at ops (fst ?r) a s = slot_at ops (fst ?r') a s" for a s
    using S slots [of a]
    by (cases "?C a") (auto simp: flush_accounts_at(2) [OF ok(1)] ks same_store_def)
  moreover have "stored_at ops (fst ?r) a = stored_at ops (fst ?r') a" for a
    using S by (cases "?C a") (auto simp: flush_accounts_at(1) [OF ok(1)] ks same_store_def)
  ultimately have "same_store ops (fst ?r) (fst ?r')"
    using S by (simp add: same_store_def flush_accounts_code [OF ok(1) codes] flush_accounts_block_hash ks)
  moreover have "leaves (snd ?r) k = leaves (snd ?r') k" for k
    using T by (cases "\<exists>b. k = addr_slice b") (auto simp: flush_accounts_leaves [OF ok(2)] ks split: option.split)
  ultimately show ?thesis
    using same by (simp add: same_state_def flush_cache_to_vsdb_def split_beta C ext)
qed

lemma state_root_same:
  assumes "trie_ok ops leaves" "same_state ops leaves st st'"
  shows "fst (state_root ops st) = fst (state_root ops st')"
    and "same_state ops leaves (snd (state_root ops st)) (snd (state_root ops st'))"
proof -
  have eq: "leaves (es_trie st) = leaves (es_trie st')" using assms(2) by (simp add: same_state_def)
  have law: "leaves t = leaves u \<Longrightarrow> fst (mpt_root_hash ops t) = fst (mpt_root_hash ops u)"
    "leaves (snd (mpt_root_hash ops t)) = leaves t" for t u
    using assms(1) unfolding trie_ok_def by blast+
  show "fst (state_root ops st) = fst (state_root ops st')"
    by (simp add: state_root_def split_beta Let_def law(1) [OF eq])
  show "same_state ops leaves (snd (state_root ops st)) (snd (state_root ops st'))"
    using assms(2) by (simp add: same_state_def state_root_def split_beta Let_def law(2))
qed

section \<open>The same block on two nodes\<close>

lemma transact_same:
  assumes laws: "replica_laws ops F pre leaves" and same: "same_state ops leaves st st'"
    and code: "code_ok ops pre (es_db st)"
    and run: "transact_commit F (es_db st) s blk tx = (r, d, u)"
  obtains d' where "transact_commit F (es_db st') s blk tx = (r, d', u)"
    "same_state ops leaves (st\<lparr>es_db := d\<rparr>) (st'\<lparr>es_db := d'\<rparr>)" "code_ok ops pre d"
proof -
  obtain q d' v where run': "transact_commit F (es_db st') s blk tx = (q, d', v)" by (metis prod_cases3)
  have C: "cache_accounts (es_db st) = cache_accounts (es_db st')"
    and S: "same_store ops (cache_inner (es_db st)) (cache_inner (es_db st'))"
    using same by (simp_all add: same_state_def)
  have law: "evm_reads_ok ops F" using laws by (simp add: replica_laws_def)
  have eq: "r = q \<and> u = v \<and> cache_accounts d = cache_accounts d' \<and> cache_inner d = cache_inner (es_db st)"
    using law C same_store_reads [OF S] run run' unfolding evm_reads_ok_def by blast
  moreover have "cache_inner d' = cache_inner (es_db st')"
    using law C [symmetric] same_store_reads [OF same_store_sym [OF S]] run run' unfolding evm_reads_ok_def by blast
  ultimately have "same_state ops leaves (st\<lparr>es_db := d\<rparr>) (st'\<lparr>es_db := d'\<rparr>)"
    using same by (simp add: same_state_def)
  moreover have "code_ok ops pre d"
    using laws code run unfolding replica_laws_def evm_code_ok_def by (metis fst_conv snd_conv)
  ultimately show thesis using that run' eq by blast
qed

lemma exec_loop_same:
  assumes laws: "replica_laws ops F pre leaves"
    and "same_state ops leaves st st'" "code_ok ops pre (es_db st)"
    and "exec_loop ops F cfg ctx i vs (st, s, cum, rs) = (st1, s1, cum1, rs1)"
  shows "\<exists>st2. exec_loop ops F cfg ctx i vs (st', s, cum, rs) = (st2, s1, cum1, rs1) \<and>
     same_state ops leaves st1 st2 \<and> code_ok ops pre (es_db st1)"
  using assms(2-)
proof (induction vs arbitrary: i st st' s cum rs)
  case (Cons v vs)
  have nonce: "es_get_nonce ops st a = es_get_nonce ops st' a" for a
    by (rule same_state_getters(1) [OF Cons.prems(1)])
  obtain r d u where run: "transact_commit F (es_db st) s (block_env_of F cfg ctx) (tx_env_of F v) = (r, d, u)"
    by (metis prod_cases3)
  obtain d' where run': "transact_commit F (es_db st') s (block_env_of F cfg ctx) (tx_env_of F v) = (r, d', u)"
    and after: "same_state ops leaves (st\<lparr>es_db := d\<rparr>) (st'\<lparr>es_db := d'\<rparr>)" "code_ok ops pre d"
    by (rule transact_same [OF laws Cons.prems(1,2) run])
  have IH: "\<exists>st2. exec_loop ops F cfg ctx (Suc i) vs (st'\<lparr>es_db := d'\<rparr>, u, c, qs) = (st2, s1, cum1, rs1) \<and>
      same_state ops leaves st1 st2 \<and> code_ok ops pre (es_db st1)"
    if "exec_loop ops F cfg ctx (Suc i) vs (st\<lparr>es_db := d\<rparr>, u, c, qs) = (st1, s1, cum1, rs1)" for c qs
    by (rule Cons.IH [OF after(1) _ that]) (simp add: after(2))
  show ?case
  proof (cases r)
    case (Inl e)
    then show ?thesis using Cons.prems Cons.IH [OF Cons.prems(1,2)] IH run run'
      by (auto simp: nonce Let_def split: if_splits)
  next
    case (Inr x)
    then show ?thesis using Cons.prems Cons.IH [OF Cons.prems(1,2)] IH run run'
      by (auto simp: nonce Let_def split: if_splits)
  qed
qed auto

lemma block_start_same:
  assumes ok: "state_ok ops" and same: "same_state ops leaves (ex_state ex) (ex_state ex')"
  shows "same_state ops leaves (block_start ops ctx ex) (block_start ops ctx ex')"
proof -
  have "block_hash_ref ops (insert_block_hash ops n h db) m = (if m = n then Inr h else block_hash_ref ops db m)"
    for n h db m
    using ok by (simp add: block_hash_ref_def insert_block_hash_def state_ok_def kv_ok_simps)
  then have "same_store ops d e \<Longrightarrow> same_store ops (insert_block_hash ops n h d) (insert_block_hash ops n h e)"
    for d e n h
    by (simp add: same_store_def)
      (simp add: stored_at_def slot_at_def code_at_def insert_block_hash_def)
  with same show ?thesis by (simp add: block_start_def record_block_hash_def Let_def same_state_def)
qed

lemma block_start_code_ok:
  "code_ok ops pre (es_db (ex_state ex)) \<Longrightarrow> code_ok ops pre (es_db (block_start ops ctx ex))"
  by (simp add: block_start_def record_block_hash_def Let_def code_ok_def code_at_def insert_block_hash_def)

lemma state_root_keeps_db [simp]:
  "es_db (snd (state_root ops st)) = es_db st"
  by (simp add: state_root_def split_beta Let_def)

text \<open>
  Two executors that agree give the same block the same application hash and the same receipts, in
  whatever orders their caches are iterated, and agree afterwards.
\<close>

lemma execute_block_same:
  assumes laws: "replica_laws ops F pre leaves" and same: "same_state ops leaves (ex_state ex) (ex_state ey)"
    and staking: "ex_staking ex = ex_staking ey" and code: "code_ok ops pre (es_db (ex_state ex))"
    and run: "execute_block ops F C ks ord txs ctx ex = (root, ex')" "cache_orders (ex_state ex') ks ord"
    and run': "execute_block ops F C ks' ord' txs ctx ey = (root', ey')" "cache_orders (ex_state ey') ks' ord'"
  shows "root = root' \<and> same_state ops leaves (ex_state ex') (ex_state ey') \<and> ex_staking ex' = ex_staking ey' \<and>
     code_ok ops pre (es_db (ex_state ex')) \<and>
     (\<exists>rs. ex_receipts ex' = ex_receipts ex @ [rs] \<and> ex_receipts ey' = ex_receipts ey @ [rs])"
proof -
  have ok: "state_ok ops" "trie_ok ops leaves" using laws by (simp_all add: replica_laws_def)
  have cfg: "es_config (ex_state ey) = es_config (ex_state ex)" using same by (simp add: same_state_def)
  obtain st s cum rs where l: "exec_loop ops F (es_config (ex_state ex)) ctx 0 (decode_all C txs)
       (block_start ops ctx ex, ex_staking ex, 0, []) = (st, s, cum, rs)"
    "root = fst (state_root ops (flush_cache_to_vsdb ops ks ord st))"
    "ex' = ex\<lparr>ex_state := snd (state_root ops (flush_cache_to_vsdb ops ks ord st)), ex_staking := s,
              ex_receipts := ex_receipts ex @ [rs]\<rparr>"
    using run(1) by (rule execute_block_unfold)
  obtain st' where l': "exec_loop ops F (es_config (ex_state ex)) ctx 0 (decode_all C txs)
       (block_start ops ctx ey, ex_staking ex, 0, []) = (st', s, cum, rs)"
    and mid: "same_state ops leaves st st'" "code_ok ops pre (es_db st)"
    using exec_loop_same [OF laws block_start_same [OF ok(1) same] block_start_code_ok [OF code] l(1)] by blast
  have r': "root' = fst (state_root ops (flush_cache_to_vsdb ops ks' ord' st'))"
    "ey' = ey\<lparr>ex_state := snd (state_root ops (flush_cache_to_vsdb ops ks' ord' st')), ex_staking := s,
              ex_receipts := ex_receipts ey @ [rs]\<rparr>"
    using execute_block_unfold [OF run'(1)] l' cfg staking by fastforce+
  have "cache_orders st ks ord" "cache_orders st' ks' ord'"
    using run(2) run'(2) by (simp_all add: l(3) r'(2))
  note flushed = flush_same_state [OF ok mid this]
  show ?thesis
    using state_root_same [OF ok(2) flushed] flush_code_ok [OF ok(1) mid(2)] by (simp add: l(2,3) r')
qed

section \<open>Replicas\<close>

text \<open>
  A step that changes neither state, ledger nor receipts. Submissions, proposals and commits are always
  such steps; a dry run is one when the EVM had nothing left to cache and changed no stake.
\<close>

definition quiet_step ::
    "('b, 'a, 'k, 's, 't) state_ops \<Rightarrow> ('b, 'a, 'k, 's) evm_fns \<Rightarrow> tx_codec \<Rightarrow>
     ('b, 'a, 'k, 's, 't) chain \<Rightarrow> ('b, 'a, 'k, 's, 't) chain \<Rightarrow> bool" where
  "quiet_step ops F C c c' \<longleftrightarrow>
     chain_step ops F C c c' \<and> ex_state (ch_ex c') = ex_state (ch_ex c) \<and>
     ex_staking (ch_ex c') = ex_staking (ch_ex c) \<and> ex_receipts (ch_ex c') = ex_receipts (ch_ex c)"

text \<open>The execution of a block, with the application hash it gives.\<close>

definition block_step ::
    "('b, 'a, 'k, 's, 't) state_ops \<Rightarrow> ('b, 'a, 'k, 's) evm_fns \<Rightarrow> tx_codec \<Rightarrow> bytes list \<times> block_context \<Rightarrow>
     ('b, 'a, 'k, 's, 't) chain \<Rightarrow> bytes \<Rightarrow> ('b, 'a, 'k, 's, 't) chain \<Rightarrow> bool" where
  "block_step ops F C = (\<lambda>(txs, ctx) c root c'.
     ch_open c = None \<and> ex_block_height (ch_ex c) \<noteq> - 1 \<and> ctx_height ctx = ex_block_height (ch_ex c) + 1 \<and>
     (\<exists>ks ord ex'. execute_block ops F C ks ord txs ctx (ch_ex c) = (root, ex') \<and>
        cache_orders (ex_state ex') ks ord \<and> c' = c\<lparr>ch_ex := ex', ch_open := Some ctx\<rparr>))"

lemma quiet_steps:
  "quiet_step ops F C c (c\<lparr>ch_ex := snd (submit_raw_tx C (ch_ex c) raw)\<rparr>)"
  "iter_order (senders (pool_inner_of (ex_txpool (ch_ex c)))) ks \<Longrightarrow>
     quiet_step ops F C c (c\<lparr>ch_ex := snd (create_payload ks (ch_ex c))\<rparr>)"
  "ch_open c = Some ctx \<Longrightarrow> iter_order (senders (pool_inner_of (ex_txpool (ch_ex c)))) ks \<Longrightarrow>
     quiet_step ops F C c (c\<lparr>ch_ex := app_on_commit ops ks ctx (ch_ex c), ch_open := None\<rparr>)"
proof -
  let ?keeps = "\<lambda>ex' ex :: ('a, 'b, 'c, 'd, 'e) evm_executor.
    ex_state ex' = ex_state ex \<and> ex_staking ex' = ex_staking ex \<and> ex_receipts ex' = ex_receipts ex"
  have keeps: "?keeps (snd (submit_raw_tx C (ch_ex c) raw)) (ch_ex c)" "?keeps (snd (create_payload ks (ch_ex c))) (ch_ex c)"
    "?keeps (app_on_commit ops ks ctx (ch_ex c)) (ch_ex c)"
    by (simp_all add: submit_raw_tx_def create_payload_def app_on_commit_def split_beta)
  show "quiet_step ops F C c (c\<lparr>ch_ex := snd (submit_raw_tx C (ch_ex c) raw)\<rparr>)"
    by (simp add: quiet_step_def keeps chain_step.submit)
  show "iter_order (senders (pool_inner_of (ex_txpool (ch_ex c)))) ks \<Longrightarrow>
     quiet_step ops F C c (c\<lparr>ch_ex := snd (create_payload ks (ch_ex c))\<rparr>)"
    by (simp add: quiet_step_def keeps chain_step.propose)
  show "ch_open c = Some ctx \<Longrightarrow> iter_order (senders (pool_inner_of (ex_txpool (ch_ex c)))) ks \<Longrightarrow>
     quiet_step ops F C c (c\<lparr>ch_ex := app_on_commit ops ks ctx (ch_ex c), ch_open := None\<rparr>)"
    by (simp add: quiet_step_def keeps chain_step.commit)
qed

lemma block_step_chain_step: "block_step ops F C b c root c' \<Longrightarrow> chain_step ops F C c c'"
  unfolding block_step_def split_beta
  by (elim conjE exE) (metis chain_step.execute snd_conv)

definition replica_run ::
    "('b, 'a, 'k, 's, 't) state_ops \<Rightarrow> ('b, 'a, 'k, 's) evm_fns \<Rightarrow> tx_codec \<Rightarrow> ('b, 'a, 'k, 's, 't) chain \<Rightarrow>
     ((bytes list \<times> block_context) \<times> bytes) list \<Rightarrow> ('b, 'a, 'k, 's, 't) chain \<Rightarrow> bool" where
  "replica_run ops F C = labelled_run (quiet_step ops F C) (block_step ops F C)"

lemma replica_run_reachable:
  "replica_run ops F C (chain_start ops g) bs c \<Longrightarrow> chain_reachable ops F C g c"
  unfolding replica_run_def chain_reachable_def
  by (erule labelled_run_steps) (auto simp: quiet_step_def block_step_chain_step)

definition same_chain ::
    "('b, 'a, 'k, 's, 't) state_ops \<Rightarrow> (b256 \<Rightarrow> bytes) \<Rightarrow> ('t \<Rightarrow> bytes \<rightharpoonup> bytes) \<Rightarrow>
     ('b, 'a, 'k, 's, 't) chain \<Rightarrow> ('b, 'a, 'k, 's, 't) chain \<Rightarrow> bool" where
  "same_chain ops pre leaves c d \<longleftrightarrow>
     same_state ops leaves (ex_state (ch_ex c)) (ex_state (ch_ex d)) \<and>
     ex_staking (ch_ex c) = ex_staking (ch_ex d) \<and> ex_receipts (ch_ex c) = ex_receipts (ch_ex d) \<and>
     code_ok ops pre (es_db (ex_state (ch_ex c))) \<and> code_ok ops pre (es_db (ex_state (ch_ex d)))"

lemma same_state_sym: "same_state ops leaves st st' \<Longrightarrow> same_state ops leaves st' st"
  by (simp add: same_state_def same_store_sym)

lemma same_chain_block:
  assumes laws: "replica_laws ops F pre leaves" and same: "same_chain ops pre leaves c d"
    and steps: "block_step ops F C b c r c'" "block_step ops F C b d q d'"
  shows "r = q \<and> same_chain ops pre leaves c' d'"
proof -
  obtain ks ord ex' where c: "execute_block ops F C ks ord (fst b) (snd b) (ch_ex c) = (r, ex')"
    "cache_orders (ex_state ex') ks ord" "ch_ex c' = ex'"
    using steps(1) by (auto simp: block_step_def split_beta)
  obtain ks' ord' ey' where d: "execute_block ops F C ks' ord' (fst b) (snd b) (ch_ex d) = (q, ey')"
    "cache_orders (ex_state ey') ks' ord'" "ch_ex d' = ey'"
    using steps(2) by (auto simp: block_step_def split_beta)
  have S: "same_state ops leaves (ex_state (ch_ex c)) (ex_state (ch_ex d))" "ex_staking (ch_ex c) = ex_staking (ch_ex d)"
    "ex_receipts (ch_ex c) = ex_receipts (ch_ex d)" "code_ok ops pre (es_db (ex_state (ch_ex c)))"
    "code_ok ops pre (es_db (ex_state (ch_ex d)))"
    using same by (simp_all add: same_chain_def)
  show ?thesis
    using execute_block_same [OF laws S(1,2,4) c(1,2) d(1,2)]
      execute_block_same [OF laws same_state_sym [OF S(1)] S(2) [symmetric] S(5) d(1,2) c(1,2)] S(3)
    by (auto simp: same_chain_def c(3) d(3))
qed

text \<open>The contract of replicas, under the laws of the libraries.\<close>

interpretation replica: replicated "quiet_step ops F C"
  "\<lambda>b c r c'. replica_laws ops F pre leaves \<and> block_step ops F C b c r c'" "same_chain ops pre leaves"
  for ops F C pre leaves
proof
  show "same_chain ops pre leaves s t \<Longrightarrow> same_chain ops pre leaves t s" for s t
    by (simp add: same_chain_def same_state_sym)
  show "same_chain ops pre leaves s t \<Longrightarrow> quiet_step ops F C s s' \<Longrightarrow> same_chain ops pre leaves s' t" for s t s'
    by (simp add: same_chain_def quiet_step_def)
  show "same_chain ops pre leaves s t \<Longrightarrow> replica_laws ops F pre leaves \<and> block_step ops F C b s r s' \<Longrightarrow>
      replica_laws ops F pre leaves \<and> block_step ops F C b t q t' \<Longrightarrow> r = q \<and> same_chain ops pre leaves s' t'"
    for s t b r s' q t'
    using same_chain_block by blast
qed

lemma genesis_account_code:
  assumes "state_ok ops" "h \<noteq> ai_code_hash (default_info ops)"
  shows "code_at ops (fst (genesis_account ops p dt)) h = code_at ops (fst dt) h"
proof -
  have slots: "code_at ops (fold (\<lambda>(slot, v). insert_storage ops a slot v) ss db) h = code_at ops db h" for a ss db
    by (induction ss arbitrary: db) (simp_all add: split_beta)
  show ?thesis
    using assms
    by (simp add: genesis_account_def split_beta Let_def slots code_at_insert_account split: option.split)
qed

lemma from_genesis_code_ok:
  assumes "state_ok ops" "ai_code_hash (default_info ops) = KECCAK_EMPTY ops"
  shows "code_ok ops pre (es_db (from_genesis ops g))"
proof -
  have "code_at ops (fst (fold (genesis_account ops) ps dt)) h = code_at ops (fst dt) h"
    if "h \<noteq> KECCAK_EMPTY ops" for h ps dt
    using that by (induction ps arbitrary: dt) (simp_all add: genesis_account_code [OF assms(1)] assms(2))
  moreover have "code_at ops (vsdb_new ops) h = None" for h
    using assms(1) by (simp add: code_at_def vsdb_new_def state_ok_def kv_ok_simps)
  ultimately show ?thesis
    by (auto simp: code_ok_def cache_coded_def from_genesis_def split_beta)
qed


section \<open>An EVM that caches what it reads\<close>

text \<open>
  The library of the examples, with a trie whose root hash is a checksum of the leaves of the first
  accounts, and an EVM whose dry run loads the caller into the cache as revm's \<^verbatim>\<open>CacheDB\<close> does: the
  account that the database has, or a default one. All laws hold of it.
\<close>

definition replica_ops ::
    "(bytes, bytes \<rightharpoonup> stored_account, bytes \<rightharpoonup> bytes, bytes \<rightharpoonup> bytes, bytes \<rightharpoonup> bytes) state_ops" where
  "replica_ops =
     \<lparr>acc_kv = table_kv, code_kv = table_kv, word_kv = table_kv,
      mpt_new = Map.empty, mpt_insert = hm_insert,
      mpt_root_hash = (\<lambda>t. (Some (map (\<lambda>a. case t (addr_slice a) of None \<Rightarrow> 0 | Some leaf \<Rightarrow> 1 + sum_list leaf)
                              [1, 2, 3, 4]), t)),
      bytecode_new_raw = id, bytes_slice = id, default_bytecode = [],
      default_info = \<lparr>ai_balance = 0, ai_nonce = 0, ai_code_hash = 7, ai_code = Some []\<rparr>,
      KECCAK_EMPTY = 7\<rparr>"

definition cache_load ::
    "('b, 'a, 'k, 's, 't) state_ops \<Rightarrow> address \<Rightarrow> ('b, 'a, 'k, 's) cache_db \<Rightarrow> ('b, 'a, 'k, 's) cache_db" where
  "cache_load ops a db =
     (case cache_accounts db a of
        Some _ \<Rightarrow> db
      | None \<Rightarrow>
          (let info = (case basic_ref ops (cache_inner db) a of Inr (Some i) \<Rightarrow> i | _ \<Rightarrow> default_info ops)
           in db\<lparr>cache_accounts := hm_insert a \<lparr>da_info = info, da_storage = Map.empty\<rparr> (cache_accounts db)\<rparr>))"

definition replica_evm :: "(bytes, bytes \<rightharpoonup> stored_account, bytes \<rightharpoonup> bytes, bytes \<rightharpoonup> bytes) evm_fns" where
  "replica_evm = demo_evm\<lparr>transact_commit := demo_commit replica_ops,
     transact_one := (\<lambda>db s blk tx. (Inr (ExecSuccess 21000 [] []), cache_load replica_ops (te_caller tx) db, s))\<rparr>"

lemma vsdb_get_nonce_basic:
  "vsdb_get_nonce ops d a = (case basic_ref ops d a of Inr (Some i) \<Rightarrow> ai_nonce i | _ \<Rightarrow> 0)"
  by (simp add: vsdb_get_nonce_def basic_ref_def Let_def stored_to_info_def split: option.split)

lemma replica_laws_hold: "replica_laws replica_ops replica_evm (\<lambda>_. []) (\<lambda>t. t)"
proof -
  have "nonce_in replica_ops d a = nonce_in replica_ops e a"
    if "cache_accounts d = cache_accounts e" "same_reads replica_ops (cache_inner d) (cache_inner e)" for d e a
    using that by (simp add: nonce_in_def vsdb_get_nonce_basic same_reads_def split: option.split)
  then have "evm_reads_ok replica_ops replica_evm"
    by (auto simp: evm_reads_ok_def replica_evm_def demo_commit_def Let_def split: if_splits)
  moreover have "evm_code_ok replica_ops (\<lambda>_. []) replica_evm"
    by (auto simp: evm_code_ok_def code_ok_def cache_coded_def replica_evm_def demo_commit_def Let_def
        hm_insert_def replica_ops_def split: if_splits)
  moreover have "state_ok replica_ops"
    by (simp add: state_ok_def kv_ok_def replica_ops_def table_kv_def hm_insert_def)
  moreover have "trie_ok replica_ops (\<lambda>t. t)" by (simp add: trie_ok_def replica_ops_def hm_insert_def)
  ultimately show ?thesis by (simp add: replica_laws_def replica_ops_def)
qed

lemma replica_evm_nonce: "evm_nonce_ok replica_ops replica_evm"
  by (rule demo_commit_nonce) (simp add: replica_evm_def)

lemma cache_load_nonce: "nonce_in replica_ops (cache_load replica_ops a db) b = nonce_in replica_ops db b"
proof -
  have "ai_nonce (default_info replica_ops) = 0" by (simp add: replica_ops_def)
  then show ?thesis
    by (auto simp: cache_load_def nonce_in_def hm_insert_def Let_def vsdb_get_nonce_basic split: option.split sum.split)
qed

lemma replica_chain_env: "chain_env_ok replica_ops replica_evm"
proof -
  have "dry_nonce_ok replica_ops replica_evm"
    by (auto simp: dry_nonce_ok_def replica_evm_def cache_load_nonce)
  then show ?thesis using replica_laws_hold by (simp add: chain_env_ok_def replica_laws_def replica_evm_nonce)
qed

lemma replica_block:
  assumes "ex_state ex = from_genesis replica_ops demo_genesis"
    and "execute_block replica_ops replica_evm demo_codec [1] (\<lambda>_. []) [[1, 2, 9, 50]] demo_ctx ex = (root, ex')"
  shows "cache_orders (ex_state ex') [1] (\<lambda>_. [])"
proof -
  have ok: "state_ok replica_ops" using replica_laws_hold by (simp add: replica_laws_def)
  have nonce: "es_get_nonce replica_ops (block_start replica_ops demo_ctx ex) 1 = 2"
    using demo_genesis_nonce [OF ok] assms(1)
    by (simp add: es_get_nonce_in [of replica_ops "block_start replica_ops demo_ctx ex"] block_start_nonce)
  have start: "cache_accounts (es_db (block_start replica_ops demo_ctx ex)) = Map.empty"
    using assms(1) by (simp add: block_start_def record_block_hash_def Let_def from_genesis_def split_beta)
  have limit: "block_gas_limit (es_config (ex_state ex)) = 30000000"
    by (simp add: assms(1) from_genesis_def split_beta demo_genesis_def default_gas_limit_def)
  show ?thesis using assms(2)
  proof (rule execute_block_unfold)
    fix st s cum rs
    assume loop: "exec_loop replica_ops replica_evm (es_config (ex_state ex)) demo_ctx 0
        (decode_all demo_codec [[1, 2, 9, 50]]) (block_start replica_ops demo_ctx ex, ex_staking ex, 0, []) = (st, s, cum, rs)"
      and ex': "ex' = ex\<lparr>ex_state := snd (state_root replica_ops (flush_cache_to_vsdb replica_ops [1] (\<lambda>_. []) st)),
        ex_staking := s, ex_receipts := ex_receipts ex @ [rs]\<rparr>"
    have "\<exists>acc. cache_accounts (es_db st) = [1 \<mapsto> acc] \<and> da_storage acc = Map.empty"
      using loop nonce start
      by (auto simp: demo_tx_simps limit replica_evm_def demo_commit_def Let_def es_get_nonce_in hm_insert_def
          split: if_splits)
    then show ?thesis by (auto simp: ex' iter_order_def split: if_splits)
  qed
qed

lemma replica_block_step:
  fixes x :: "(bytes, _, _, _, _) chain"
  assumes "ex_state (ch_ex x) = from_genesis replica_ops demo_genesis" "ch_open x = None" "ex_block_height (ch_ex x) = 0"
    and run: "execute_block replica_ops replica_evm demo_codec [1] (\<lambda>_. []) [[1, 2, 9, 50]] demo_ctx (ch_ex x) = (root, ex')"
  shows "\<exists>y. block_step replica_ops replica_evm demo_codec ([[1, 2, 9, 50]], demo_ctx) x root y"
proof -
  have h: "ctx_height demo_ctx = 1" by (simp add: demo_ctx_def)
  show ?thesis
    unfolding block_step_def split_conv
    using run replica_block [OF assms(1) run] assms(2,3) h by auto
qed


section \<open>Dry runs\<close>

lemma replica_start:
  "stored_at replica_ops (cache_inner (es_db (from_genesis replica_ops demo_genesis))) 4 = None"
  "slot_at replica_ops (cache_inner (es_db (from_genesis replica_ops demo_genesis))) 4 s = None"
  "es_trie (from_genesis replica_ops demo_genesis) (addr_slice 4) = None"
  "cache_accounts (es_db (from_genesis replica_ops demo_genesis)) = Map.empty"
proof -
  have ok: "state_ok replica_ops" using replica_laws_hold by (simp add: replica_laws_def)
  show "stored_at replica_ops (cache_inner (es_db (from_genesis replica_ops demo_genesis))) 4 = None"
    "slot_at replica_ops (cache_inner (es_db (from_genesis replica_ops demo_genesis))) 4 s = None"
    by (simp_all add: from_genesis_def demo_genesis_def genesis_account_def Let_def ok)
  show "es_trie (from_genesis replica_ops demo_genesis) (addr_slice 4) = None"
    by (simp add: from_genesis_def demo_genesis_def genesis_account_def Let_def)
      (simp add: replica_ops_def hm_insert_def)
  show "cache_accounts (es_db (from_genesis replica_ops demo_genesis)) = Map.empty"
    by (simp add: from_genesis_def split_beta)
qed

text \<open>The fourth byte of the root says whether account 4 has a leaf.\<close>

lemma replica_root_nth:
  "fst (state_root replica_ops st) ! 3 =
     (case es_trie st (addr_slice 4) of None \<Rightarrow> 0 | Some leaf \<Rightarrow> 1 + sum_list leaf)"
  by (simp add: state_root_def replica_ops_def Let_def nth_append)

lemma replica_dry_run:
  "snd (eth_call replica_evm (ch_ex (chain_start replica_ops demo_genesis)) 4 (Some 1) [] 0 None) =
   (ch_ex (chain_start replica_ops demo_genesis))\<lparr>
      ex_state := (from_genesis replica_ops demo_genesis)\<lparr>es_db :=
        \<lparr>cache_accounts = [4 \<mapsto> \<lparr>da_info = default_info replica_ops, da_storage = Map.empty\<rparr>],
         cache_inner = cache_inner (es_db (from_genesis replica_ops demo_genesis))\<rparr>\<rparr>\<rparr>"
proof -
  have "basic_ref replica_ops (cache_inner (es_db (from_genesis replica_ops demo_genesis))) 4 = Inr None"
    by (simp add: basic_ref_def replica_start(1))
  then have "cache_load replica_ops 4 (es_db (from_genesis replica_ops demo_genesis)) =
      \<lparr>cache_accounts = [4 \<mapsto> \<lparr>da_info = default_info replica_ops, da_storage = Map.empty\<rparr>],
       cache_inner = cache_inner (es_db (from_genesis replica_ops demo_genesis))\<rparr>"
    by (simp add: cache_load_def replica_start(4) Let_def hm_insert_def)
  then show ?thesis
    by (simp add: eth_call_def Let_def replica_evm_def demo_start_simps)
qed

lemma empty_block:
  "fst (execute_block ops F C ks ord [] ctx ex) = fst (state_root ops (flush_cache_to_vsdb ops ks ord (block_start ops ctx ex)))"
  "cache_accounts (es_db (ex_state (snd (execute_block ops F C ks ord [] ctx ex)))) = cache_accounts (es_db (ex_state ex))"
  "cache_accounts (es_db (block_start ops ctx ex)) = cache_accounts (es_db (ex_state ex))"
  "es_trie (block_start ops ctx ex) = es_trie (ex_state ex)"
  by (simp_all add: execute_block_def block_start_def record_block_hash_def Let_def split_beta)



end
