(* ===== verification/Proposal.thy ===== *)
theory Proposal
  imports Chain_Machine
begin

text \<open>
  The way of a transaction from the pool into a block. Whatever happens on a node, the pool holds only
  transactions whose raw bytes decode to what is stored with them, only a submission adds one, and a
  proposal takes its transactions out of the pool. The payload of a proposal is unambiguous: a reader of
  the length prefixes, written here as a reference (the framework has its own), finds the raw bytes again.
\<close>

section \<open>Reading a payload\<close>

definition le_nat :: "bytes \<Rightarrow> nat" where
  "le_nat bs = be_nat (rev bs)"

function parse_frames :: "bytes \<Rightarrow> bytes list option" where
  "parse_frames bs =
     (if bs = [] then Some []
      else if length bs < 4 then None
      else let n = le_nat (take 4 bs)
           in if length bs < 4 + n then None
              else map_option ((#) (take n (drop 4 bs))) (parse_frames (drop (4 + n) bs)))"
  by pat_completeness auto
termination
  by (relation "measure length") auto

declare parse_frames.simps [simp del]

lemma le_nat_length: "n < 2 ^ 32 \<Longrightarrow> le_nat (to_le_bytes_u32 (of_nat n)) = n"
  by (simp add: le_nat_def to_le_bytes_u32_def be_nat_be_bytes unat_of_nat)

lemma parse_frame:
  assumes "length raw < 2 ^ 32"
  shows "parse_frames (frame raw @ rest) = map_option ((#) raw) (parse_frames rest)"
proof -
  let ?p = "to_le_bytes_u32 (of_nat (length raw))"
  have p: "length ?p = 4" by (simp add: to_le_bytes_u32_def)
  define X where "X = frame raw @ rest"
  have "take 4 X = ?p" "drop 4 X = raw @ rest" "drop (4 + length raw) X = rest"
    "length X = 4 + (length raw + length rest)"
    using p by (simp_all add: X_def frame_def)
  moreover from this(4) have "X \<noteq> []" by auto
  ultimately have "parse_frames X = map_option ((#) raw) (parse_frames rest)"
    by (simp add: parse_frames.simps [of X] Let_def le_nat_length [OF assms])
  then show ?thesis by (simp add: X_def)
qed

lemma parse_encode_frames: "\<forall>raw \<in> set raws. length raw < 2 ^ 32 \<Longrightarrow> parse_frames (encode_frames raws) = Some raws"
proof (induction raws)
  case Nil
  show ?case by (subst parse_frames.simps) (simp add: encode_frames_def)
next
  case (Cons raw raws)
  then show ?case using parse_frame [of raw "encode_frames raws"] by (simp add: encode_frames_def)
qed

lemma frame_within: "raw \<in> set raws \<Longrightarrow> length raw \<le> length (encode_frames raws)"
  by (induction raws) (auto simp: encode_frames_def frame_def)

section \<open>What is in the pool\<close>

definition authentic :: "tx_codec \<Rightarrow> 'st evm_tx_pool \<Rightarrow> bool" where
  "authentic C pool \<longleftrightarrow> (\<forall>e \<in> pool_txs pool. decode_and_recover C (entry_raw e) = Inr (pe_verified e))"

lemma decode_raw: "decode_and_recover C raw = Inr v \<Longrightarrow> vt_raw v = raw"
  by (auto simp: decode_and_recover_def split: sum.splits)

text \<open>A submission adds at most the entry of what was decoded.\<close>

lemma submit_grows:
  assumes inv: "pool_inv pool" and run: "submit_tx C st pool raw = (r, pool')"
    and e: "e \<in> pool_txs pool'" "e \<notin> pool_txs pool"
  shows "r = Inr (entry_hash e) \<and> decode_and_recover C raw = Inr (pe_verified e) \<and> entry_raw e = raw"
  using run
proof (cases rule: submit_tx_cases)
  case (Admitted v old q)
  then have "e = entry_for pool v" using admitted_txs [OF inv Admitted(5,4)] e by auto
  then show ?thesis using Admitted decode_raw by (auto simp: entry_for_def)
qed (use e touched_txs in auto)

lemma step_grows:
  assumes step: "chain_step ops F C c c'" and inv: "pool_inv (ex_txpool (ch_ex c))"
    and e: "e \<in> pool_txs (ex_txpool (ch_ex c'))" "e \<notin> pool_txs (ex_txpool (ch_ex c))"
  shows "c' = c\<lparr>ch_ex := snd (submit_raw_tx C (ch_ex c) (entry_raw e))\<rparr> \<and>
     fst (submit_raw_tx C (ch_ex c) (entry_raw e)) = Inr (entry_hash e) \<and>
     decode_and_recover C (entry_raw e) = Inr (pe_verified e)"
  using step
proof (rule chain_stepE)
  fix raw assume c': "c' = c\<lparr>ch_ex := snd (submit_raw_tx C (ch_ex c) raw)\<rparr>"
  obtain r pool' where run: "submit_tx C (ex_state (ch_ex c)) (ex_txpool (ch_ex c)) raw = (r, pool')" by fastforce
  have "e \<in> pool_txs pool'" using e(1) by (simp add: c' submit_raw_tx_def run)
  from submit_grows [OF inv run this e(2)] show ?thesis by (auto simp: c' submit_raw_tx_def run)
next
  fix ks assume "c' = c\<lparr>ch_ex := snd (create_payload ks (ch_ex c))\<rparr>"
    and "iter_order (senders (pool_inner_of (ex_txpool (ch_ex c)))) ks"
  then show ?thesis using e collect_payload_removes(2) [OF inv] by (auto simp: create_payload_def split_beta)
next
  fix ctx ks ord txs
  assume "c' = c\<lparr>ch_ex := snd (execute_block ops F C ks ord txs ctx (ch_ex c)), ch_open := Some ctx\<rparr>"
  moreover have "ex_txpool (snd (execute_block ops F C ks ord txs ctx (ch_ex c))) = ex_txpool (ch_ex c)"
    using execute_block_keeps [OF prod.collapse [symmetric]] by blast
  ultimately show ?thesis using e by simp
next
  fix ctx ks assume "c' = c\<lparr>ch_ex := app_on_commit ops ks ctx (ch_ex c), ch_open := None\<rparr>"
    "iter_order (senders (pool_inner_of (ex_txpool (ch_ex c)))) ks"
  then show ?thesis using e on_commit_txs [OF inv] by (auto simp: app_on_commit_def)
qed (use e in \<open>simp add: eth_call_quiet\<close>)

lemma step_pool_inv:
  assumes "chain_step ops F C c c'" and inv: "pool_inv (ex_txpool (ch_ex c))"
  shows "pool_inv (ex_txpool (ch_ex c'))"
  using assms(1)
proof (rule chain_stepE)
  fix ctx ks ord txs
  assume "c' = c\<lparr>ch_ex := snd (execute_block ops F C ks ord txs ctx (ch_ex c)), ch_open := Some ctx\<rparr>"
  then show ?thesis using inv execute_block_keeps [OF prod.collapse [symmetric], of ops F C ks ord txs ctx "ch_ex c"] by simp
qed (use inv in \<open>auto simp: submit_raw_tx_def create_payload_def app_on_commit_def split_beta eth_call_quiet
      collect_payload_removes(1) on_commit_inv submit_tx_inv\<close>)

interpretation pooled: safe_machine "\<lambda>c. \<exists>g. c = chain_start ops g" "chain_step ops F C"
  "\<lambda>c. pool_inv (ex_txpool (ch_ex c)) \<and> authentic C (ex_txpool (ch_ex c))" for ops F C
proof
  fix c assume "\<exists>g. c = chain_start ops g"
  then obtain g where c: "c = chain_start ops g" ..
  have "pool_txs (ex_txpool (ch_ex c)) = {}" by (simp add: c txs_of_def demo_start_simps)
  then show "pool_inv (ex_txpool (ch_ex c)) \<and> authentic C (ex_txpool (ch_ex c))"
    using chain_inv_start [of ops g] by (simp add: c authentic_def chain_inv_def)
next
  fix c c' assume inv: "pool_inv (ex_txpool (ch_ex c)) \<and> authentic C (ex_txpool (ch_ex c))"
    and step: "chain_step ops F C c c'"
  have "decode_and_recover C (entry_raw e) = Inr (pe_verified e)" if "e \<in> pool_txs (ex_txpool (ch_ex c'))" for e
    using step_grows [OF step _ that] inv by (cases "e \<in> pool_txs (ex_txpool (ch_ex c))") (auto simp: authentic_def)
  then show "pool_inv (ex_txpool (ch_ex c')) \<and> authentic C (ex_txpool (ch_ex c'))"
    using step_pool_inv [OF step] inv by (simp add: authentic_def)
qed

lemma reachable_authentic:
  "chain_reachable ops F C g c \<Longrightarrow> pool_inv (ex_txpool (ch_ex c)) \<and> authentic C (ex_txpool (ch_ex c))"
  unfolding chain_reachable_def using pooled.reachable_inv by blast

section \<open>Properties\<close>

text \<open>
  C12: A proposal can be read back. In every reachable state the payload of \<^verbatim>\<open>create_payload\<close> splits at its
  length prefixes into the raw bytes of the selected pool entries, at most four megabytes of them, and
  every one decodes, with its signature, to the transaction the pool held: nothing in the node's own
  block is dropped by the decoder of \<^verbatim>\<open>execute_block\<close>. The entries leave the pool.
\<close>

theorem proposal_decodes:
  assumes reach: "chain_reachable ops F C g c"
    and ks: "iter_order (senders (pool_inner_of (ex_txpool (ch_ex c)))) ks"
    and run: "create_payload ks (ch_ex c) = (payload, ex')"
  shows "\<exists>es. parse_frames payload = Some (map entry_raw es) \<and> length payload \<le> 4 * 1024 * 1024 \<and>
     decode_all C (map entry_raw es) = map pe_verified es \<and> distinct (map entry_sender es) \<and>
     set es \<subseteq> pool_txs (ex_txpool (ch_ex c)) \<and>
     pool_txs (ex_txpool ex') = pool_txs (ex_txpool (ch_ex c)) - set es"
proof -
  let ?pool = "ex_txpool (ch_ex c)" and ?mg = "block_gas_limit (ex_config (ch_ex c))"
  let ?es = "selected ks ?pool 4194304 ?mg"
  have inv: "pool_inv ?pool" and auth: "authentic C ?pool" using reachable_authentic [OF reach] by blast+
  have eq: "collect_payload ks ?pool 4194304 ?mg = (payload, ex_txpool ex')"
    using run by (auto simp: create_payload_def split_beta)
  have payload: "payload = encode_frames (map entry_raw ?es)"
    using eq collect_payload_eq [OF inv, of ks 4194304 ?mg] by simp
  have len: "length payload \<le> 4194304" using collect_payload_bytes [of ks ?pool 4194304 ?mg] eq by simp
  have "length raw < 2 ^ 32" if "raw \<in> set (map entry_raw ?es)" for raw
  proof -
    have "length raw \<le> 4194304" using frame_within [OF that] len payload by simp
    then show ?thesis by simp
  qed
  then have "parse_frames payload = Some (map entry_raw ?es)" unfolding payload by (intro parse_encode_frames) blast
  moreover have mem: "set ?es \<subseteq> pool_txs ?pool"
    using selected_basic(3) [OF inv ks] head_of_filed(3) [OF inv] by blast
  moreover have "decode_all C (map entry_raw es) = map pe_verified es" if "set es \<subseteq> pool_txs ?pool" for es
    using that auth by (induction es) (auto simp: authentic_def)
  ultimately show ?thesis
    using len selected_basic(1) [OF inv ks] collect_payload_removes(2) [OF inv ks, of 4194304 ?mg] eq by auto
qed

definition resubmits ::
    "tx_codec \<Rightarrow> pool_entry \<Rightarrow> ('b, 'a, 'k, 's, 't) chain \<Rightarrow> ('b, 'a, 'k, 's, 't) chain \<Rightarrow> bool" where
  "resubmits C e c c' \<longleftrightarrow>
     c' = c\<lparr>ch_ex := snd (submit_raw_tx C (ch_ex c) (entry_raw e))\<rparr> \<and>
     fst (submit_raw_tx C (ch_ex c) (entry_raw e)) = Inr (entry_hash e)"

text \<open>
  C40: What was proposed does not come back by itself. A transaction that is not in the pool, such as one that
  a proposal took out, is not in it after any number of steps, whether the proposed block was committed,
  executed in other order or never, unless someone submits the same bytes again.
\<close>

theorem proposed_stays_out:
  assumes reach: "chain_reachable ops F C g c" and out: "e \<notin> pool_txs (ex_txpool (ch_ex c))"
    and run: "(\<lambda>c c'. chain_step ops F C c c' \<and> \<not> resubmits C e c c')\<^sup>*\<^sup>* c d"
  shows "e \<notin> pool_txs (ex_txpool (ch_ex d))"
proof -
  from run have "chain_reachable ops F C g d \<and> e \<notin> pool_txs (ex_txpool (ch_ex d))"
  proof (induction rule: rtranclp_induct)
    case base
    show ?case using reach out by blast
  next
    case (step x y)
    then have "pool_inv (ex_txpool (ch_ex x))" using reachable_authentic by blast
    then have "e \<notin> pool_txs (ex_txpool (ch_ex y))" using step step_grows unfolding resubmits_def by blast
    moreover have "chain_reachable ops F C g y"
      using step unfolding chain_reachable_def by (metis rtranclp.rtrancl_into_rtrancl)
    ultimately show ?case by blast
  qed
  then show ?thesis ..
qed

section \<open>Examples\<close>

definition demo_submitted :: demo_chain_type where
  "demo_submitted =
     (let c = chain_start demo_ops demo_genesis in c\<lparr>ch_ex := snd (submit_raw_tx demo_codec (ch_ex c) [1, 2, 9, 50])\<rparr>)"

lemma demo_submitted_reachable: "chain_reachable demo_ops demo_evm demo_codec demo_genesis demo_submitted"
  unfolding chain_reachable_def demo_submitted_def Let_def by (intro r_into_rtranclp chain_step.submit)



definition demo_entry :: pool_entry where
  "demo_entry = entry_for (ex_txpool (ch_ex (chain_start demo_ops demo_genesis))) demo_tx"

lemma demo_entry_simps:
  "pe_verified demo_entry = demo_tx" "vt_raw demo_tx = [1, 2, 9, 50]"
  using decode_raw demo_tx_simps(1) by (simp_all add: demo_entry_def entry_for_def)

lemma demo_submitted_pool:
  "senders (pool_inner_of (ex_txpool (ch_ex demo_submitted))) = [1 \<mapsto> \<lparr>sq_pending = [(2, demo_entry)], sq_queued = []\<rparr>]"
proof -
  let ?pool = "ex_txpool (ch_ex (chain_start demo_ops demo_genesis))"
  have "nonce_fn (pool_inner_of ?pool) = Some (es_get_nonce demo_ops)" "by_hash (pool_inner_of ?pool) = Map.empty"
    "max_pending_per_sender (pool_config ?pool) = 64"
    by (simp_all add: chain_start_def setup_nonce_fn_def set_nonce_fn_def executor_from_genesis_def Let_def new_tx_pool_def
        default_tx_pool_config_def)
  then show ?thesis
    by (simp add: demo_submitted_def Let_def submit_raw_tx_def split_beta submit_tx_def demo_tx_simps
        demo_start_simps demo_genesis_nonce [OF demo_ops_ok] queue_admit_def empty_queue_def hm_insert_def
        promote_queued_static_def promote_loop.simps demo_entry_def entry_for_def)
qed

lemma demo_submitted_order: "iter_order (senders (pool_inner_of (ex_txpool (ch_ex demo_submitted)))) [1]"
  by (simp add: demo_submitted_pool iter_order_def)

definition demo_proposed :: demo_chain_type where
  "demo_proposed = demo_submitted\<lparr>ch_ex := snd (create_payload [1] (ch_ex demo_submitted))\<rparr>"

lemma demo_proposed_reachable: "chain_reachable demo_ops demo_evm demo_codec demo_genesis demo_proposed"
  using demo_submitted_reachable chain_step.propose [OF demo_submitted_order]
  unfolding chain_reachable_def demo_proposed_def by (rule rtranclp.rtrancl_into_rtrancl)

lemma demo_proposed_out: "demo_entry \<notin> pool_txs (ex_txpool (ch_ex demo_proposed))"
proof -
  let ?pool = "ex_txpool (ch_ex demo_submitted)" and ?mg = "block_gas_limit (ex_config (ch_ex demo_submitted))"
  have mg: "?mg = 30000000"
    by (simp add: demo_submitted_def Let_def submit_raw_tx_def split_beta chain_start_def setup_nonce_fn_def
        executor_from_genesis_def from_genesis_def demo_genesis_def default_gas_limit_def ex_config_def)
  have "demo_entry \<in> set (selected [1] ?pool 4194304 ?mg)"
    by (simp add: demo_submitted_pool mg selected_def Let_def candidates_of_def first_pending_def sort_candidates_def
        candidate_gas_def cand_entry_def demo_entry_simps demo_tx_simps)
  then show ?thesis
    using collect_payload_removes(2) [OF conjunct1 [OF reachable_authentic [OF demo_submitted_reachable]]
        demo_submitted_order, of 4194304 ?mg]
    by (simp add: demo_proposed_def create_payload_def split_beta)
qed

theorem proposal_decodes_witness:
  "\<exists>es. parse_frames (fst (create_payload [1] (ch_ex demo_submitted))) = Some (map entry_raw es) \<and>
     decode_all demo_codec (map entry_raw es) = map pe_verified es"
  using proposal_decodes [OF demo_submitted_reachable demo_submitted_order prod.collapse [symmetric]] by blast

text \<open>The proposed block never arrives and an empty one is executed in its place: the transaction is gone.\<close>

theorem proposed_stays_out_witness:
  "demo_entry \<in> pool_txs (ex_txpool (ch_ex demo_submitted)) \<and>
   demo_entry \<notin> pool_txs (ex_txpool (snd (execute_block demo_ops demo_evm demo_codec [] (\<lambda>_. []) [] demo_ctx
       (ch_ex demo_proposed))))"
proof -
  let ?d = "demo_proposed\<lparr>ch_ex := snd (execute_block demo_ops demo_evm demo_codec [] (\<lambda>_. []) [] demo_ctx (ch_ex demo_proposed)),
      ch_open := Some demo_ctx\<rparr>"
  have "ch_open demo_proposed = None" "ex_block_height (ch_ex demo_proposed) = 0"
    by (simp_all add: demo_proposed_def demo_submitted_def Let_def demo_start_simps create_payload_def
        submit_raw_tx_def split_beta)
  moreover from this have "chain_step demo_ops demo_evm demo_codec demo_proposed ?d"
    by (intro chain_step.execute) (simp_all add: demo_ctx_def)
  moreover have "ch_open ?d = ch_open demo_proposed" if "resubmits demo_codec demo_entry demo_proposed ?d"
    using arg_cong [OF conjunct1 [OF that [unfolded resubmits_def]], of ch_open] by simp
  ultimately have "(\<lambda>c c'. chain_step demo_ops demo_evm demo_codec c c' \<and> \<not> resubmits demo_codec demo_entry c c')\<^sup>*\<^sup>*
      demo_proposed ?d" by (intro r_into_rtranclp) auto
  from proposed_stays_out [OF demo_proposed_reachable demo_proposed_out this] show ?thesis
    by (simp add: demo_submitted_pool txs_of_def queue_entries_def)
qed

end
