(* ===== verification/Lock_Order.thy ===== *)
theory Lock_Order
  imports State_Machine
begin

text \<open>
  The mutexes of the executor and the pool, and the order in which the methods take them. The other
  theories treat a method as one step; here it is the sequence of lock operations it performs, and
  threads interleave. \<^verbatim>\<open>std::sync::Mutex\<close> is not re-entrant: taking a lock that is held, by whomever,
  blocks. A lock that a method takes repeatedly for single accesses (the staking ledger, once per
  precompile call) is a parameter of its sequence.
\<close>

section \<open>Locks and methods\<close>

datatype lock = StateLock | PoolLock | ReceiptsLock | StakingLock

datatype lock_op = Acquire lock | Release lock

definition guarded :: "lock \<Rightarrow> lock_op list \<Rightarrow> lock_op list" where
  "guarded l body = Acquire l # body @ [Release l]"

definition staking_uses :: "nat \<Rightarrow> lock_op list" where
  "staking_uses n = concat (replicate n (guarded StakingLock []))"

text \<open>\<^verbatim>\<open>EvmTxPool::submit_tx\<close>: with the lookup installed by \<^verbatim>\<open>setup_nonce_fn\<close>, or without one.\<close>

definition submit_locks :: "bool \<Rightarrow> lock_op list" where
  "submit_locks has_nonce_fn = guarded PoolLock (if has_nonce_fn then guarded StateLock [] else [])"

text \<open>\<^verbatim>\<open>EvmExecutor::on_commit\<close>: the guard on the state lives to the end, across both pool calls.\<close>

definition commit_locks :: "lock_op list" where
  "commit_locks = guarded StateLock (guarded PoolLock [] @ guarded PoolLock [])"

definition execute_locks :: "nat \<Rightarrow> lock_op list" where
  "execute_locks n = guarded StateLock (staking_uses n @ guarded ReceiptsLock [])"

definition eth_call_locks :: "nat \<Rightarrow> lock_op list" where
  "eth_call_locks n = guarded StateLock (staking_uses n)"

definition payload_locks :: "lock_op list" where
  "payload_locks = guarded StateLock [] @ guarded PoolLock []"

definition state_read_locks :: "lock_op list" where
  "state_read_locks = guarded StateLock []"

definition receipt_read_locks :: "lock_op list" where
  "receipt_read_locks = guarded ReceiptsLock []"

definition pool_read_locks :: "lock_op list" where
  "pool_read_locks = guarded PoolLock []"

section \<open>Interleaving\<close>

record lock_sys =
  threads :: "lock_op list list"
  holder :: "lock \<Rightarrow> nat option"

inductive lock_step :: "lock_sys \<Rightarrow> lock_sys \<Rightarrow> bool" where
  acquire: "i < length (threads c) \<Longrightarrow> threads c ! i = Acquire l # ops \<Longrightarrow> holder c l = None \<Longrightarrow>
     lock_step c \<lparr>threads = (threads c)[i := ops], holder = (holder c)(l := Some i)\<rparr>"
| release: "i < length (threads c) \<Longrightarrow> threads c ! i = Release l # ops \<Longrightarrow> holder c l = Some i \<Longrightarrow>
     lock_step c \<lparr>threads = (threads c)[i := ops], holder = (holder c)(l := None)\<rparr>"

inductive_cases lock_stepE: "lock_step c c'"

definition started :: "lock_op list list \<Rightarrow> lock_sys" where
  "started ps = \<lparr>threads = ps, holder = (\<lambda>_. None)\<rparr>"

definition stuck :: "lock_sys \<Rightarrow> bool" where
  "stuck c \<longleftrightarrow> (\<exists>p \<in> set (threads c). p \<noteq> []) \<and> (\<forall>c'. \<not> lock_step c c')"

section \<open>Methods that take locks in a fixed order\<close>

fun rank :: "lock \<Rightarrow> nat" where
  "rank StateLock = 0"
| "rank PoolLock = 1"
| "rank ReceiptsLock = 2"
| "rank StakingLock = 3"

text \<open>The rest of a method, given the locks it holds: it takes only higher ones and gives all back.\<close>

fun in_order :: "lock list \<Rightarrow> lock_op list \<Rightarrow> bool" where
  "in_order held [] \<longleftrightarrow> held = []"
| "in_order held (Acquire l # ops) \<longleftrightarrow> (\<forall>h \<in> set held. rank h < rank l) \<and> in_order (l # held) ops"
| "in_order held (Release l # ops) \<longleftrightarrow> l \<in> set held \<and> in_order (remove1 l held) ops"

definition lock_inv :: "lock_sys \<Rightarrow> bool" where
  "lock_inv c \<longleftrightarrow> (\<exists>held :: nat \<Rightarrow> lock list.
     (\<forall>i < length (threads c). in_order (held i) (threads c ! i) \<and> distinct (held i)) \<and>
     (\<forall>l i. holder c l = Some i \<longleftrightarrow> i < length (threads c) \<and> l \<in> set (held i)))"

lemma lock_inv_started: "\<forall>p \<in> set ps. in_order [] p \<Longrightarrow> lock_inv (started ps)"
  unfolding lock_inv_def started_def by (rule exI [of _ "\<lambda>_. []"]) simp

lemma lock_inv_step:
  assumes "lock_inv c" "lock_step c c'"
  shows "lock_inv c'"
proof -
  obtain held where th: "\<And>i. i < length (threads c) \<Longrightarrow> in_order (held i) (threads c ! i) \<and> distinct (held i)"
    and own: "\<And>l i. holder c l = Some i \<longleftrightarrow> i < length (threads c) \<and> l \<in> set (held i)"
    using assms(1) unfolding lock_inv_def by blast
  from assms(2) show ?thesis
  proof (cases rule: lock_step.cases)
    case (acquire i l ops)
    let ?held = "held(i := l # held i)"
    have fresh: "l \<notin> set (held j)" if "j < length (threads c)" for j
      using own [of l j] acquire(4) that by simp
    have ops: "in_order (l # held i) ops" using th [OF acquire(2)] acquire(3) by simp
    have "in_order (?held j) (threads c' ! j) \<and> distinct (?held j)" if "j < length (threads c')" for j
      using th [of j] that ops fresh [of i] acquire(2) by (cases "j = i") (simp_all add: acquire(1))
    moreover have "holder c' k = Some j \<longleftrightarrow> j < length (threads c') \<and> k \<in> set (?held j)" for k j
      using own [of k j] fresh [of j] acquire(2)
      by (cases "k = l"; cases "j = i") (simp_all add: acquire(1))
    ultimately show ?thesis unfolding lock_inv_def by blast
  next
    case (release i l ops)
    let ?held = "held(i := remove1 l (held i))"
    have ops: "in_order (remove1 l (held i)) ops" using th [OF release(2)] release(3) by simp
    have own_l: "l \<in> set (held j) \<longleftrightarrow> j = i" if "j < length (threads c)" for j
      using own [of l j] release(4) that by auto
    have "in_order (?held j) (threads c' ! j) \<and> distinct (?held j)" if "j < length (threads c')" for j
      using th [of j] that ops release(2) by (cases "j = i") (simp_all add: release(1))
    moreover have "holder c' k = Some j \<longleftrightarrow> j < length (threads c') \<and> k \<in> set (?held j)" for k j
      using own [of k j] own_l [of j] th [OF release(2)] release(2)
      by (cases "k = l"; cases "j = i") (simp_all add: release(1))
    ultimately show ?thesis unfolding lock_inv_def by blast
  qed
qed

interpretation locks: safe_machine "\<lambda>c. \<exists>ps. c = started ps \<and> (\<forall>p \<in> set ps. in_order [] p)" lock_step lock_inv
  by unfold_locales (auto intro: lock_inv_started lock_inv_step)

text \<open>A state with the invariant is never stuck: the thread waiting for the highest lock can go on.\<close>

lemma waiting_higher:
  assumes inv: "lock_inv c" and none: "\<forall>c'. \<not> lock_step c c'"
    and i: "i < length (threads c)" "threads c ! i \<noteq> []"
  shows "\<exists>l ops. threads c ! i = Acquire l # ops \<and>
     (\<exists>j l' ops'. j < length (threads c) \<and> threads c ! j = Acquire l' # ops' \<and> rank l < rank l')"
proof -
  obtain held where th: "\<And>i. i < length (threads c) \<Longrightarrow> in_order (held i) (threads c ! i) \<and> distinct (held i)"
    and own: "\<And>l i. holder c l = Some i \<longleftrightarrow> i < length (threads c) \<and> l \<in> set (held i)"
    using inv unfolding lock_inv_def by blast
  have acq: "\<exists>l ops. threads c ! k = Acquire l # ops" if k: "k < length (threads c)" "threads c ! k \<noteq> []" for k
  proof -
    obtain x ops where x: "threads c ! k = x # ops" using k(2) by (cases "threads c ! k") auto
    have False if r: "x = Release l" for l
    proof -
      have "holder c l = Some k" using own [of l k] th [OF k(1)] k(1) x r by simp
      with lock_step.release [OF k(1) x [unfolded r]] none show False by blast
    qed
    then show ?thesis using x by (cases x) auto
  qed
  obtain l ops where l: "threads c ! i = Acquire l # ops" using acq [OF i] by blast
  have "holder c l \<noteq> None" using lock_step.acquire [OF i(1) l] none by blast
  then obtain j where j: "j < length (threads c)" "l \<in> set (held j)" using own [of l] by auto
  have "threads c ! j \<noteq> []" using th [OF j(1)] j(2) by auto
  then obtain l' ops' where l': "threads c ! j = Acquire l' # ops'" using acq [OF j(1)] by blast
  have "rank l < rank l'" using th [OF j(1)] j(2) l' by simp
  with l l' j(1) show ?thesis by blast
qed

lemma lock_inv_not_stuck:
  assumes inv: "lock_inv c"
  shows "\<not> stuck c"
proof
  assume st: "stuck c"
  then have none: "\<forall>c'. \<not> lock_step c c'" by (simp add: stuck_def)
  have up: "\<exists>j l' ops'. j < length (threads c) \<and> threads c ! j = Acquire l' # ops' \<and> n \<le> rank l'" for n
  proof (induction n)
    case 0
    from st obtain i where "i < length (threads c)" "threads c ! i \<noteq> []"
      by (auto simp: stuck_def in_set_conv_nth)
    with waiting_higher [OF inv none] show ?case by blast
  next
    case (Suc n)
    then obtain j l' ops' where "j < length (threads c)" "threads c ! j = Acquire l' # ops'" "n \<le> rank l'"
      by blast
    with waiting_higher [OF inv none, of j] show ?case by (fastforce simp: Suc_le_eq)
  qed
  have "\<not> 4 \<le> rank l" for l by (cases l) simp_all
  with up [of 4] show False by blast
qed

section \<open>The methods\<close>

definition ordered_methods :: "lock_op list set" where
  "ordered_methods = {submit_locks False, commit_locks, payload_locks, state_read_locks,
     receipt_read_locks, pool_read_locks} \<union> range execute_locks \<union> range eth_call_locks"

lemma staking_in_order:
  "\<forall>h \<in> set held. rank h < rank StakingLock \<Longrightarrow> in_order held (staking_uses n @ rest) \<longleftrightarrow> in_order held rest"
  by (induction n) (simp_all add: staking_uses_def guarded_def)

lemma ordered_methods_in_order: "p \<in> ordered_methods \<Longrightarrow> in_order [] p"
proof -
  have "in_order [] (execute_locks n)" "in_order [] (eth_call_locks n)" for n
    by (simp_all add: execute_locks_def eth_call_locks_def guarded_def staking_in_order)
  moreover assume "p \<in> ordered_methods"
  ultimately show ?thesis
    by (auto simp: ordered_methods_def submit_locks_def commit_locks_def payload_locks_def
        state_read_locks_def receipt_read_locks_def pool_read_locks_def guarded_def)
qed

text \<open>
  C16: any number of threads running any of the executor's and pool's methods, in any interleaving,
  never deadlock, as long as submission has no nonce lookup installed: all these methods take the
  locks in the order state, pool, receipts, staking.
\<close>

theorem ordered_methods_progress:
  assumes "set ps \<subseteq> ordered_methods" and "lock_step\<^sup>*\<^sup>* (started ps) c"
  shows "\<not> stuck c"
proof -
  have "\<forall>p \<in> set ps. in_order [] p" using assms(1) ordered_methods_in_order by blast
  then have "lock_inv c" using locks.reachable_inv [OF _ assms(2)] by blast
  then show ?thesis by (rule lock_inv_not_stuck)
qed

theorem ordered_methods_progress_witness:
  "\<not> stuck (started [commit_locks, submit_locks False, execute_locks 2])"
  by (rule ordered_methods_progress [where ps = "[commit_locks, submit_locks False, execute_locks 2]"])
    (auto simp: ordered_methods_def)

text \<open>
  C17: with the lookup that \<^verbatim>\<open>setup_nonce_fn\<close> installs, a submission and a commit can deadlock: the
  submission holds the pool and waits for the state, the commit holds the state and waits for the
  pool.
\<close>

theorem submit_commit_deadlock:
  "\<exists>c. lock_step\<^sup>*\<^sup>* (started [submit_locks True, commit_locks]) c \<and> stuck c"
proof -
  let ?c1 = "\<lparr>threads = [tl (submit_locks True), commit_locks], holder = (\<lambda>_. None)(PoolLock := Some 0)\<rparr>"
  let ?c2 = "\<lparr>threads = [tl (submit_locks True), tl commit_locks],
      holder = (\<lambda>_. None)(PoolLock := Some 0, StateLock := Some 1)\<rparr>"
  have s1: "lock_step (started [submit_locks True, commit_locks]) ?c1"
    using lock_step.acquire [of 0 "started [submit_locks True, commit_locks]" PoolLock "tl (submit_locks True)"]
    by (simp add: started_def submit_locks_def guarded_def)
  have s2: "lock_step ?c1 ?c2"
    using lock_step.acquire [of 1 ?c1 StateLock "tl commit_locks"]
    by (simp add: commit_locks_def guarded_def)
  have "\<not> lock_step ?c2 c'" for c'
    by (auto elim!: lock_stepE simp: submit_locks_def commit_locks_def guarded_def less_Suc_eq)
  then have "stuck ?c2" by (simp add: stuck_def submit_locks_def guarded_def)
  with s1 s2 show ?thesis by (meson converse_rtranclp_into_rtranclp rtranclp.rtrancl_refl)
qed

end
