(* ===== verification/Spec2Isabelle.thy ===== *)
theory Spec2Isabelle
  imports E2e Replica Proposal Lock_Order
begin

text \<open>
  A verification development for NBnet (\<^verbatim>\<open>src/crates\<close>), an Ethereum-compatible chain on the Hotmint
  consensus engine. Consensus orders blocks and calls the block executor, which owns the world state,
  the transaction pool, the receipts and the ledger of the staking precompile; a JSON-RPC server and
  the gossip of the peer-to-peer network submit transactions to the same executor.

  \<^bold>\<open>Theories and sources.\<close>

  \<^item> \<open>Prelude\<close>, \<open>Rust_Collections\<close>, \<open>Rust_Format\<close>, \<open>Json\<close>, \<open>State_Machine\<close>: what the sources use of Rust.
    Machine integers are words, with saturating and wrapping operations and byte conversion;
    \<^verbatim>\<open>HashMap\<close> is a partial map whose traversal order is an argument (\<open>iter_order\<close> says which lists are
    possible), \<^verbatim>\<open>BTreeMap\<close> a sorted association list; integer formatting and parsing; JSON values and
    the plumbing of \<^verbatim>\<open>Result\<close>; the contracts of a machine with an invariant (locale \<open>safe_machine\<close>,
    interpreted for the pool, the locks, the chain and the running node) and of a client that serves requests by its
    steps (locale \<open>machine_client\<close>, interpreted for the RPC server and the gossip), and of two runs that
    agree on what they share (locale \<open>replicated\<close>, interpreted for two nodes).
  \<^item> \<open>Serde\<close>: the rules by which derived serde code reads and writes structs, options, arrays and maps;
    the contract of a type that reads back what it writes (locale \<open>codec\<close>, interpreted for every type).
  \<^item> \<open>Chain_Types\<close> (\<^verbatim>\<open>types/src/config.rs\<close>, \<^verbatim>\<open>genesis.rs\<close>, \<^verbatim>\<open>receipt.rs\<close>): configuration, genesis document,
    receipts, and the two hand-written hex codecs with their panics. \<open>Genesis_Json\<close> has their derived
    (de)serialisation, field by field, and \<^verbatim>\<open>EvmGenesis::load\<close>, \<open>Genesis_Json_Spec\<close> what is shown of it.
  \<^item> \<open>Transactions\<close> (\<^verbatim>\<open>types/src/tx.rs\<close>): decoding, validation, intrinsic gas, effective tip.
  \<^item> \<open>Tx_Pool\<close> (\<^verbatim>\<open>txpool/src/lib.rs\<close>): \<^verbatim>\<open>submit_tx\<close>, \<^verbatim>\<open>collect_payload\<close>, \<^verbatim>\<open>on_commit\<close> and the counters, loop by
    loop. \<open>Tx_Pool_Queue\<close>, \<open>Tx_Pool_Inv\<close>, \<open>Tx_Pool_Select\<close> and \<open>Tx_Pool_Commit\<close> hold the lemmas on one
    sender's queue, the invariant, the selection and the commit; \<open>Tx_Pool_Spec\<close> the machine and its
    properties. The abstract pool is the set of its transactions (\<open>pool_txs\<close>).
  \<^item> \<open>Precompile\<close>, \<open>Precompile_Spec\<close> (\<^verbatim>\<open>precompile/src/lib.rs\<close>): the staking ledger and the two precompiles.
  \<^item> \<open>World_State\<close>, \<open>World_State_Spec\<close> (\<^verbatim>\<open>state/src/state.rs\<close>): the persistent store, the cached state over
    it, genesis, flush and state root.
  \<^item> \<open>Executor\<close>, \<open>Executor_Spec\<close> (\<^verbatim>\<open>execution/src/executor.rs\<close>): the executor with its implementation of
    the consensus engine's \<^verbatim>\<open>Application\<close> trait, and the mempool adapter.
  \<^item> \<open>Rpc\<close>, \<open>Rpc_Spec\<close> (\<^verbatim>\<open>rpc/src/lib.rs\<close>): parsers, printers and every method of \<^verbatim>\<open>dispatch\<close>.
    \<open>Rpc_Json\<close> reads the body of a request and writes the response.
  \<^item> \<open>Chain_Machine\<close>: the executor between consensus, RPC and gossip as one state machine. \<open>Proposal\<close> follows
    a transaction through it from the pool into a proposal, \<open>Replica\<close> compares two of these machines.
  \<^item> \<open>Node\<close>, \<open>Node_Spec\<close>, \<open>Node_Run\<close> (\<^verbatim>\<open>node/src/main.rs\<close>, \<^verbatim>\<open>cluster.rs\<close>) and \<open>Bench\<close> (\<^verbatim>\<open>node/src/bench.rs\<close>): the
    start of a node step by step, its gossip, sync responder and waiting loops, \<^verbatim>\<open>run_node\<close> and \<^verbatim>\<open>main\<close> with the
    exit codes, the cluster helpers, and the benchmark as a client of the RPC server.
  \<^item> \<open>Running_Node\<close>: engine, RPC server and gossip task over one executor as interleaved steps, a transaction
    from a peer being validated in one step and added in a later one; \<^verbatim>\<open>SharedExecutor\<close> as the function that
    takes a call of the \<^verbatim>\<open>Application\<close> trait to the executor.
  \<^item> \<open>Unit_Tests\<close>, \<open>E2e\<close>: the repository's unit tests (\<^verbatim>\<open>mod tests\<close> of the crates) and its end-to-end test
    (\<^verbatim>\<open>node/tests/e2e_rpc.rs\<close>) as boolean functions over the model, in the order of their statements.
  \<^item> \<open>Lock_Order\<close>: the mutexes of executor and pool, as sequences of lock operations of interleaved
    threads. All other theories treat a method as one step.

  A struct is a record with a prefix per struct, an enum a datatype, a method a function from the old
  state to result and new state, an error a value; a panic is the outcome \<open>Panic\<close>.

  \<^bold>\<open>What the lemmas show.\<close>

  \<^item> Pool: the hash index is exact in every reachable state; submission, payload and commit refine
    insertion, removal of the selected and removal of the stale from the abstract set; bounds per
    sender; gas and byte bounds of a payload; independence of the traversal order; promotion.
  \<^item> Precompiles: the staking account covers all delegations after every call; what is delegated can be
    withdrawn; totals are exact sums.
  \<^item> State: the store is a faithful table, the flush makes it agree with the cache, genesis is what
    the document allocates.
  \<^item> Executor: receipts account for the gas within the block limit; a block runs a subsequence of its
    transactions without repetition.
  \<^item> Whole node: no transaction is executed twice in the life of a chain under any interleaving of
    clients and consensus, an executed one is refused from then on and leaves the pool at the commit;
    receipts are filed by height; RPC requests and gossip are steps of the machine. A proposal reads back
    as transactions that decode. A node whose start succeeds is this machine in its initial state, over
    the genesis that \<^verbatim>\<open>init\<close> wrote, and reaches consensus in one of its reachable states. From then on every
    run of the node, steps of engine, server and gossip in any order, is a run of the machine; what it
    broadcasts decodes, and what it takes from peers was valid in a state it has been in.
  \<^item> Tests: they pass, not for one random key and one schedule, but for every key, hash function and store
    that do what the tests rely on, and whatever the node does between two calls of the end-to-end test.
  \<^item> Several nodes: two nodes with the same genesis that execute the same blocks have the same state roots and
    state, whatever else each does (dry runs excepted) and in whatever order it traverses its maps.
  \<^item> JSON: documents, configurations and receipts read back what they write; exactly which documents and
    which requests are accepted, and as what.
  \<^item> RPC: well-formed responses, values that read back, \<^verbatim>\<open>eth_getLogs\<close> as a filter, broadcast exactly on
    acceptance.
  \<^item> Locks: the methods that respect the order state, pool, receipts, staking never deadlock; a
    submission through the installed nonce lookup does not respect it and can.
  \<^item> A number of theorems state where the code falls short of its documentation or purpose, each on the
    model as it is: wrap-around in validation and payload gas, truncation of tips, genesis code, delegations
    that survive a revert, the state lost on restart, the block query, unvalidated RPC submissions, the
    dry run that changes the next state root, proposed transactions that are lost with their block.

  \<^bold>\<open>Bounds and fuel.\<close> Loops are structural recursion over the list they traverse or have a termination
  measure; there is no fuel. A loop that waits for its environment is given the readings it takes, and
  returns \<open>None\<close> when they are used up; that it returns is proved from the readings.

  \<^bold>\<open>Parameters.\<close> The transaction decoder and signature recovery of alloy (\<open>tx_codec\<close>), revm's execution,
  journal and standard precompiles (\<open>evm_fns\<close>, \<open>revm_ops\<close>), the vsdb maps and trie (\<open>state_ops\<close>), the hex
  crate and ruint's text conversion (\<open>rpc_fns\<close>), alloy's serde implementations (\<open>alloy_serde\<close>), the file system
  and the JSON grammar, and what the framework returns to the node (\<open>framework\<close>, \<open>run_env\<close>). What is assumed
  of them is named: \<open>state_ok\<close>, \<open>evm_gas_ok\<close>, \<open>evm_nonce_ok\<close>, \<open>dry_nonce_ok\<close>, \<open>journal_ok\<close>, \<open>hex_ok\<close>,
  \<open>hex_len\<close>, \<open>u256_text_ok\<close>, \<open>test_env\<close> (\<open>signer_ok\<close>, \<open>hashes_differ\<close>, \<open>one_leaf_root_ok\<close>), \<open>range_ok\<close>, \<open>ports_ok\<close>, \<open>delivers\<close>, \<open>alloy_serde_ok\<close>, \<open>files_ok\<close>, \<open>epoch_ok\<close>,
  \<open>sync_by_steps\<close> and, for the comparison of two nodes, \<open>replica_laws\<close> (\<open>trie_ok\<close>, \<open>evm_reads_ok\<close>, \<open>evm_code_ok\<close>);
  each has a concrete instance.

  \<^bold>\<open>Not modelled.\<close> Logging; process handling, HTTP, the consensus engine and the network service, which belong
  to the framework, beyond the steps they make in \<open>Running_Node\<close>; the parsing of the command line (clap) and the
  grammar of JSON; the rates in the report of the benchmark; the test that compares the function selectors
  with Keccak hashes. What remains is imports, comments, and the
  wiring of the tasks and of the network service's configuration.
\<close>

section \<open>From block execution to the pool\<close>


lemma demo_pool_start: "pool_inv (ex_txpool demo_executor)"
    "iter_order (senders (pool_inner_of (ex_txpool demo_executor))) []"
  by (simp_all add: demo_executor_def executor_from_genesis_def Let_def pool_inv_new)
    (simp add: new_tx_pool_def iter_order_def)


text \<open>
  Once \<^verbatim>\<open>setup_nonce_fn\<close> has connected the pool to the state, a submission the pool does not know
  is refused with both nonces when its nonce lies below the sender's committed one, and the executor
  is unchanged.
\<close>

theorem submit_checks_committed_nonce:
  assumes dec: "decode_and_recover C raw = Inr v"
    and new: "\<not> pool_contains (ex_txpool ex) (vt_tx_hash v)"
    and low: "env_nonce (vt_envelope v) < es_get_nonce ops (ex_state ex) (vt_sender v)"
  shows "submit_raw_tx C (setup_nonce_fn ops ex) raw =
     (Inl (PoolNonceTooLow (env_nonce (vt_envelope v)) (es_get_nonce ops (ex_state ex) (vt_sender v))),
      setup_nonce_fn ops ex)"
proof -
  have cur: "current_nonce_of (ex_state ex) (set_nonce_fn (es_get_nonce ops) (ex_txpool ex)) (vt_sender v) =
      es_get_nonce ops (ex_state ex) (vt_sender v)"
    by (simp add: current_nonce_of_def set_nonce_fn_def)
  have "by_hash (pool_inner_of (set_nonce_fn (es_get_nonce ops) (ex_txpool ex))) (vt_tx_hash v) = None"
    using new by (simp add: set_nonce_fn_def pool_contains_def)
  with dec low show ?thesis
    by (simp add: submit_raw_tx_def setup_nonce_fn_def submit_tx_unfold cur)
qed

theorem submit_checks_committed_nonce_witness:
  "fst (submit_raw_tx demo_codec (setup_nonce_fn demo_ops demo_executor) [1, 0, 9, 50]) =
     Inl (PoolNonceTooLow 0 2)"
proof -
  obtain v where v: "decode_and_recover demo_codec [1, 0, 9, 50] = Inr v" "vt_sender v = 1"
    "env_nonce (vt_envelope v) = 0"
    by (simp add: decode_and_recover_def demo_codec_def demo_decode_def sample_envelope_def)
  have nonce: "es_get_nonce demo_ops (ex_state demo_executor) 1 = 2"
    by (simp add: demo_executor_def executor_from_genesis_def Let_def demo_genesis_nonce [OF demo_ops_ok])
  have "\<not> pool_contains (ex_txpool demo_executor) (vt_tx_hash v)"
    by (simp add: demo_executor_def executor_from_genesis_def Let_def new_tx_pool_def pool_contains_def)
  from submit_checks_committed_nonce [OF v(1) this, of demo_ops] show ?thesis
    by (simp add: v nonce)
qed

end
